theory Spec2Isabelle
  imports Main "HOL-Library.Word"
begin

unbundle bit_operations_syntax

section \<open>Memory compaction (mm/compaction.c): data model\<close>

text \<open>
  Page frames are identified by their page frame number; \<open>pfn_to_page\<close> is a bijection
  between frame numbers and page descriptors, so a \<open>struct page *\<close> is modelled by the
  frame number itself and pointer increments by additions. Frame numbers are far below the
  range of \<open>unsigned long\<close>, so they are natural numbers. The two list counters of the
  control block are \<open>unsigned long\<close> and are decremented, so they are machine words.

  Left out of the model: the trace points and the counters kept only for them
  (\<open>nr_scanned\<close>, \<open>nr_isolated\<close>), the saved interrupt flags of the lock primitives, and
  the \<open>VM_BUG_ON\<close> assertions, which are compiled out unless \<open>CONFIG_DEBUG_VM\<close> is set;
  the conditions asserted at the end of a zone run are proved as a property of the model.
  A private list is a list of frame numbers with its head first.
\<close>

type_synonym pfn = nat
type_synonym ulong = "32 word"
type_synonym gfp_t = "32 word"

text \<open>
  Status codes of include/linux/compaction.h and the errno value used by the driver.
  The header is not part of the sources at hand; the values are the ones of this kernel
  generation. Only their order (for \<open>max\<close>) and their distinctness are used.
\<close>

definition COMPACT_SKIPPED :: int where "COMPACT_SKIPPED = 0"
definition COMPACT_CONTINUE :: int where "COMPACT_CONTINUE = 1"
definition COMPACT_PARTIAL :: int where "COMPACT_PARTIAL = 2"
definition COMPACT_COMPLETE :: int where "COMPACT_COMPLETE = 3"
definition ENOMEM :: int where "ENOMEM = 12"

lemmas compact_status_defs =
  COMPACT_SKIPPED_def COMPACT_CONTINUE_def COMPACT_PARTIAL_def COMPACT_COMPLETE_def

text \<open>Migrate types of include/linux/mmzone.h (with CMA configured).\<close>

definition MIGRATE_UNMOVABLE :: int where "MIGRATE_UNMOVABLE = 0"
definition MIGRATE_RECLAIMABLE :: int where "MIGRATE_RECLAIMABLE = 1"
definition MIGRATE_MOVABLE :: int where "MIGRATE_MOVABLE = 2"
definition MIGRATE_PCPTYPES :: int where "MIGRATE_PCPTYPES = 3"
definition MIGRATE_RESERVE :: int where "MIGRATE_RESERVE = 3"
definition MIGRATE_CMA :: int where "MIGRATE_CMA = 4"
definition MIGRATE_ISOLATE :: int where "MIGRATE_ISOLATE = 5"

lemmas migratetype_defs =
  MIGRATE_UNMOVABLE_def MIGRATE_RECLAIMABLE_def MIGRATE_MOVABLE_def MIGRATE_PCPTYPES_def
  MIGRATE_RESERVE_def MIGRATE_CMA_def MIGRATE_ISOLATE_def

datatype zone_stat_item =
  NR_INACTIVE_ANON | NR_ACTIVE_ANON | NR_INACTIVE_FILE | NR_ACTIVE_FILE
  | NR_ISOLATED_ANON | NR_ISOLATED_FILE

datatype vm_event_item = COMPACTBLOCKS | COMPACTPAGES | COMPACTPAGEFAILED | COMPACTSTALL

datatype migrate_mode = MIGRATE_ASYNC | MIGRATE_SYNC_LIGHT

text \<open>
  \<open>struct zone\<close>: the fields the compaction code reads or writes itself. The free areas,
  the LRU lists and the statistics counters of a zone belong to the allocator and are
  reached through the primitives of the kernel interface below.
\<close>

record zone =
  zone_id :: nat
  zone_start_pfn :: pfn
  spanned_pages :: nat
  compact_order_failed :: int
  compact_considered :: nat
  compact_defer_shift :: nat

text \<open>The two coarse locks of a zone, named by the zone's identity.\<close>

datatype lock = Zone_lock nat | Lru_lock nat

text \<open>
  \<open>struct compact_control\<close> (mm/internal.h). The two back-references are pointers that may
  be NULL: \<open>contended = None\<close> is a NULL pointer, \<open>Some b\<close> a pointer to a flag holding
  \<open>b\<close>; \<open>page = None\<close> is a NULL capture slot, \<open>Some None\<close> an empty slot and
  \<open>Some (Some p)\<close> a slot holding page \<open>p\<close>.
\<close>

record compact_control =
  freepages :: "pfn list"
  migratepages :: "pfn list"
  nr_freepages :: ulong
  nr_migratepages :: ulong
  free_pfn :: pfn
  migrate_pfn :: pfn
  sync :: bool
  order :: int
  migratetype :: int
  zone :: zone
  contended :: "bool option"
  page :: "pfn option option"

text \<open>
  The collaborators of the compaction code (buddy allocator, LRU bookkeeping, migration
  engine, scheduler, zone infrastructure) and the build-time constants are not part of
  mm/compaction.c. They are parameters of the model: a record of operations over an
  arbitrary machine state \<open>'w\<close>. Operations with an effect take the state and return the
  new one. Names that start with underscores in the source lose them: \<open>free_page\<close> is
  \<open>__free_page\<close>, \<open>isolate_lru_page\<close> is \<open>__isolate_lru_page\<close>,
  \<open>mod_zone_page_state_irqs_off\<close> is \<open>__mod_zone_page_state\<close>; further down,
  \<open>compact_pgdat_zones\<close> and \<open>compact_pgdat_cc\<close> are the loop and the body of
  \<open>__compact_pgdat\<close>.
\<close>

record 'w kernel =
  MAX_ORDER :: nat
  pageblock_order :: nat
  SWAP_CLUSTER_MAX :: nat
  GFP_FS :: gfp_t
  GFP_IO :: gfp_t
  need_resched :: "'w \<Rightarrow> bool"
  spin_is_contended :: "lock \<Rightarrow> 'w \<Rightarrow> bool"
  spin_lock_irqsave :: "lock \<Rightarrow> 'w \<Rightarrow> 'w"
  spin_unlock_irqrestore :: "lock \<Rightarrow> 'w \<Rightarrow> 'w"
  cond_resched :: "'w \<Rightarrow> 'w"
  fatal_signal_pending :: "'w \<Rightarrow> bool"
  congestion_wait :: "'w \<Rightarrow> 'w"
  pfn_valid :: "'w \<Rightarrow> pfn \<Rightarrow> bool"
  pfn_valid_within :: "'w \<Rightarrow> pfn \<Rightarrow> bool"
  page_zone :: "'w \<Rightarrow> pfn \<Rightarrow> nat"
  PageBuddy :: "'w \<Rightarrow> pfn \<Rightarrow> bool"
  page_order :: "'w \<Rightarrow> pfn \<Rightarrow> nat"
  PageLRU :: "'w \<Rightarrow> pfn \<Rightarrow> bool"
  PageTransHuge :: "'w \<Rightarrow> pfn \<Rightarrow> bool"
  compound_order :: "'w \<Rightarrow> pfn \<Rightarrow> nat"
  page_is_file_cache :: "'w \<Rightarrow> pfn \<Rightarrow> bool"
  get_pageblock_migratetype :: "'w \<Rightarrow> pfn \<Rightarrow> int"
  split_free_page :: "pfn \<Rightarrow> 'w \<Rightarrow> nat \<times> 'w"
  free_page :: "pfn \<Rightarrow> 'w \<Rightarrow> 'w"
  arch_alloc_page :: "pfn \<Rightarrow> 'w \<Rightarrow> 'w"
  kernel_map_pages :: "pfn \<Rightarrow> 'w \<Rightarrow> 'w"
  capture_free_page :: "pfn \<Rightarrow> int \<Rightarrow> int \<Rightarrow> 'w \<Rightarrow> bool \<times> 'w"
  free_list :: "'w \<Rightarrow> zone \<Rightarrow> nat \<Rightarrow> int \<Rightarrow> pfn list"
  nr_free :: "'w \<Rightarrow> zone \<Rightarrow> nat \<Rightarrow> nat"
  zone_page_state :: "'w \<Rightarrow> zone \<Rightarrow> zone_stat_item \<Rightarrow> nat"
  mod_zone_page_state :: "zone \<Rightarrow> zone_stat_item \<Rightarrow> nat \<Rightarrow> 'w \<Rightarrow> 'w"
  mod_zone_page_state_irqs_off :: "zone \<Rightarrow> zone_stat_item \<Rightarrow> nat \<Rightarrow> 'w \<Rightarrow> 'w"
  isolate_lru_page :: "pfn \<Rightarrow> bool \<Rightarrow> 'w \<Rightarrow> int \<times> 'w"
  del_page_from_lru_list :: "zone \<Rightarrow> pfn \<Rightarrow> 'w \<Rightarrow> 'w"
  putback_lru_pages :: "pfn list \<Rightarrow> 'w \<Rightarrow> 'w"
  low_wmark_pages :: "'w \<Rightarrow> zone \<Rightarrow> nat"
  zone_watermark_ok :: "'w \<Rightarrow> zone \<Rightarrow> int \<Rightarrow> nat \<Rightarrow> nat \<Rightarrow> nat \<Rightarrow> bool"
  fragmentation_index :: "'w \<Rightarrow> zone \<Rightarrow> int \<Rightarrow> int"
  sysctl_extfrag_threshold :: "'w \<Rightarrow> int"
  migrate_prep_local :: "'w \<Rightarrow> 'w"
  lru_add_drain_all :: "'w \<Rightarrow> 'w"
  count_vm_events :: "vm_event_item \<Rightarrow> ulong \<Rightarrow> 'w \<Rightarrow> 'w"
  allocflags_to_migratetype :: "gfp_t \<Rightarrow> int"
  gfp_zone :: "gfp_t \<Rightarrow> nat"
  zonelist_zones :: "zone list \<Rightarrow> nat \<Rightarrow> nat list option \<Rightarrow> zone list"
  populated_zone :: "zone \<Rightarrow> bool"
  compaction_deferred :: "zone \<Rightarrow> int \<Rightarrow> bool \<times> zone"
  defer_compaction :: "zone \<Rightarrow> int \<Rightarrow> zone"
  online_nodes :: "'w \<Rightarrow> nat list"
  migrate_pages ::
    "(compact_control \<times> 'w \<Rightarrow> pfn option \<times> compact_control \<times> 'w) \<Rightarrow> bool \<Rightarrow> migrate_mode
       \<Rightarrow> compact_control \<times> 'w \<Rightarrow> int \<times> compact_control \<times> 'w"

definition pageblock_nr_pages :: "'w kernel \<Rightarrow> nat" where
  "pageblock_nr_pages K = 2 ^ pageblock_order K"

definition MAX_ORDER_NR_PAGES :: "'w kernel \<Rightarrow> nat" where
  "MAX_ORDER_NR_PAGES K = 2 ^ (MAX_ORDER K - 1)"

definition COMPACT_CLUSTER_MAX :: "'w kernel \<Rightarrow> nat" where
  "COMPACT_CLUSTER_MAX K = SWAP_CLUSTER_MAX K"

text \<open>\<open>ALIGN(x, a)\<close> for a power of two \<open>a\<close>: the next multiple of \<open>a\<close> at or above \<open>x\<close>.\<close>

definition ALIGN :: "nat \<Rightarrow> nat \<Rightarrow> nat" where
  "ALIGN x a = ((x + a - 1) div a) * a"

section \<open>Free-list plumbing and lock arbitration\<close>

fun release_freepages :: "'w kernel \<Rightarrow> pfn list \<Rightarrow> 'w \<Rightarrow> nat \<times> pfn list \<times> 'w" where
  "release_freepages K [] w = (0, [], w)"
| "release_freepages K (p # freelist) w =
     (case release_freepages K freelist (free_page K p w) of
        (count, rest, w') \<Rightarrow> (count + 1, rest, w'))"

fun map_pages :: "'w kernel \<Rightarrow> pfn list \<Rightarrow> 'w \<Rightarrow> 'w" where
  "map_pages K [] w = w"
| "map_pages K (p # ps) w = map_pages K ps (kernel_map_pages K p (arch_alloc_page K p w))"

definition is_migrate_cma :: "int \<Rightarrow> bool" where
  "is_migrate_cma mt = (mt = MIGRATE_CMA)"

definition migrate_async_suitable :: "int \<Rightarrow> bool" where
  "migrate_async_suitable mt = (is_migrate_cma mt \<or> mt = MIGRATE_MOVABLE)"

text \<open>
  \<open>compact_checklock_irqsave\<close>: returns whether the lock is held, the control block (whose
  contention flag may have been set) and the new machine state.
\<close>

definition compact_checklock_irqsave ::
  "'w kernel \<Rightarrow> lock \<Rightarrow> bool \<Rightarrow> compact_control \<Rightarrow> 'w \<Rightarrow> bool \<times> compact_control \<times> 'w" where
  "compact_checklock_irqsave K l locked cc w =
     (if need_resched K w \<or> spin_is_contended K l w then
        (let w1 = (if locked then spin_unlock_irqrestore K l w else w) in
         if \<not> sync cc then
           (False, (if contended cc \<noteq> None then cc\<lparr>contended := Some True\<rparr> else cc), w1)
         else
           (let w2 = cond_resched K w1 in
            if fatal_signal_pending K w2 then (False, cc, w2)
            else (True, cc, spin_lock_irqsave K l w2)))
      else (True, cc, (if \<not> locked then spin_lock_irqsave K l w else w)))"

definition compact_trylock_irqsave ::
  "'w kernel \<Rightarrow> lock \<Rightarrow> compact_control \<Rightarrow> 'w \<Rightarrow> bool \<times> compact_control \<times> 'w" where
  "compact_trylock_irqsave K l cc w = compact_checklock_irqsave K l False cc w"

section \<open>Free-page block isolator\<close>

text \<open>
  The loop of \<open>isolate_freepages_block\<close>. The state of an iteration is the scan cursor
  \<open>blockpfn\<close>, the running total, the private free list and the machine state.
  \<open>list_add\<close> inserts at the head of the list.
\<close>

function isolate_freepages_block_loop ::
  "'w kernel \<Rightarrow> pfn \<Rightarrow> bool \<Rightarrow> pfn \<Rightarrow> nat \<Rightarrow> pfn list \<Rightarrow> 'w \<Rightarrow> nat \<times> pfn list \<times> 'w" where
  "isolate_freepages_block_loop K end_pfn strict blockpfn total_isolated freelist w =
     (if blockpfn < end_pfn then
        (if \<not> pfn_valid_within K w blockpfn then
           (if strict then (0, freelist, w)
            else isolate_freepages_block_loop K end_pfn strict (blockpfn + 1)
                   total_isolated freelist w)
         else if \<not> PageBuddy K w blockpfn then
           (if strict then (0, freelist, w)
            else isolate_freepages_block_loop K end_pfn strict (blockpfn + 1)
                   total_isolated freelist w)
         else
           (let isolated = fst (split_free_page K blockpfn w);
                w' = snd (split_free_page K blockpfn w)
            in if isolated = 0 \<and> strict then (0, freelist, w')
               else isolate_freepages_block_loop K end_pfn strict
                      ((if isolated \<noteq> 0 then blockpfn + (isolated - 1) else blockpfn) + 1)
                      (total_isolated + isolated)
                      (rev [blockpfn ..< blockpfn + isolated] @ freelist) w'))
      else (total_isolated, freelist, w))"
  by pat_completeness auto
termination
  by (relation "measure (\<lambda>(K, end_pfn, strict, blockpfn, t, fl, w). end_pfn - blockpfn)") auto

definition isolate_freepages_block ::
  "'w kernel \<Rightarrow> pfn \<Rightarrow> pfn \<Rightarrow> pfn list \<Rightarrow> bool \<Rightarrow> 'w \<Rightarrow> nat \<times> pfn list \<times> 'w" where
  "isolate_freepages_block K blockpfn end_pfn freelist strict w =
     isolate_freepages_block_loop K end_pfn strict blockpfn 0 freelist w"

section \<open>Free-page range isolator\<close>

text \<open>
  The loop of \<open>isolate_freepages_range\<close>; \<open>z\<close> is the zone of the first frame
  (\<open>None\<close> for the NULL pointer). The result is the value of \<open>pfn\<close> at loop exit with
  the local free list and the machine state.
\<close>

function isolate_freepages_range_loop ::
  "'w kernel \<Rightarrow> nat option \<Rightarrow> pfn \<Rightarrow> pfn \<Rightarrow> pfn list \<Rightarrow> 'w \<Rightarrow> pfn \<times> pfn list \<times> 'w" where
  "isolate_freepages_range_loop K z end_pfn pfn freelist w =
     (if pfn < end_pfn then
        (if \<not> pfn_valid K w pfn \<or> z \<noteq> Some (page_zone K w pfn) then (pfn, freelist, w)
         else
           (let block_end_pfn = min (ALIGN (pfn + 1) (pageblock_nr_pages K)) end_pfn;
                w1 = spin_lock_irqsave K (Zone_lock (the z)) w;
                r = isolate_freepages_block K pfn block_end_pfn freelist True w1;
                isolated = fst r;
                w2 = spin_unlock_irqrestore K (Zone_lock (the z)) (snd (snd r))
            in if isolated = 0 then (pfn, fst (snd r), w2)
               else isolate_freepages_range_loop K z end_pfn (pfn + isolated) (fst (snd r)) w2))
      else (pfn, freelist, w))"
  by pat_completeness auto
termination
  by (relation "measure (\<lambda>(K, z, end_pfn, pfn, fl, w). end_pfn - pfn)") auto

definition isolate_freepages_range ::
  "'w kernel \<Rightarrow> pfn \<Rightarrow> pfn \<Rightarrow> 'w \<Rightarrow> pfn \<times> pfn list \<times> 'w" where
  "isolate_freepages_range K start_pfn end_pfn w =
     (let z = (if pfn_valid K w start_pfn then Some (page_zone K w start_pfn) else None) in
      case isolate_freepages_range_loop K z end_pfn start_pfn [] w of
        (pfn, freelist, w1) \<Rightarrow>
          (let w2 = map_pages K freelist w1 in
           if pfn < end_pfn then
             (case release_freepages K freelist w2 of (count, rest, w3) \<Rightarrow> (0, rest, w3))
           else (pfn, freelist, w2)))"

section \<open>Migrate-page range isolator\<close>

definition acct_isolated :: "'w kernel \<Rightarrow> zone \<Rightarrow> bool \<Rightarrow> compact_control \<Rightarrow> 'w \<Rightarrow> 'w" where
  "acct_isolated K z locked cc w =
     (let count0 = length (filter (\<lambda>p. \<not> page_is_file_cache K w p) (migratepages cc));
          count1 = length (filter (\<lambda>p. page_is_file_cache K w p) (migratepages cc))
      in if locked then
           mod_zone_page_state_irqs_off K z NR_ISOLATED_FILE count1
             (mod_zone_page_state_irqs_off K z NR_ISOLATED_ANON count0 w)
         else
           mod_zone_page_state K z NR_ISOLATED_FILE count1
             (mod_zone_page_state K z NR_ISOLATED_ANON count0 w))"

definition too_many_isolated :: "'w kernel \<Rightarrow> zone \<Rightarrow> 'w \<Rightarrow> bool" where
  "too_many_isolated K z w =
     (let inactive = zone_page_state K w z NR_INACTIVE_FILE + zone_page_state K w z NR_INACTIVE_ANON;
          active = zone_page_state K w z NR_ACTIVE_FILE + zone_page_state K w z NR_ACTIVE_ANON;
          isolated = zone_page_state K w z NR_ISOLATED_FILE + zone_page_state K w z NR_ISOLATED_ANON
      in isolated > (inactive + active) div 2)"

lemma le_ALIGN: "0 < a \<Longrightarrow> x \<le> ALIGN x a"
proof -
  assume a: "0 < a"
  have "x + a - 1 = (x + a - 1) div a * a + (x + a - 1) mod a" by simp
  moreover have "(x + a - 1) mod a < a" using a by simp
  ultimately have "x + a - 1 \<le> (x + a - 1) div a * a + (a - 1)" by linarith
  then show ?thesis using a unfolding ALIGN_def by linarith
qed

lemma pageblock_nr_pages_pos: "0 < pageblock_nr_pages K"
  by (simp add: pageblock_nr_pages_def)

lemma pageblock_skip_advances:
  "low_pfn < ALIGN (low_pfn + pageblock_nr_pages K) (pageblock_nr_pages K) - 1 + 1"
proof -
  have "low_pfn + pageblock_nr_pages K
          \<le> ALIGN (low_pfn + pageblock_nr_pages K) (pageblock_nr_pages K)"
    by (rule le_ALIGN) (rule pageblock_nr_pages_pos)
  then show ?thesis using pageblock_nr_pages_pos [of K] by linarith
qed

text \<open>
  The scan loop of \<open>isolate_migratepages_range\<close>. The loop state is the cursor
  \<open>low_pfn\<close>, \<open>last_pageblock_nr\<close>, the \<open>locked\<close> flag, the control block and the machine
  state. The body of the loop either leaves the loop (\<open>break\<close>) or goes on to the
  increment of the cursor (\<open>continue\<close>, or the end of the body). The isolation mode is
  \<open>ISOLATE_ASYNC_MIGRATE\<close> exactly for an asynchronous caller, and the two counters kept
  for the trace point are left out. The masks with powers of two are written as remainders
  and quotients.
\<close>

datatype 's flow = Next (state_of: 's) | is_Break: Break (state_of: 's)

type_synonym 'w scan_state = "pfn \<times> nat \<times> bool \<times> compact_control \<times> 'w"

definition isolate_migratepages_range_body ::
  "'w kernel \<Rightarrow> zone \<Rightarrow> 'w scan_state \<Rightarrow> 'w scan_state flow" where
  "isolate_migratepages_range_body K z s =
     (case s of (low_pfn, last_pageblock_nr, locked, cc, w) \<Rightarrow>
        (let release = ((low_pfn + 1) mod SWAP_CLUSTER_MAX K = 0);
             w1 = (if release then spin_unlock_irqrestore K (Lru_lock (zone_id z)) w else w);
             chk = compact_checklock_irqsave K (Lru_lock (zone_id z))
                     (if release then False else locked) cc w1;
             locked2 = fst chk; cc2 = fst (snd chk); w2 = snd (snd chk);
             pageblock_nr = low_pfn div 2 ^ pageblock_order K
         in
         if \<not> locked2 then Break (low_pfn, last_pageblock_nr, locked2, cc2, w2)
         else if low_pfn mod MAX_ORDER_NR_PAGES K = 0 \<and> \<not> pfn_valid K w2 low_pfn then
           Next (low_pfn + (MAX_ORDER_NR_PAGES K - 1), last_pageblock_nr, locked2, cc2, w2)
         else if \<not> pfn_valid_within K w2 low_pfn then
           Next (low_pfn, last_pageblock_nr, locked2, cc2, w2)
         else if page_zone K w2 low_pfn \<noteq> zone_id z then
           Next (low_pfn, last_pageblock_nr, locked2, cc2, w2)
         else if PageBuddy K w2 low_pfn then
           Next (low_pfn, last_pageblock_nr, locked2, cc2, w2)
         else if \<not> sync cc2 \<and> last_pageblock_nr \<noteq> pageblock_nr
                 \<and> \<not> migrate_async_suitable (get_pageblock_migratetype K w2 low_pfn) then
           Next (ALIGN (low_pfn + pageblock_nr_pages K) (pageblock_nr_pages K) - 1,
                 pageblock_nr, locked2, cc2, w2)
         else if \<not> PageLRU K w2 low_pfn then
           Next (low_pfn, last_pageblock_nr, locked2, cc2, w2)
         else if PageTransHuge K w2 low_pfn then
           Next (low_pfn + (2 ^ compound_order K w2 low_pfn - 1), last_pageblock_nr,
                 locked2, cc2, w2)
         else
           (let iso = isolate_lru_page K low_pfn (\<not> sync cc2) w2 in
            if fst iso \<noteq> 0 then Next (low_pfn, last_pageblock_nr, locked2, cc2, snd iso)
            else
              (let w4 = del_page_from_lru_list K z low_pfn (snd iso);
                   cc3 = cc2\<lparr>migratepages := low_pfn # migratepages cc2,
                             nr_migratepages := nr_migratepages cc2 + 1\<rparr>
               in if nr_migratepages cc3 = of_nat (COMPACT_CLUSTER_MAX K) then
                    Break (low_pfn + 1, last_pageblock_nr, locked2, cc3, w4)
                  else Next (low_pfn, last_pageblock_nr, locked2, cc3, w4)))))"

lemma pow_skip_advances: "(low_pfn::nat) \<le> low_pfn + 2 ^ c - Suc 0"
proof -
  have "(1::nat) \<le> 2 ^ c" by simp
  then show ?thesis by linarith
qed

lemma isolate_migratepages_range_body_Next:
  "isolate_migratepages_range_body K z (low_pfn, l, lk, cc, w) = Next (low_pfn', l', lk', cc', w')
     \<Longrightarrow> low_pfn \<le> low_pfn'"
proof -
  assume a: "isolate_migratepages_range_body K z (low_pfn, l, lk, cc, w)
               = Next (low_pfn', l', lk', cc', w')"
  have "low_pfn \<le> ALIGN (low_pfn + pageblock_nr_pages K) (pageblock_nr_pages K) - Suc 0"
    using pageblock_skip_advances [of low_pfn K] by linarith
  with a show ?thesis
    by (auto simp: isolate_migratepages_range_body_def Let_def pow_skip_advances
          MAX_ORDER_NR_PAGES_def split: if_splits)
qed

function isolate_migratepages_range_loop ::
  "'w kernel \<Rightarrow> zone \<Rightarrow> pfn \<Rightarrow> 'w scan_state \<Rightarrow> 'w scan_state" where
  "isolate_migratepages_range_loop K z end_pfn s =
     (if fst s < end_pfn then
        (case isolate_migratepages_range_body K z s of
           Break s' \<Rightarrow> s'
         | Next s' \<Rightarrow> isolate_migratepages_range_loop K z end_pfn (fst s' + 1, snd s'))
      else s)"
  by pat_completeness auto
termination
proof (relation "measure (\<lambda>(K, z, end_pfn, s). end_pfn - fst s)", goal_cases)
  case 1
  show ?case by simp
next
  case (2 K z end_pfn s s')
  obtain low_pfn l lk cc w where s: "s = (low_pfn, l, lk, cc, w)" by (cases s) auto
  obtain low_pfn' l' lk' cc' w' where s': "s' = (low_pfn', l', lk', cc', w')" by (cases s') auto
  from 2(2) have "isolate_migratepages_range_body K z (low_pfn, l, lk, cc, w)
                    = Next (low_pfn', l', lk', cc', w')"
    by (simp add: s s')
  then have "low_pfn \<le> low_pfn'"
    by (rule isolate_migratepages_range_body_Next)
  then show ?case using 2(1) by (simp add: s s')
qed

text \<open>
  \<open>isolate_migratepages_range\<close>: the backpressure wait, then the scan. The wait has no
  bound of its own, so the function is partial: \<open>None\<close> stands for a call that never
  returns.
\<close>

partial_function (option) isolate_migratepages_range ::
  "'w kernel \<Rightarrow> zone \<Rightarrow> compact_control \<Rightarrow> pfn \<Rightarrow> pfn \<Rightarrow> 'w
     \<Rightarrow> (pfn \<times> compact_control \<times> 'w) option" where
  "isolate_migratepages_range K z cc low_pfn end_pfn w =
     (if too_many_isolated K z w then
        (if \<not> sync cc then Some (0, cc, w)
         else if fatal_signal_pending K (congestion_wait K w) then
           Some (0, cc, congestion_wait K w)
         else isolate_migratepages_range K z cc low_pfn end_pfn (congestion_wait K w))
      else
        (case isolate_migratepages_range_loop K z end_pfn
                (low_pfn, 0, True, cc,
                 spin_lock_irqsave K (Lru_lock (zone_id z)) (cond_resched K w)) of
           (low_pfn', last_pageblock_nr, locked, cc', w1) \<Rightarrow>
             (let w2 = acct_isolated K z locked cc' w1;
                  w3 = (if locked then spin_unlock_irqrestore K (Lru_lock (zone_id z)) w2 else w2)
              in Some (low_pfn', cc', w3))))"

section \<open>Free-page sweep\<close>

definition suitable_migration_target :: "'w kernel \<Rightarrow> 'w \<Rightarrow> pfn \<Rightarrow> bool" where
  "suitable_migration_target K w p =
     (let mt = get_pageblock_migratetype K w p in
      if mt = MIGRATE_ISOLATE \<or> mt = MIGRATE_RESERVE then False
      else if PageBuddy K w p \<and> page_order K w p \<ge> pageblock_order K then True
      else if migrate_async_suitable mt then True
      else False)"

text \<open>
  The loop of \<open>isolate_freepages\<close>: the state is the sweep cursor \<open>pfn\<close>, \<open>high_pfn\<close>,
  the local \<open>nr_freepages\<close>, the control block (its free list and contention flag) and
  the machine state.
\<close>

function isolate_freepages_loop ::
  "'w kernel \<Rightarrow> zone \<Rightarrow> pfn \<Rightarrow> pfn \<Rightarrow> pfn \<Rightarrow> pfn \<Rightarrow> ulong \<Rightarrow> compact_control \<Rightarrow> 'w
     \<Rightarrow> pfn \<times> ulong \<times> compact_control \<times> 'w" where
  "isolate_freepages_loop K z low_pfn zone_end_pfn pfn high_pfn nr cc w =
     (if pfn > low_pfn \<and> nr_migratepages cc > nr then
        (if \<not> pfn_valid K w pfn then
           isolate_freepages_loop K z low_pfn zone_end_pfn (pfn - pageblock_nr_pages K) high_pfn nr cc w
         else if page_zone K w pfn \<noteq> zone_id z then
           isolate_freepages_loop K z low_pfn zone_end_pfn (pfn - pageblock_nr_pages K) high_pfn nr cc w
         else if \<not> suitable_migration_target K w pfn then
           isolate_freepages_loop K z low_pfn zone_end_pfn (pfn - pageblock_nr_pages K) high_pfn nr cc w
         else
           (let chk = compact_trylock_irqsave K (Zone_lock (zone_id z)) cc w;
                cc1 = fst (snd chk); w1 = snd (snd chk)
            in if \<not> fst chk then (high_pfn, nr, cc1, w1)
               else
                 (let r = (if suitable_migration_target K w1 pfn then
                             isolate_freepages_block K pfn
                               (min (pfn + pageblock_nr_pages K) zone_end_pfn) (freepages cc1) False w1
                           else (0, freepages cc1, w1));
                      isolated = fst r;
                      w2 = spin_unlock_irqrestore K (Zone_lock (zone_id z)) (snd (snd r))
                  in isolate_freepages_loop K z low_pfn zone_end_pfn (pfn - pageblock_nr_pages K)
                       (if isolated \<noteq> 0 then max high_pfn pfn else high_pfn)
                       (nr + of_nat isolated) (cc1\<lparr>freepages := fst (snd r)\<rparr>) w2)))
      else (high_pfn, nr, cc, w))"
  by pat_completeness auto
termination
  by (relation "measure (\<lambda>(K, z, low_pfn, ze, pfn, h, nr, cc, w). pfn)")
     (auto simp: pageblock_nr_pages_def)

definition isolate_freepages :: "'w kernel \<Rightarrow> zone \<Rightarrow> compact_control \<Rightarrow> 'w \<Rightarrow> compact_control \<times> 'w" where
  "isolate_freepages K z cc w =
     (let pfn = free_pfn cc;
          low_pfn = migrate_pfn cc + pageblock_nr_pages K;
          high_pfn = min low_pfn pfn;
          zone_end_pfn = zone_start_pfn z + spanned_pages z
      in case isolate_freepages_loop K z low_pfn zone_end_pfn pfn high_pfn (nr_freepages cc) cc w of
           (high_pfn', nr, cc1, w1) \<Rightarrow>
             (cc1\<lparr>free_pfn := high_pfn', nr_freepages := nr\<rparr>, map_pages K (freepages cc1) w1))"

text \<open>
  \<open>compaction_alloc\<close>, the callback handed to the migration engine: \<open>None\<close> is the NULL
  page.
\<close>

definition compaction_alloc ::
  "'w kernel \<Rightarrow> compact_control \<times> 'w \<Rightarrow> pfn option \<times> compact_control \<times> 'w" where
  "compaction_alloc K s =
     (let r = (if freepages (fst s) = [] then isolate_freepages K (zone (fst s)) (fst s) (snd s)
               else s)
      in case freepages (fst r) of
           [] \<Rightarrow> (None, fst r, snd r)
         | freepage # rest \<Rightarrow>
             (Some freepage,
              (fst r)\<lparr>freepages := rest, nr_freepages := nr_freepages (fst r) - 1\<rparr>, snd r))"

definition update_nr_listpages :: "compact_control \<Rightarrow> compact_control" where
  "update_nr_listpages cc =
     cc\<lparr>nr_migratepages := of_nat (length (migratepages cc)),
        nr_freepages := of_nat (length (freepages cc))\<rparr>"

section \<open>Migrate-page sweep\<close>

datatype isolate_migrate_t = ISOLATE_ABORT | ISOLATE_NONE | ISOLATE_SUCCESS

definition isolate_migratepages ::
  "'w kernel \<Rightarrow> zone \<Rightarrow> compact_control \<Rightarrow> 'w \<Rightarrow> (isolate_migrate_t \<times> compact_control \<times> 'w) option" where
  "isolate_migratepages K z cc w =
     (let low_pfn = max (migrate_pfn cc) (zone_start_pfn z);
          end_pfn = ALIGN (low_pfn + pageblock_nr_pages K) (pageblock_nr_pages K)
      in if end_pfn > free_pfn cc \<or> \<not> pfn_valid K w low_pfn then
           Some (ISOLATE_NONE, cc\<lparr>migrate_pfn := end_pfn\<rparr>, w)
         else
           (case isolate_migratepages_range K z cc low_pfn end_pfn w of
              None \<Rightarrow> None
            | Some (low_pfn', cc1, w1) \<Rightarrow>
                if low_pfn' = 0 then Some (ISOLATE_ABORT, cc1, w1)
                else Some (ISOLATE_SUCCESS, cc1\<lparr>migrate_pfn := low_pfn'\<rparr>, w1)))"

section \<open>Termination predicate and suitability gate\<close>

text \<open>
  The loop at the end of \<open>compact_finished\<close>, over the \<open>unsigned int\<close> loop variable.
  The free area examined is the one at index \<open>cc->order\<close>, as in the source.
\<close>

function compact_finished_scan ::
  "'w kernel \<Rightarrow> zone \<Rightarrow> compact_control \<Rightarrow> 'w \<Rightarrow> nat \<Rightarrow> int" where
  "compact_finished_scan K z cc w ord =
     (if ord < MAX_ORDER K then
        (if free_list K w z (nat (order cc)) (migratetype cc) \<noteq> [] then COMPACT_PARTIAL
         else if order cc \<ge> int (pageblock_order K) \<and> nr_free K w z (nat (order cc)) \<noteq> 0 then
           COMPACT_PARTIAL
         else compact_finished_scan K z cc w (ord + 1))
      else COMPACT_CONTINUE)"
  by pat_completeness auto
termination
  by (relation "measure (\<lambda>(K, z, cc, w, ord). MAX_ORDER K - ord)") auto

definition compact_finished :: "'w kernel \<Rightarrow> zone \<Rightarrow> compact_control \<Rightarrow> 'w \<Rightarrow> int" where
  "compact_finished K z cc w =
     (if fatal_signal_pending K w then COMPACT_PARTIAL
      else if free_pfn cc \<le> migrate_pfn cc then COMPACT_COMPLETE
      else if order cc = - 1 then COMPACT_CONTINUE
      else
        (let watermark = low_wmark_pages K w z + 2 ^ nat (order cc) in
         if \<not> zone_watermark_ok K w z (order cc) watermark 0 0 then COMPACT_CONTINUE
         else
           (case page cc of
              Some slot \<Rightarrow> (if slot \<noteq> None then COMPACT_PARTIAL else COMPACT_CONTINUE)
            | None \<Rightarrow> compact_finished_scan K z cc w (nat (order cc mod 2 ^ 32)))))"

definition compaction_suitable :: "'w kernel \<Rightarrow> zone \<Rightarrow> int \<Rightarrow> 'w \<Rightarrow> int" where
  "compaction_suitable K z ord w =
     (if ord = - 1 then COMPACT_CONTINUE
      else
        (let watermark = low_wmark_pages K w z + 2 * 2 ^ nat ord in
         if \<not> zone_watermark_ok K w z 0 watermark 0 0 then COMPACT_SKIPPED
         else
           (let fragindex = fragmentation_index K w z ord in
            if fragindex \<ge> 0 \<and> fragindex \<le> sysctl_extfrag_threshold K w then COMPACT_SKIPPED
            else if fragindex = - 1000 \<and> zone_watermark_ok K w z ord watermark 0 0 then
              COMPACT_PARTIAL
            else COMPACT_CONTINUE)))"

section \<open>Capture path\<close>

text \<open>
  The two nested loops of \<open>compact_capture_page\<close>. The inner loop returns whether the
  function has returned (lock refused, or a page captured).
\<close>

function compact_capture_orders ::
  "'w kernel \<Rightarrow> int \<Rightarrow> int \<Rightarrow> compact_control \<Rightarrow> 'w \<Rightarrow> bool \<times> compact_control \<times> 'w" where
  "compact_capture_orders K mtype ord cc w =
     (if ord < int (MAX_ORDER K) then
        (if free_list K w (zone cc) (nat ord) mtype = [] then
           compact_capture_orders K mtype (ord + 1) cc w
         else
           (let chk = compact_trylock_irqsave K (Zone_lock (zone_id (zone cc))) cc w;
                cc1 = fst (snd chk); w1 = snd (snd chk)
            in if \<not> fst chk then (True, cc1, w1)
               else
                 (case free_list K w1 (zone cc1) (nat ord) mtype of
                    [] \<Rightarrow>
                      compact_capture_orders K mtype (ord + 1) cc1
                        (spin_unlock_irqrestore K (Zone_lock (zone_id (zone cc))) w1)
                  | p # rest \<Rightarrow>
                      (let cap = capture_free_page K p (order cc1) mtype w1 in
                       if fst cap then
                         (True, cc1\<lparr>page := Some (Some p)\<rparr>,
                          spin_unlock_irqrestore K (Zone_lock (zone_id (zone cc))) (snd cap))
                       else
                         compact_capture_orders K mtype (ord + 1) cc1
                           (spin_unlock_irqrestore K (Zone_lock (zone_id (zone cc))) (snd cap))))))
      else (False, cc, w))"
  by pat_completeness auto
termination
  by (relation "measure (\<lambda>(K, mtype, ord, cc, w). nat (int (MAX_ORDER K) - ord))") auto

function compact_capture_mtypes ::
  "'w kernel \<Rightarrow> int \<Rightarrow> int \<Rightarrow> compact_control \<Rightarrow> 'w \<Rightarrow> compact_control \<times> 'w" where
  "compact_capture_mtypes K mtype mtype_high cc w =
     (if mtype < mtype_high then
        (let r = compact_capture_orders K mtype (order cc) cc w in
         if fst r then snd r
         else compact_capture_mtypes K (mtype + 1) mtype_high (fst (snd r)) (snd (snd r)))
      else (cc, w))"
  by pat_completeness auto
termination
  by (relation "measure (\<lambda>(K, mtype, mtype_high, cc, w). nat (mtype_high - mtype))") auto

definition compact_capture_page :: "'w kernel \<Rightarrow> compact_control \<Rightarrow> 'w \<Rightarrow> compact_control \<times> 'w" where
  "compact_capture_page K cc w =
     (if page cc \<noteq> Some None then (cc, w)
      else if migratetype cc = MIGRATE_MOVABLE then
        compact_capture_mtypes K 0 MIGRATE_PCPTYPES cc w
      else compact_capture_mtypes K (migratetype cc) (migratetype cc + 1) cc w)"

section \<open>Zone compaction driver\<close>

text \<open>
  The main loop of \<open>compact_zone\<close>, up to the label \<open>out\<close>. Nothing bounds the number of
  iterations (an aborted scan may return the cursor it was given), so the loop is a
  partial function. \<open>putback_lru_pages\<close> takes every page off the list it is given, so
  the migrate list is empty after it.
\<close>

partial_function (option) compact_zone_loop ::
  "'w kernel \<Rightarrow> zone \<Rightarrow> compact_control \<Rightarrow> 'w \<Rightarrow> (int \<times> compact_control \<times> 'w) option" where
  "compact_zone_loop K z cc w =
     (if compact_finished K z cc w \<noteq> COMPACT_CONTINUE then Some (compact_finished K z cc w, cc, w)
      else
        (case isolate_migratepages K z cc w of
           None \<Rightarrow> None
         | Some (ISOLATE_ABORT, cc1, w1) \<Rightarrow> Some (COMPACT_PARTIAL, cc1, w1)
         | Some (ISOLATE_NONE, cc1, w1) \<Rightarrow> compact_zone_loop K z cc1 w1
         | Some (ISOLATE_SUCCESS, cc1, w1) \<Rightarrow>
             (let nr_migrate = nr_migratepages cc1;
                  m = migrate_pages K (compaction_alloc K) False
                        (if sync cc1 then MIGRATE_SYNC_LIGHT else MIGRATE_ASYNC) (cc1, w1);
                  err = fst m;
                  cc2 = update_nr_listpages (fst (snd m));
                  nr_remaining = nr_migratepages cc2;
                  w3 = count_vm_events K COMPACTBLOCKS 1 (snd (snd m));
                  w4 = count_vm_events K COMPACTPAGES (nr_migrate - nr_remaining) w3;
                  w5 = (if nr_remaining \<noteq> 0 then count_vm_events K COMPACTPAGEFAILED nr_remaining w4
                        else w4);
                  w6 = (if err \<noteq> 0 then putback_lru_pages K (migratepages cc2) w5 else w5);
                  cc3 = (if err \<noteq> 0 then cc2\<lparr>migratepages := [], nr_migratepages := 0\<rparr> else cc2)
              in if err \<noteq> 0 \<and> err = - ENOMEM then Some (COMPACT_PARTIAL, cc3, w6)
                 else compact_zone_loop K z (fst (compact_capture_page K cc3 w6))
                        (snd (compact_capture_page K cc3 w6)))))"

definition compact_zone ::
  "'w kernel \<Rightarrow> zone \<Rightarrow> compact_control \<Rightarrow> 'w \<Rightarrow> (int \<times> compact_control \<times> 'w) option" where
  "compact_zone K z cc w =
     (let ret = compaction_suitable K z (order cc) w in
      if ret = COMPACT_PARTIAL \<or> ret = COMPACT_SKIPPED then Some (ret, cc, w)
      else
        (let cc1 = cc\<lparr>migrate_pfn := zone_start_pfn z\<rparr>;
             cc2 = cc1\<lparr>free_pfn := migrate_pfn cc1 + spanned_pages z\<rparr>;
             cc3 = cc2\<lparr>free_pfn := free_pfn cc2 - free_pfn cc2 mod pageblock_nr_pages K\<rparr>
         in case compact_zone_loop K z cc3 (migrate_prep_local K w) of
              None \<Rightarrow> None
            | Some (ret', cc4, w1) \<Rightarrow>
                (case release_freepages K (freepages cc4) w1 of
                   (count, rest, w2) \<Rightarrow>
                     Some (ret', cc4\<lparr>freepages := rest,
                                     nr_freepages := nr_freepages cc4 - of_nat count\<rparr>, w2))))"

text \<open>
  \<open>compact_zone_order\<close> builds the control block; the fields it does not name are zero.
  The values behind the two back-references after the run are returned with the status.
\<close>

definition compact_zone_order ::
  "'w kernel \<Rightarrow> zone \<Rightarrow> int \<Rightarrow> gfp_t \<Rightarrow> bool \<Rightarrow> bool option \<Rightarrow> pfn option option \<Rightarrow> 'w
     \<Rightarrow> (int \<times> bool option \<times> pfn option option \<times> 'w) option" where
  "compact_zone_order K z ord gfp_mask is_sync contended_ref page_ref w =
     (case compact_zone K z
             \<lparr>freepages = [], migratepages = [], nr_freepages = 0, nr_migratepages = 0,
              free_pfn = 0, migrate_pfn = 0, sync = is_sync, order = ord,
              migratetype = allocflags_to_migratetype K gfp_mask, zone = z,
              contended = contended_ref, page = page_ref\<rparr> w of
        None \<Rightarrow> None
      | Some (ret, cc, w1) \<Rightarrow> Some (ret, contended cc, page cc, w1))"

section \<open>Zone-list entry point\<close>

fun try_to_compact_zones ::
  "'w kernel \<Rightarrow> zone list \<Rightarrow> int \<Rightarrow> gfp_t \<Rightarrow> bool \<Rightarrow> int \<Rightarrow> bool option \<Rightarrow> pfn option option \<Rightarrow> 'w
     \<Rightarrow> (int \<times> bool option \<times> pfn option option \<times> 'w) option" where
  "try_to_compact_zones K [] ord gfp_mask is_sync rc contended_ref page_ref w =
     Some (rc, contended_ref, page_ref, w)"
| "try_to_compact_zones K (z # zs) ord gfp_mask is_sync rc contended_ref page_ref w =
     (case compact_zone_order K z ord gfp_mask is_sync contended_ref page_ref w of
        None \<Rightarrow> None
      | Some (status, contended_ref', page_ref', w1) \<Rightarrow>
          if zone_watermark_ok K w1 z ord (low_wmark_pages K w1 z) 0 0 then
            Some (max status rc, contended_ref', page_ref', w1)
          else try_to_compact_zones K zs ord gfp_mask is_sync (max status rc)
                 contended_ref' page_ref' w1)"

definition try_to_compact_pages ::
  "'w kernel \<Rightarrow> zone list \<Rightarrow> int \<Rightarrow> gfp_t \<Rightarrow> nat list option \<Rightarrow> bool \<Rightarrow> bool option
     \<Rightarrow> pfn option option \<Rightarrow> 'w \<Rightarrow> (int \<times> bool option \<times> pfn option option \<times> 'w) option" where
  "try_to_compact_pages K zonelist ord gfp_mask nodemask is_sync contended_ref page_ref w =
     (let high_zoneidx = gfp_zone K gfp_mask;
          may_enter_fs = gfp_mask AND GFP_FS K;
          may_perform_io = gfp_mask AND GFP_IO K;
          rc = COMPACT_SKIPPED
      in if ord = 0 \<or> may_enter_fs = 0 \<or> may_perform_io = 0 then
           Some (rc, contended_ref, page_ref, w)
         else
           try_to_compact_zones K (zonelist_zones K zonelist high_zoneidx nodemask) ord gfp_mask
             is_sync rc contended_ref page_ref (count_vm_events K COMPACTSTALL 1 w))"

section \<open>Node and multi-node drivers\<close>

text \<open>
  \<open>__compact_pgdat\<close> walks \<open>pgdat->node_zones\<close>; the zones, which it may update, are
  returned in the same order. \<open>cc->zone\<close> is a pointer, so the control block sees the zone
  as the deferral test left it.
\<close>

fun compact_pgdat_zones ::
  "'w kernel \<Rightarrow> zone list \<Rightarrow> compact_control \<Rightarrow> 'w \<Rightarrow> (zone list \<times> compact_control \<times> 'w) option" where
  "compact_pgdat_zones K [] cc w = Some ([], cc, w)"
| "compact_pgdat_zones K (z # zs) cc w =
     (if \<not> populated_zone K z then
        (case compact_pgdat_zones K zs cc w of
           None \<Rightarrow> None
         | Some (zs', cc', w') \<Rightarrow> Some (z # zs', cc', w'))
      else
        (let d = (if order cc = - 1 then (False, z) else compaction_deferred K z (order cc));
             z1 = snd d;
             cc1 = cc\<lparr>nr_freepages := 0, nr_migratepages := 0, zone := z1,
                      freepages := [], migratepages := []\<rparr>
         in case (if \<not> fst d then compact_zone K z1 cc1 w else Some (0, cc1, w)) of
              None \<Rightarrow> None
            | Some (ret, cc2, w2) \<Rightarrow>
                (let z2 = (if order cc2 > 0 then
                             (let ok = zone_watermark_ok K w2 z1 (order cc2)
                                         (low_wmark_pages K w2 z1) 0 0
                              in if ok \<and> order cc2 \<ge> compact_order_failed z1 then
                                   z1\<lparr>compact_order_failed := order cc2 + 1\<rparr>
                                 else if \<not> ok \<and> sync cc2 then defer_compaction K z1 (order cc2)
                                 else z1)
                           else z1)
                 in case compact_pgdat_zones K zs cc2 w2 of
                      None \<Rightarrow> None
                    | Some (zs', cc', w') \<Rightarrow> Some (z2 # zs', cc', w'))))"

record pglist_data =
  node_zones :: "zone list"

definition compact_pgdat_cc ::
  "'w kernel \<Rightarrow> pglist_data \<Rightarrow> compact_control \<Rightarrow> 'w \<Rightarrow> (int \<times> pglist_data \<times> compact_control \<times> 'w) option" where
  "compact_pgdat_cc K pgdat cc w =
     (case compact_pgdat_zones K (node_zones pgdat) cc w of
        None \<Rightarrow> None
      | Some (zs, cc', w') \<Rightarrow> Some (0, pgdat\<lparr>node_zones := zs\<rparr>, cc', w'))"

text \<open>
  The control blocks of \<open>compact_pgdat\<close> and \<open>compact_node\<close> name three fields; the others
  are zero (NULL pointers, empty values).
\<close>

definition zero_compact_control :: compact_control where
  "zero_compact_control =
     \<lparr>freepages = [], migratepages = [], nr_freepages = 0, nr_migratepages = 0,
      free_pfn = 0, migrate_pfn = 0, sync = False, order = 0, migratetype = 0,
      zone = \<lparr>zone_id = 0, zone_start_pfn = 0, spanned_pages = 0, compact_order_failed = 0,
              compact_considered = 0, compact_defer_shift = 0\<rparr>,
      contended = None, page = None\<rparr>"

definition compact_pgdat ::
  "'w kernel \<Rightarrow> pglist_data \<Rightarrow> int \<Rightarrow> 'w \<Rightarrow> (int \<times> pglist_data \<times> 'w) option" where
  "compact_pgdat K pgdat ord w =
     (case compact_pgdat_cc K pgdat
             (zero_compact_control\<lparr>order := ord, sync := False, page := None\<rparr>) w of
        None \<Rightarrow> None
      | Some (r, pgdat', cc', w') \<Rightarrow> Some (r, pgdat', w'))"

text \<open>\<open>NODE_DATA\<close> is the table of node descriptors, indexed by node id.\<close>

definition compact_node ::
  "'w kernel \<Rightarrow> nat \<Rightarrow> bool \<Rightarrow> (nat \<Rightarrow> pglist_data) \<Rightarrow> 'w
     \<Rightarrow> (int \<times> (nat \<Rightarrow> pglist_data) \<times> 'w) option" where
  "compact_node K nid is_sync NODE_DATA w =
     (case compact_pgdat_cc K (NODE_DATA nid)
             (zero_compact_control\<lparr>order := - 1, sync := is_sync, page := None\<rparr>) w of
        None \<Rightarrow> None
      | Some (r, pgdat', cc', w') \<Rightarrow> Some (r, NODE_DATA(nid := pgdat'), w'))"

fun compact_nodes_loop ::
  "'w kernel \<Rightarrow> bool \<Rightarrow> nat list \<Rightarrow> (nat \<Rightarrow> pglist_data) \<Rightarrow> 'w \<Rightarrow> ((nat \<Rightarrow> pglist_data) \<times> 'w) option" where
  "compact_nodes_loop K is_sync [] NODE_DATA w = Some (NODE_DATA, w)"
| "compact_nodes_loop K is_sync (nid # nids) NODE_DATA w =
     (case compact_node K nid is_sync NODE_DATA w of
        None \<Rightarrow> None
      | Some (r, NODE_DATA', w') \<Rightarrow> compact_nodes_loop K is_sync nids NODE_DATA' w')"

definition compact_nodes ::
  "'w kernel \<Rightarrow> bool \<Rightarrow> (nat \<Rightarrow> pglist_data) \<Rightarrow> 'w \<Rightarrow> (int \<times> (nat \<Rightarrow> pglist_data) \<times> 'w) option" where
  "compact_nodes K is_sync NODE_DATA w =
     (case compact_nodes_loop K is_sync (online_nodes K (lru_add_drain_all K w)) NODE_DATA
             (lru_add_drain_all K w) of
        None \<Rightarrow> None
      | Some (NODE_DATA', w') \<Rightarrow> Some (COMPACT_COMPLETE, NODE_DATA', w'))"

definition sysctl_compaction_handler ::
  "'w kernel \<Rightarrow> int \<Rightarrow> (nat \<Rightarrow> pglist_data) \<Rightarrow> 'w \<Rightarrow> (int \<times> (nat \<Rightarrow> pglist_data) \<times> 'w) option" where
  "sysctl_compaction_handler K write NODE_DATA w =
     (if write \<noteq> 0 then compact_nodes K True NODE_DATA w else Some (0, NODE_DATA, w))"

declare isolate_freepages_block_loop.simps [simp del]
declare isolate_freepages_range_loop.simps [simp del]
declare isolate_migratepages_range_loop.simps [simp del]
declare isolate_freepages_loop.simps [simp del]
declare compact_finished_scan.simps [simp del]
declare compact_capture_orders.simps [simp del]
declare compact_capture_mtypes.simps [simp del]

section \<open>A reference machine\<close>

text \<open>
  A small concrete machine with one zone, on which the model is run on explicit inputs:
  frames are valid or not, free pages are recorded with their order and on per-order,
  per-type free lists, in-use pages may be on the LRU. The lock is busy or not and a fatal
  signal is pending or not for the whole run. The migration engine moves every page of
  the list to a destination obtained from the callback and stops with \<open>-ENOMEM\<close> when
  the callback has none.
\<close>

record machine =
  m_valid :: "pfn \<Rightarrow> bool"
  m_zone :: "pfn \<Rightarrow> nat"
  m_buddy :: "pfn \<Rightarrow> nat option"
  m_lru :: "pfn \<Rightarrow> bool"
  m_file :: "pfn \<Rightarrow> bool"
  m_blocktype :: "pfn \<Rightarrow> int"
  m_free_list :: "nat \<Rightarrow> int \<Rightarrow> pfn list"
  m_stat :: "zone_stat_item \<Rightarrow> nat"
  m_wmark_low :: nat
  m_watermark_ok :: "int \<Rightarrow> nat \<Rightarrow> bool"
  m_fragindex :: "int \<Rightarrow> int"
  m_busy :: bool
  m_signal :: bool
  m_released :: "pfn list"

definition machine_split_free_page :: "pfn \<Rightarrow> machine \<Rightarrow> nat \<times> machine" where
  "machine_split_free_page p w =
     (case m_buddy w p of
        None \<Rightarrow> (0, w)
      | Some k \<Rightarrow>
          (2 ^ k,
           w\<lparr>m_buddy := (m_buddy w)(p := None),
             m_free_list := (m_free_list w)
               (k := (m_free_list w k)
                  (m_blocktype w p := remove1 p (m_free_list w k (m_blocktype w p))))\<rparr>))"

definition machine_free_page :: "pfn \<Rightarrow> machine \<Rightarrow> machine" where
  "machine_free_page p w =
     w\<lparr>m_buddy := (m_buddy w)(p := Some 0),
       m_free_list := (m_free_list w)
         (0 := (m_free_list w 0)(m_blocktype w p := p # m_free_list w 0 (m_blocktype w p))),
       m_released := p # m_released w\<rparr>"

definition machine_capture_free_page :: "pfn \<Rightarrow> int \<Rightarrow> int \<Rightarrow> machine \<Rightarrow> bool \<times> machine" where
  "machine_capture_free_page p ord mt w =
     (case m_buddy w p of
        None \<Rightarrow> (False, w)
      | Some k \<Rightarrow>
          (True,
           w\<lparr>m_buddy := (m_buddy w)(p := None),
             m_free_list := (m_free_list w)
               (k := (m_free_list w k)(mt := remove1 p (m_free_list w k mt)))\<rparr>))"

definition machine_mod_zone_page_state :: "zone \<Rightarrow> zone_stat_item \<Rightarrow> nat \<Rightarrow> machine \<Rightarrow> machine" where
  "machine_mod_zone_page_state z item n w = w\<lparr>m_stat := (m_stat w)(item := m_stat w item + n)\<rparr>"

definition machine_nr_free :: "machine \<Rightarrow> zone \<Rightarrow> nat \<Rightarrow> nat" where
  "machine_nr_free w z k =
     length (m_free_list w k 0) + length (m_free_list w k 1) + length (m_free_list w k 2)
     + length (m_free_list w k 3) + length (m_free_list w k 4) + length (m_free_list w k 5)"

definition machine_congestion_wait :: "machine \<Rightarrow> machine" where
  "machine_congestion_wait w =
     w\<lparr>m_stat := (m_stat w)(NR_ISOLATED_ANON := 0, NR_ISOLATED_FILE := 0)\<rparr>"

fun machine_migrate ::
  "(compact_control \<times> machine \<Rightarrow> pfn option \<times> compact_control \<times> machine) \<Rightarrow> pfn list
     \<Rightarrow> compact_control \<times> machine \<Rightarrow> int \<times> compact_control \<times> machine" where
  "machine_migrate get_new_page [] s = (0, (fst s)\<lparr>migratepages := []\<rparr>, snd s)"
| "machine_migrate get_new_page (p # ps) s =
     (case get_new_page s of
        (None, cc, w) \<Rightarrow> (- ENOMEM, cc\<lparr>migratepages := p # ps\<rparr>, w)
      | (Some d, cc, w) \<Rightarrow>
          machine_migrate get_new_page ps
            (cc, w\<lparr>m_lru := (m_lru w)(d := True),
                   m_buddy := (m_buddy w)(p := Some 0),
                   m_free_list := (m_free_list w)
                     (0 := (m_free_list w 0)
                        (m_blocktype w p := p # m_free_list w 0 (m_blocktype w p)))\<rparr>))"

definition machine_kernel :: "nat \<Rightarrow> nat \<Rightarrow> machine kernel" where
  "machine_kernel max_order pb_order =
     \<lparr>MAX_ORDER = max_order, pageblock_order = pb_order, SWAP_CLUSTER_MAX = 32,
      GFP_FS = 0x80, GFP_IO = 0x40,
      need_resched = m_busy,
      spin_is_contended = (\<lambda>l w. False),
      spin_lock_irqsave = (\<lambda>l w. w),
      spin_unlock_irqrestore = (\<lambda>l w. w),
      cond_resched = (\<lambda>w. w),
      fatal_signal_pending = m_signal,
      congestion_wait = machine_congestion_wait,
      pfn_valid = m_valid,
      pfn_valid_within = m_valid,
      page_zone = m_zone,
      PageBuddy = (\<lambda>w p. m_buddy w p \<noteq> None),
      page_order = (\<lambda>w p. case m_buddy w p of None \<Rightarrow> 0 | Some k \<Rightarrow> k),
      PageLRU = m_lru,
      PageTransHuge = (\<lambda>w p. False),
      compound_order = (\<lambda>w p. 0),
      page_is_file_cache = m_file,
      get_pageblock_migratetype = m_blocktype,
      split_free_page = machine_split_free_page,
      free_page = machine_free_page,
      arch_alloc_page = (\<lambda>p w. w),
      kernel_map_pages = (\<lambda>p w. w),
      capture_free_page = machine_capture_free_page,
      free_list = (\<lambda>w z k mt. m_free_list w k mt),
      nr_free = machine_nr_free,
      zone_page_state = (\<lambda>w z item. m_stat w item),
      mod_zone_page_state = machine_mod_zone_page_state,
      mod_zone_page_state_irqs_off = machine_mod_zone_page_state,
      isolate_lru_page = (\<lambda>p async w. (if m_lru w p then 0 else - 22, w)),
      del_page_from_lru_list = (\<lambda>z p w. w\<lparr>m_lru := (m_lru w)(p := False)\<rparr>),
      putback_lru_pages = (\<lambda>ps w. w\<lparr>m_lru := fold (\<lambda>p f. f(p := True)) ps (m_lru w)\<rparr>),
      low_wmark_pages = (\<lambda>w z. m_wmark_low w),
      zone_watermark_ok = (\<lambda>w z ord mark classzone_idx alloc_flags. m_watermark_ok w ord mark),
      fragmentation_index = (\<lambda>w z ord. m_fragindex w ord),
      sysctl_extfrag_threshold = (\<lambda>w. 500),
      migrate_prep_local = (\<lambda>w. w),
      lru_add_drain_all = (\<lambda>w. w),
      count_vm_events = (\<lambda>item n w. w),
      allocflags_to_migratetype = (\<lambda>gfp_mask. MIGRATE_MOVABLE),
      gfp_zone = (\<lambda>gfp_mask. 0),
      zonelist_zones = (\<lambda>zonelist high_zoneidx nodemask. zonelist),
      populated_zone = (\<lambda>z. spanned_pages z \<noteq> 0),
      compaction_deferred = (\<lambda>z ord. (False, z)),
      defer_compaction = (\<lambda>z ord. z\<lparr>compact_considered := 0,
                                      compact_defer_shift := compact_defer_shift z + 1\<rparr>),
      online_nodes = (\<lambda>w. [0]),
      migrate_pages = (\<lambda>get_new_page offlining mode s.
                         machine_migrate get_new_page (migratepages (fst s)) s)\<rparr>"

text \<open>An empty machine: no valid frame, nothing free, nothing on the LRU, idle, no signal.\<close>

definition empty_machine :: machine where
  "empty_machine =
     \<lparr>m_valid = (\<lambda>p. False), m_zone = (\<lambda>p. 0), m_buddy = (\<lambda>p. None), m_lru = (\<lambda>p. False),
      m_file = (\<lambda>p. False), m_blocktype = (\<lambda>p. MIGRATE_MOVABLE),
      m_free_list = (\<lambda>k mt. []), m_stat = (\<lambda>item. 0), m_wmark_low = 0,
      m_watermark_ok = (\<lambda>ord mark. False), m_fragindex = (\<lambda>ord. 0),
      m_busy = False, m_signal = False, m_released = []\<rparr>"

text \<open>
  What a scan of migration sources leaves alone in the control block: every field except
  the migrate list, its counter and the contention flag.
\<close>

definition scan_frame :: "compact_control \<Rightarrow> compact_control \<Rightarrow> bool" where
  "scan_frame cc cc' =
     (freepages cc' = freepages cc \<and> nr_freepages cc' = nr_freepages cc
      \<and> free_pfn cc' = free_pfn cc \<and> migrate_pfn cc' = migrate_pfn cc
      \<and> sync cc' = sync cc \<and> order cc' = order cc \<and> migratetype cc' = migratetype cc
      \<and> zone cc' = zone cc \<and> page cc' = page cc)"

definition scan_cc :: "'w scan_state \<Rightarrow> compact_control" where
  "scan_cc s = fst (snd (snd (snd s)))"

text \<open>
  The request a control block carries (order, mode, migrate type, zone), and its two
  private lists with their counters.
\<close>

definition same_request :: "compact_control \<Rightarrow> compact_control \<Rightarrow> bool" where
  "same_request cc cc' =
     (order cc' = order cc \<and> sync cc' = sync cc \<and> migratetype cc' = migratetype cc
      \<and> zone cc' = zone cc)"

definition same_lists :: "compact_control \<Rightarrow> compact_control \<Rightarrow> bool" where
  "same_lists cc cc' =
     (freepages cc' = freepages cc \<and> nr_freepages cc' = nr_freepages cc
      \<and> migratepages cc' = migratepages cc \<and> nr_migratepages cc' = nr_migratepages cc)"

text \<open>
  What the driver relies on from the migration engine, called with \<open>compaction_alloc\<close>
  as in \<open>compact_zone\<close>: a return value of 0 means that no page is left on the migrate
  list, and the engine does not change the order of the request.
\<close>

definition migrate_pages_contract :: "'w kernel \<Rightarrow> bool" where
  "migrate_pages_contract K =
     (\<forall>offlining mode cc w.
        (fst (migrate_pages K (compaction_alloc K) offlining mode (cc, w)) = 0
           \<longrightarrow> migratepages (fst (snd (migrate_pages K (compaction_alloc K) offlining mode (cc, w)))) = [])
        \<and> order (fst (snd (migrate_pages K (compaction_alloc K) offlining mode (cc, w)))) = order cc)"

text \<open>
  The state of the private lists at the head of the main loop of \<open>compact_zone\<close>: no
  migration source is held, and the free-page counter agrees with the free list.
\<close>

definition loop_inv :: "compact_control \<Rightarrow> bool" where
  "loop_inv cc = (migratepages cc = [] \<and> nr_migratepages cc = 0
                  \<and> nr_freepages cc = of_nat (length (freepages cc)))"


text \<open>
  The per-zone statuses of a call of \<open>try_to_compact_pages\<close>, in the words of its
  description: the status of the zone run of each zone of the filtered zonelist in turn, up
  to and including the first zone whose low watermark is satisfied for the order after its
  run.
\<close>

fun per_zone_statuses ::
  "'w kernel \<Rightarrow> zone list \<Rightarrow> int \<Rightarrow> gfp_t \<Rightarrow> bool \<Rightarrow> bool option \<Rightarrow> pfn option option \<Rightarrow> 'w
     \<Rightarrow> int list option" where
  "per_zone_statuses K [] ord gfp_mask is_sync contended_ref page_ref w = Some []"
| "per_zone_statuses K (z # zs) ord gfp_mask is_sync contended_ref page_ref w =
     (case compact_zone_order K z ord gfp_mask is_sync contended_ref page_ref w of
        None \<Rightarrow> None
      | Some (status, contended_ref', page_ref', w1) \<Rightarrow>
          if zone_watermark_ok K w1 z ord (low_wmark_pages K w1 z) 0 0 then Some [status]
          else map_option ((#) status)
                 (per_zone_statuses K zs ord gfp_mask is_sync contended_ref' page_ref' w1))"

text \<open>What is observed of a zone run: its status, the two cursors, the lists and the counters.\<close>

definition run_summary ::
  "(int \<times> compact_control \<times> 'w) option
     \<Rightarrow> (int \<times> pfn \<times> pfn \<times> pfn list \<times> pfn list \<times> ulong \<times> ulong) option" where
  "run_summary r =
     map_option (\<lambda>(ret, cc, w). (ret, migrate_pfn cc, free_pfn cc, freepages cc, migratepages cc,
                                nr_freepages cc, nr_migratepages cc)) r"

section \<open>Concrete inputs\<close>

text \<open>
  A zone of two pageblocks of 1024 frames, in the configuration \<open>MAX_ORDER = 11\<close>,
  \<open>pageblock_order = 10\<close>.
\<close>

definition zone0 :: zone where
  "zone0 = \<lparr>zone_id = 0, zone_start_pfn = 0, spanned_pages = 2048, compact_order_failed = 0,
              compact_considered = 0, compact_defer_shift = 0\<rparr>"

definition c1_machine :: machine where
  "c1_machine = empty_machine\<lparr>m_valid := (\<lambda>p. p < 2048), m_buddy := (\<lambda>p. None)(4 := Some 2),
      m_free_list := (\<lambda>k mt. [])(2 := (\<lambda>mt. [])(MIGRATE_MOVABLE := [4])),
      m_watermark_ok := (\<lambda>ord mark. True)\<rparr>"

definition c1_cc :: compact_control where
  "c1_cc = zero_compact_control\<lparr>order := 1, migratetype := MIGRATE_MOVABLE, free_pfn := 2048,
      migrate_pfn := 0, zone := zone0\<rparr>"

text \<open>
  A machine on which 5 anonymous pages are isolated and the LRU lists are empty, and the
  same machine with a fatal signal pending.
\<close>

definition crowded_machine :: machine where
  "crowded_machine = empty_machine\<lparr>m_valid := (\<lambda>p. p < 2048),
      m_stat := (\<lambda>item. 0)(NR_ISOLATED_ANON := 5)\<rparr>"

definition async_cc :: compact_control where
  "async_cc = zero_compact_control\<lparr>order := 1, migratetype := MIGRATE_MOVABLE,
      free_pfn := 2048, zone := zone0, contended := Some False\<rparr>"

definition sync_cc :: compact_control where
  "sync_cc = async_cc\<lparr>sync := True\<rparr>"

text \<open>
  A machine whose scheduler asks for the processor at every lock check, a zone that does
  not start on a pageblock boundary with a machine whose valid frames are those of that
  zone, and the control block of a greedy synchronous run on it.
\<close>

definition busy_machine :: machine where
  "busy_machine = empty_machine\<lparr>m_valid := (\<lambda>p. p < 2048), m_busy := True\<rparr>"




text \<open>
  In the configuration \<open>MAX_ORDER = 3\<close>, \<open>pageblock_order = 2\<close>: a zone of two
  pageblocks of 4 frames with one page on the LRU and no free page, the control block of a
  greedy synchronous run on it, and a node table whose nodes hold that zone.
\<close>

definition tiny_zone :: zone where
  "tiny_zone = \<lparr>zone_id = 0, zone_start_pfn = 0, spanned_pages = 8,
      compact_order_failed = 0, compact_considered = 0, compact_defer_shift = 0\<rparr>"

definition tiny_machine :: machine where
  "tiny_machine = empty_machine\<lparr>m_valid := (\<lambda>p. p < 8), m_lru := (\<lambda>p. p = 1)\<rparr>"

definition tiny_cc :: compact_control where
  "tiny_cc = zero_compact_control\<lparr>order := - 1, sync := True, zone := tiny_zone\<rparr>"

definition tiny_nodes :: "nat \<Rightarrow> pglist_data" where
  "tiny_nodes nid = \<lparr>node_zones = [tiny_zone]\<rparr>"






definition holes_machine :: machine where
  "holes_machine = empty_machine\<lparr>m_valid := (\<lambda>p. p < 2048 \<and> p \<noteq> 3),
      m_buddy := (\<lambda>p. None)(0 := Some 1, 4 := Some 2),
      m_free_list := (\<lambda>k mt. [])(1 := (\<lambda>mt. [])(MIGRATE_MOVABLE := [0]),
                                2 := (\<lambda>mt. [])(MIGRATE_MOVABLE := [4]))\<rparr>"

definition free_machine :: machine where
  "free_machine = empty_machine\<lparr>m_valid := (\<lambda>p. p < 2048),
      m_buddy := (\<lambda>p. None)(0 := Some 2, 4 := Some 2),
      m_free_list := (\<lambda>k mt. [])(2 := (\<lambda>mt. [])(MIGRATE_MOVABLE := [0, 4]))\<rparr>"

definition satisfied_machine :: machine where
  "satisfied_machine = empty_machine\<lparr>m_valid := (\<lambda>p. p < 2048),
      m_watermark_ok := (\<lambda>ord mark. True), m_fragindex := (\<lambda>ord. - 1000)\<rparr>"

text \<open>
  The reference kernel with an allocator that refuses every split, as \<open>split_free_page\<close>
  does for a zone below its watermark.
\<close>

definition refusing_kernel :: "machine kernel" where
  "refusing_kernel = (machine_kernel 11 10)\<lparr>split_free_page := (\<lambda>p w. (0, w))\<rparr>"

text \<open>
  The busy machine with a fatal signal pending, and the machine with 32 pages on the LRU with
  a fatal signal pending.
\<close>

definition interrupted_machine :: machine where
  "interrupted_machine = busy_machine\<lparr>m_signal := True\<rparr>"


text \<open>
  The machine with free pages of order 2 at frames 0 and 4, where frames 0 to 3 belong to
  zone 0 and the frames from 4 on to zone 1.
\<close>

definition split_machine :: machine where
  "split_machine = free_machine\<lparr>m_zone := (\<lambda>p. if p < 4 then 0 else 1)\<rparr>"

text \<open>
  The reference kernel of the small configuration with a congestion wait that changes
  nothing, and the small machine with 5 anonymous pages isolated and empty LRU counters: no
  wait brings the number of isolated pages down.
\<close>

definition stuck_kernel :: "machine kernel" where
  "stuck_kernel = (machine_kernel 3 2)\<lparr>congestion_wait := (\<lambda>w. w)\<rparr>"

definition jammed_machine :: machine where
  "jammed_machine = tiny_machine\<lparr>m_stat := (\<lambda>item. 0)(NR_ISOLATED_ANON := 5)\<rparr>"

text \<open>
  The same machine with the watermark test satisfied for order 0 only and a fragmentation
  index of 600: a run for a higher order is suitable and not finished.
\<close>

definition starved_machine :: machine where
  "starved_machine = jammed_machine\<lparr>m_watermark_ok := (\<lambda>ord mark. ord = 0),
      m_fragindex := (\<lambda>ord. 600)\<rparr>"

text \<open>
  The reference kernel with a watermark test that only the zone with id 1 passes, and that
  zone.
\<close>

definition picky_kernel :: "machine kernel" where
  "picky_kernel = (machine_kernel 11 10)
     \<lparr>zone_watermark_ok := (\<lambda>w z ord mark classzone_idx alloc_flags. zone_id z = 1)\<rparr>"

definition zone1 :: zone where
  "zone1 = zone0\<lparr>zone_id := 1\<rparr>"

section \<open>Properties\<close>

subsection \<open>The reference machine\<close>

lemma machine_kernel_simps [simp]:
  "MAX_ORDER (machine_kernel mo pbo) = mo"
  "pageblock_order (machine_kernel mo pbo) = pbo"
  "SWAP_CLUSTER_MAX (machine_kernel mo pbo) = 32"
  "GFP_FS (machine_kernel mo pbo) = 0x80"
  "GFP_IO (machine_kernel mo pbo) = 0x40"
  "need_resched (machine_kernel mo pbo) = m_busy"
  "spin_is_contended (machine_kernel mo pbo) l w = False"
  "spin_lock_irqsave (machine_kernel mo pbo) l w = w"
  "spin_unlock_irqrestore (machine_kernel mo pbo) l w = w"
  "cond_resched (machine_kernel mo pbo) w = w"
  "fatal_signal_pending (machine_kernel mo pbo) = m_signal"
  "congestion_wait (machine_kernel mo pbo) = machine_congestion_wait"
  "pfn_valid (machine_kernel mo pbo) = m_valid"
  "pfn_valid_within (machine_kernel mo pbo) = m_valid"
  "page_zone (machine_kernel mo pbo) = m_zone"
  "PageBuddy (machine_kernel mo pbo) w p = (m_buddy w p \<noteq> None)"
  "page_order (machine_kernel mo pbo) w p = (case m_buddy w p of None \<Rightarrow> 0 | Some k \<Rightarrow> k)"
  "PageLRU (machine_kernel mo pbo) = m_lru"
  "PageTransHuge (machine_kernel mo pbo) w p = False"
  "compound_order (machine_kernel mo pbo) w p = 0"
  "page_is_file_cache (machine_kernel mo pbo) = m_file"
  "get_pageblock_migratetype (machine_kernel mo pbo) = m_blocktype"
  "split_free_page (machine_kernel mo pbo) = machine_split_free_page"
  "free_page (machine_kernel mo pbo) = machine_free_page"
  "arch_alloc_page (machine_kernel mo pbo) p w = w"
  "kernel_map_pages (machine_kernel mo pbo) p w = w"
  "capture_free_page (machine_kernel mo pbo) = machine_capture_free_page"
  "free_list (machine_kernel mo pbo) w z k mt = m_free_list w k mt"
  "nr_free (machine_kernel mo pbo) = machine_nr_free"
  "zone_page_state (machine_kernel mo pbo) w z item = m_stat w item"
  "mod_zone_page_state (machine_kernel mo pbo) = machine_mod_zone_page_state"
  "mod_zone_page_state_irqs_off (machine_kernel mo pbo) = machine_mod_zone_page_state"
  "isolate_lru_page (machine_kernel mo pbo) p async w = (if m_lru w p then 0 else - 22, w)"
  "del_page_from_lru_list (machine_kernel mo pbo) z p w = w\<lparr>m_lru := (m_lru w)(p := False)\<rparr>"
  "putback_lru_pages (machine_kernel mo pbo) ps w = w\<lparr>m_lru := fold (\<lambda>p f. f(p := True)) ps (m_lru w)\<rparr>"
  "low_wmark_pages (machine_kernel mo pbo) w z = m_wmark_low w"
  "zone_watermark_ok (machine_kernel mo pbo) w z ord mark ci af = m_watermark_ok w ord mark"
  "fragmentation_index (machine_kernel mo pbo) w z ord = m_fragindex w ord"
  "sysctl_extfrag_threshold (machine_kernel mo pbo) w = 500"
  "migrate_prep_local (machine_kernel mo pbo) w = w"
  "lru_add_drain_all (machine_kernel mo pbo) w = w"
  "count_vm_events (machine_kernel mo pbo) ev n w = w"
  "allocflags_to_migratetype (machine_kernel mo pbo) g = MIGRATE_MOVABLE"
  "gfp_zone (machine_kernel mo pbo) g = 0"
  "zonelist_zones (machine_kernel mo pbo) zl h nm = zl"
  "populated_zone (machine_kernel mo pbo) z = (spanned_pages z \<noteq> 0)"
  "compaction_deferred (machine_kernel mo pbo) z ord = (False, z)"
  "online_nodes (machine_kernel mo pbo) w = [0]"
  "migrate_pages (machine_kernel mo pbo) cb off mode s = machine_migrate cb (migratepages (fst s)) s"
  by (simp_all add: machine_kernel_def)

subsection \<open>Termination predicate\<close>

lemma compact_finished_scan_eq:
  "compact_finished_scan K z cc w ord =
     (if ord < MAX_ORDER K \<and>
         (free_list K w z (nat (order cc)) (migratetype cc) \<noteq> []
          \<or> (order cc \<ge> int (pageblock_order K) \<and> nr_free K w z (nat (order cc)) \<noteq> 0))
      then COMPACT_PARTIAL else COMPACT_CONTINUE)"
proof (induction K z cc w ord rule: compact_finished_scan.induct)
  case (1 K z cc w ord)
  show ?case
    using 1 by (subst compact_finished_scan.simps) auto
qed

text \<open>
  C1. The claim: with no capture slot and the watermark check passed,
  \<open>compact_finished\<close> reports PARTIAL as soon as, at some order from \<open>cc->order\<close> up to
  \<open>MAX_ORDER\<close>, the free list of the caller's migrate type is non-empty. The code looks
  at the free area of index \<open>cc->order\<close> in every iteration. On the input below the
  request is of order 1 for a movable page, no capture slot is given, the watermark check
  passes, the free area of order 1 is empty and the free list of movable pages of order 2
  holds the page of frame 4: the code answers CONTINUE.
\<close>

theorem compact_finished_ignores_higher_orders:
  "page c1_cc = None
   \<and> \<not> fatal_signal_pending (machine_kernel 11 10) c1_machine
   \<and> migrate_pfn c1_cc < free_pfn c1_cc
   \<and> zone_watermark_ok (machine_kernel 11 10) c1_machine zone0 (order c1_cc)
        (low_wmark_pages (machine_kernel 11 10) c1_machine zone0 + 2 ^ nat (order c1_cc)) 0 0
   \<and> order c1_cc \<le> 2 \<and> 2 < int (MAX_ORDER (machine_kernel 11 10))
   \<and> free_list (machine_kernel 11 10) c1_machine zone0 2 (migratetype c1_cc) = [4]
   \<and> compact_finished (machine_kernel 11 10) zone0 c1_cc c1_machine = COMPACT_CONTINUE"
  by (simp add: c1_cc_def c1_machine_def zone0_def zero_compact_control_def empty_machine_def
        compact_finished_def compact_finished_scan_eq migratetype_defs compact_status_defs
        machine_nr_free_def)

subsection \<open>Migrate-page range isolator\<close>

lemma scan_frame_refl [simp]: "scan_frame cc cc"
  by (simp add: scan_frame_def)

lemma scan_frame_trans: "scan_frame a b \<Longrightarrow> scan_frame b c \<Longrightarrow> scan_frame a c"
  by (simp add: scan_frame_def)

lemma checklock_cc:
  "fst (snd (compact_checklock_irqsave K l lk cc w)) = cc
   \<or> fst (snd (compact_checklock_irqsave K l lk cc w)) = cc\<lparr>contended := Some True\<rparr>"
  by (simp add: compact_checklock_irqsave_def Let_def)

lemma checklock_fields [simp]:
  "freepages (fst (snd (compact_checklock_irqsave K l lk cc w))) = freepages cc"
  "nr_freepages (fst (snd (compact_checklock_irqsave K l lk cc w))) = nr_freepages cc"
  "free_pfn (fst (snd (compact_checklock_irqsave K l lk cc w))) = free_pfn cc"
  "migrate_pfn (fst (snd (compact_checklock_irqsave K l lk cc w))) = migrate_pfn cc"
  "sync (fst (snd (compact_checklock_irqsave K l lk cc w))) = sync cc"
  "order (fst (snd (compact_checklock_irqsave K l lk cc w))) = order cc"
  "migratetype (fst (snd (compact_checklock_irqsave K l lk cc w))) = migratetype cc"
  "zone (fst (snd (compact_checklock_irqsave K l lk cc w))) = zone cc"
  "page (fst (snd (compact_checklock_irqsave K l lk cc w))) = page cc"
  "migratepages (fst (snd (compact_checklock_irqsave K l lk cc w))) = migratepages cc"
  "nr_migratepages (fst (snd (compact_checklock_irqsave K l lk cc w))) = nr_migratepages cc"
  using checklock_cc [of K l lk cc w] by auto

lemma body_unfold:
  assumes "compact_checklock_irqsave K (Lru_lock (zone_id z))
             (if (lo + 1) mod SWAP_CLUSTER_MAX K = 0 then False else lk) cc
             (if (lo + 1) mod SWAP_CLUSTER_MAX K = 0 then spin_unlock_irqrestore K (Lru_lock (zone_id z)) w else w)
           = (lk2, cc2, w2)"
  shows "isolate_migratepages_range_body K z (lo, l, lk, cc, w) =
         (if \<not> lk2 then Break (lo, l, lk2, cc2, w2)
         else if lo mod MAX_ORDER_NR_PAGES K = 0 \<and> \<not> pfn_valid K w2 lo then
           Next (lo + (MAX_ORDER_NR_PAGES K - 1), l, lk2, cc2, w2)
         else if \<not> pfn_valid_within K w2 lo then Next (lo, l, lk2, cc2, w2)
         else if page_zone K w2 lo \<noteq> zone_id z then Next (lo, l, lk2, cc2, w2)
         else if PageBuddy K w2 lo then Next (lo, l, lk2, cc2, w2)
         else if \<not> sync cc2 \<and> l \<noteq> lo div 2 ^ pageblock_order K
                 \<and> \<not> migrate_async_suitable (get_pageblock_migratetype K w2 lo) then
           Next (ALIGN (lo + pageblock_nr_pages K) (pageblock_nr_pages K) - 1,
                 lo div 2 ^ pageblock_order K, lk2, cc2, w2)
         else if \<not> PageLRU K w2 lo then Next (lo, l, lk2, cc2, w2)
         else if PageTransHuge K w2 lo then
           Next (lo + (2 ^ compound_order K w2 lo - 1), l, lk2, cc2, w2)
         else if fst (isolate_lru_page K lo (\<not> sync cc2) w2) \<noteq> 0 then
              Next (lo, l, lk2, cc2, snd (isolate_lru_page K lo (\<not> sync cc2) w2))
         else if nr_migratepages cc2 + 1 = of_nat (COMPACT_CLUSTER_MAX K) then
              Break (lo + 1, l, lk2, cc2\<lparr>migratepages := lo # migratepages cc2,
                             nr_migratepages := nr_migratepages cc2 + 1\<rparr>,
                     del_page_from_lru_list K z lo (snd (isolate_lru_page K lo (\<not> sync cc2) w2)))
         else Next (lo, l, lk2, cc2\<lparr>migratepages := lo # migratepages cc2,
                             nr_migratepages := nr_migratepages cc2 + 1\<rparr>,
                     del_page_from_lru_list K z lo (snd (isolate_lru_page K lo (\<not> sync cc2) w2))))"
  unfolding isolate_migratepages_range_body_def Let_def prod.case assms fst_conv snd_conv
  by simp

lemma checklock_result:
  assumes "compact_checklock_irqsave K l lk cc w = (lk2, cc2, w2)"
  shows "scan_frame cc cc2" "migratepages cc2 = migratepages cc"
        "nr_migratepages cc2 = nr_migratepages cc"
proof -
  have e: "cc2 = fst (snd (compact_checklock_irqsave K l lk cc w))" by (simp add: assms)
  show "scan_frame cc cc2" "migratepages cc2 = migratepages cc"
        "nr_migratepages cc2 = nr_migratepages cc"
    unfolding e scan_frame_def by simp_all
qed

lemma body_frame:
  "scan_frame cc (fst (snd (snd (snd (state_of (isolate_migratepages_range_body K z (lo, l, lk, cc, w)))))))"
proof -
  obtain lk2 cc2 w2 where chk: "compact_checklock_irqsave K (Lru_lock (zone_id z))
             (if (lo + 1) mod SWAP_CLUSTER_MAX K = 0 then False else lk) cc
             (if (lo + 1) mod SWAP_CLUSTER_MAX K = 0 then spin_unlock_irqrestore K (Lru_lock (zone_id z)) w else w)
           = (lk2, cc2, w2)"
    using prod_cases3 by blast
  have "scan_frame cc cc2" by (rule checklock_result(1) [OF chk])
  then show ?thesis
    by (simp add: body_unfold [OF chk] scan_frame_def)
qed

lemma body_mono:
  "lo \<le> fst (state_of (isolate_migratepages_range_body K z (lo, l, lk, cc, w)))"
proof -
  obtain lk2 cc2 w2 where chk: "compact_checklock_irqsave K (Lru_lock (zone_id z))
             (if (lo + 1) mod SWAP_CLUSTER_MAX K = 0 then False else lk) cc
             (if (lo + 1) mod SWAP_CLUSTER_MAX K = 0 then spin_unlock_irqrestore K (Lru_lock (zone_id z)) w else w)
           = (lk2, cc2, w2)"
    using prod_cases3 by blast
  have al: "lo \<le> ALIGN (lo + pageblock_nr_pages K) (pageblock_nr_pages K) - Suc 0"
    using pageblock_skip_advances [of lo K] by linarith
  show ?thesis
    by (simp add: body_unfold [OF chk] al pow_skip_advances)
qed

lemma body_break_same:
  assumes "isolate_migratepages_range_body K z (lo, l, lk, cc, w) = Break (lo', l', lk', cc', w')"
    and "lo' \<le> lo"
  shows "migratepages cc' = migratepages cc \<and> nr_migratepages cc' = nr_migratepages cc"
proof -
  obtain lk2 cc2 w2 where chk: "compact_checklock_irqsave K (Lru_lock (zone_id z))
             (if (lo + 1) mod SWAP_CLUSTER_MAX K = 0 then False else lk) cc
             (if (lo + 1) mod SWAP_CLUSTER_MAX K = 0 then spin_unlock_irqrestore K (Lru_lock (zone_id z)) w else w)
           = (lk2, cc2, w2)"
    using prod_cases3 by blast
  note r = checklock_result(2,3) [OF chk]
  from assms show ?thesis
    unfolding body_unfold [OF chk]
    using r by (auto split: if_splits)
qed

lemma scan_cc_simp [simp]: "scan_cc (lo, l, lk, cc, w) = cc"
  by (simp add: scan_cc_def)

lemma range_loop_props:
  "fst s \<le> fst (isolate_migratepages_range_loop K z e s)
   \<and> scan_frame (scan_cc s) (scan_cc (isolate_migratepages_range_loop K z e s))
   \<and> (fst (isolate_migratepages_range_loop K z e s) \<le> fst s \<longrightarrow>
        migratepages (scan_cc (isolate_migratepages_range_loop K z e s)) = migratepages (scan_cc s)
        \<and> nr_migratepages (scan_cc (isolate_migratepages_range_loop K z e s)) = nr_migratepages (scan_cc s))"
proof (induction K z e s rule: isolate_migratepages_range_loop.induct)
  case (1 K z end_pfn s)
  obtain lo l lk cc w where s: "s = (lo, l, lk, cc, w)" using prod_cases5 by blast
  show ?case
  proof (cases "fst s < end_pfn")
    case False
    then show ?thesis
      by (simp add: isolate_migratepages_range_loop.simps [of K z end_pfn s])
  next
    case True
    show ?thesis
    proof (cases "isolate_migratepages_range_body K z s")
      case (Break s')
      obtain lo' l' lk' cc' w' where s': "s' = (lo', l', lk', cc', w')" using prod_cases5 by blast
      have res: "isolate_migratepages_range_loop K z end_pfn s = s'"
        using True Break by (simp add: isolate_migratepages_range_loop.simps [of K z end_pfn s])
      have "lo \<le> lo'" using body_mono [of lo K z l lk cc w] Break s s' by simp
      moreover have "scan_frame cc cc'" using body_frame [of cc K z lo l lk w] Break s s' by simp
      moreover have "lo' \<le> lo \<longrightarrow> migratepages cc' = migratepages cc \<and> nr_migratepages cc' = nr_migratepages cc"
        using body_break_same [of K z lo l lk cc w lo' l' lk' cc' w'] Break s s' by simp
      ultimately show ?thesis unfolding res by (simp add: s s')
    next
      case (Next s')
      obtain a b c d e where s': "s' = (a, b, c, d, e)" using prod_cases5 by blast
      have res: "isolate_migratepages_range_loop K z end_pfn s
                  = isolate_migratepages_range_loop K z end_pfn (a + 1, b, c, d, e)"
        using True Next by (simp add: isolate_migratepages_range_loop.simps [of K z end_pfn s] s')
      have ih: "a + 1 \<le> fst (isolate_migratepages_range_loop K z end_pfn (a + 1, b, c, d, e))
                \<and> scan_frame d (scan_cc (isolate_migratepages_range_loop K z end_pfn (a + 1, b, c, d, e)))"
        using "1.IH" [OF True Next] by (simp add: s')
      have "lo \<le> a" using body_mono [of lo K z l lk cc w] Next s s' by simp
      moreover have "scan_frame cc d" using body_frame [of cc K z lo l lk w] Next s s' by simp
      ultimately show ?thesis using ih scan_frame_trans unfolding res by (auto simp: s)
    qed
  qed
qed

text \<open>
  C7. Backpressure of \<open>isolate_migratepages_range\<close>: the zone has too many isolated pages
  when the isolated count exceeds half the sum of the active and inactive LRU counts.
  While that holds, an asynchronous caller returns 0 at once with nothing changed; a
  synchronous caller waits on the congestion timer, returns 0 if a fatal signal is then
  pending, and otherwise starts again from the check.
\<close>

theorem isolate_migratepages_range_backpressure:
  "(too_many_isolated K z w \<longleftrightarrow>
      zone_page_state K w z NR_ISOLATED_FILE + zone_page_state K w z NR_ISOLATED_ANON
        > (zone_page_state K w z NR_INACTIVE_FILE + zone_page_state K w z NR_INACTIVE_ANON
           + (zone_page_state K w z NR_ACTIVE_FILE + zone_page_state K w z NR_ACTIVE_ANON)) div 2)
   \<and> (too_many_isolated K z w \<and> \<not> sync cc \<longrightarrow>
        isolate_migratepages_range K z cc low_pfn end_pfn w = Some (0, cc, w))
   \<and> (too_many_isolated K z w \<and> sync cc \<and> fatal_signal_pending K (congestion_wait K w) \<longrightarrow>
        isolate_migratepages_range K z cc low_pfn end_pfn w = Some (0, cc, congestion_wait K w))
   \<and> (too_many_isolated K z w \<and> sync cc \<and> \<not> fatal_signal_pending K (congestion_wait K w) \<longrightarrow>
        isolate_migratepages_range K z cc low_pfn end_pfn w
          = isolate_migratepages_range K z cc low_pfn end_pfn (congestion_wait K w))"
proof -
  have "too_many_isolated K z w \<longleftrightarrow>
      zone_page_state K w z NR_ISOLATED_FILE + zone_page_state K w z NR_ISOLATED_ANON
        > (zone_page_state K w z NR_INACTIVE_FILE + zone_page_state K w z NR_INACTIVE_ANON
           + (zone_page_state K w z NR_ACTIVE_FILE + zone_page_state K w z NR_ACTIVE_ANON)) div 2"
    by (simp add: too_many_isolated_def Let_def)
  moreover have "too_many_isolated K z w \<and> \<not> sync cc \<longrightarrow>
        isolate_migratepages_range K z cc low_pfn end_pfn w = Some (0, cc, w)"
    by (subst isolate_migratepages_range.simps) simp
  moreover have "too_many_isolated K z w \<and> sync cc \<and> fatal_signal_pending K (congestion_wait K w) \<longrightarrow>
        isolate_migratepages_range K z cc low_pfn end_pfn w = Some (0, cc, congestion_wait K w)"
    by (subst isolate_migratepages_range.simps) simp
  moreover have "too_many_isolated K z w \<and> sync cc \<and> \<not> fatal_signal_pending K (congestion_wait K w) \<longrightarrow>
        isolate_migratepages_range K z cc low_pfn end_pfn w
          = isolate_migratepages_range K z cc low_pfn end_pfn (congestion_wait K w)"
    by (subst isolate_migratepages_range.simps) simp
  ultimately show ?thesis by blast
qed

theorem isolate_migratepages_range_backpressure_witness:
  "too_many_isolated (machine_kernel 11 10) zone0 crowded_machine
   \<and> \<not> sync async_cc
   \<and> isolate_migratepages_range (machine_kernel 11 10) zone0 async_cc 0 1024 crowded_machine
       = Some (0, async_cc, crowded_machine)
   \<and> sync sync_cc
   \<and> fatal_signal_pending (machine_kernel 11 10)
        (congestion_wait (machine_kernel 11 10) (crowded_machine\<lparr>m_signal := True\<rparr>))
   \<and> isolate_migratepages_range (machine_kernel 11 10) zone0 sync_cc 0 1024
        (crowded_machine\<lparr>m_signal := True\<rparr>)
       = Some (0, sync_cc, machine_congestion_wait (crowded_machine\<lparr>m_signal := True\<rparr>))
   \<and> isolate_migratepages_range (machine_kernel 11 10) zone0 sync_cc 0 1024 crowded_machine
       = isolate_migratepages_range (machine_kernel 11 10) zone0 sync_cc 0 1024
           (machine_congestion_wait crowded_machine)"
  using isolate_migratepages_range_backpressure
          [of "machine_kernel 11 10" zone0 crowded_machine async_cc 0 1024]
        isolate_migratepages_range_backpressure
          [of "machine_kernel 11 10" zone0 "crowded_machine\<lparr>m_signal := True\<rparr>" sync_cc 0 1024]
        isolate_migratepages_range_backpressure
          [of "machine_kernel 11 10" zone0 crowded_machine sync_cc 0 1024]
  by (simp add: crowded_machine_def empty_machine_def async_cc_def sync_cc_def
        zero_compact_control_def machine_congestion_wait_def)

lemma range_unfold_scan:
  "\<not> too_many_isolated K z w \<Longrightarrow>
   isolate_migratepages_range K z cc lo hi w =
     (case isolate_migratepages_range_loop K z hi
                (lo, 0, True, cc, spin_lock_irqsave K (Lru_lock (zone_id z)) (cond_resched K w)) of
           (low_pfn', last_pageblock_nr, locked, cc', w1) \<Rightarrow>
             (let w2 = acct_isolated K z locked cc' w1;
                  w3 = (if locked then spin_unlock_irqrestore K (Lru_lock (zone_id z)) w2 else w2)
              in Some (low_pfn', cc', w3)))"
  by (subst isolate_migratepages_range.simps) simp

lemma range_scan_props:
  assumes "\<not> too_many_isolated K z w"
  shows "\<exists>r cc' w'. isolate_migratepages_range K z cc lo hi w = Some (r, cc', w') \<and> lo \<le> r
          \<and> scan_frame cc cc'
          \<and> (r \<le> lo \<longrightarrow> migratepages cc' = migratepages cc \<and> nr_migratepages cc' = nr_migratepages cc)"
proof -
  let ?s = "(lo, 0::nat, True, cc, spin_lock_irqsave K (Lru_lock (zone_id z)) (cond_resched K w))"
  obtain r l lk cc' w1 where res: "isolate_migratepages_range_loop K z hi ?s = (r, l, lk, cc', w1)"
    using prod_cases5 by blast
  from range_loop_props [of ?s K z hi] res
  have "lo \<le> r \<and> scan_frame cc cc'
          \<and> (r \<le> lo \<longrightarrow> migratepages cc' = migratepages cc \<and> nr_migratepages cc' = nr_migratepages cc)"
    by simp
  then show ?thesis
    by (simp add: range_unfold_scan [OF assms] res Let_def)
qed

lemma range_frame:
  assumes "isolate_migratepages_range K z cc lo hi w = Some y"
  shows "scan_frame cc (fst (snd y))
     \<and> (fst y = 0 \<longrightarrow> migratepages (fst (snd y)) = migratepages cc
                      \<and> nr_migratepages (fst (snd y)) = nr_migratepages cc)"
  using assms
proof (induction K z cc lo hi w y rule: isolate_migratepages_range.raw_induct [rotated 1, consumes 1])
  case (1 f K z cc lo hi w y)
  show ?case
  proof (cases "too_many_isolated K z w")
    case True
    show ?thesis
    proof (cases "\<not> sync cc \<or> fatal_signal_pending K (congestion_wait K w)")
      case True
      with 1(2) \<open>too_many_isolated K z w\<close> have "fst (snd y) = cc"
        by (auto split: if_splits)
      then show ?thesis by simp
    next
      case False
      with 1(2) \<open>too_many_isolated K z w\<close> have "f K z cc lo hi (congestion_wait K w) = Some y"
        by simp
      from 1(1) [OF this] show ?thesis .
    qed
  next
    case False
    let ?s = "(lo, 0::nat, True, cc, spin_lock_irqsave K (Lru_lock (zone_id z)) (cond_resched K w))"
    obtain r l lk cc' w1 where res: "isolate_migratepages_range_loop K z hi ?s = (r, l, lk, cc', w1)"
      using prod_cases5 by blast
    from range_loop_props [of ?s K z hi] res
    have p: "lo \<le> r \<and> scan_frame cc cc'
          \<and> (r \<le> lo \<longrightarrow> migratepages cc' = migratepages cc \<and> nr_migratepages cc' = nr_migratepages cc)"
      by simp
    from 1(2) False res have "fst y = r \<and> fst (snd y) = cc'"
      by (auto simp: Let_def)
    with p show ?thesis by auto
  qed
qed

subsection \<open>Abort of the migrate scan\<close>

lemma busy_scan:
  "\<not> sync async_cc
   \<and> \<not> too_many_isolated (machine_kernel 11 10) zone0 busy_machine
   \<and> \<not> fst (compact_checklock_irqsave (machine_kernel 11 10) (Lru_lock (zone_id zone0)) True
              async_cc busy_machine)
   \<and> isolate_migratepages_range (machine_kernel 11 10) zone0 async_cc 1024 2048 busy_machine
       = Some (1024, async_cc\<lparr>contended := Some True\<rparr>, busy_machine)
   \<and> isolate_migratepages (machine_kernel 11 10) zone0 (async_cc\<lparr>migrate_pfn := 1024\<rparr>) busy_machine
       = Some (ISOLATE_SUCCESS, async_cc\<lparr>migrate_pfn := 1024, contended := Some True\<rparr>, busy_machine)"
  by (simp add: isolate_migratepages_def isolate_migratepages_range.simps
        isolate_migratepages_range_loop.simps isolate_migratepages_range_body_def
        compact_checklock_irqsave_def too_many_isolated_def acct_isolated_def
        machine_mod_zone_page_state_def ALIGN_def pageblock_nr_pages_def
        busy_machine_def empty_machine_def async_cc_def zero_compact_control_def zone0_def Let_def)

lemma interrupted_scan:
  "sync sync_cc
   \<and> \<not> too_many_isolated (machine_kernel 11 10) zone0 interrupted_machine
   \<and> fatal_signal_pending (machine_kernel 11 10) interrupted_machine
   \<and> \<not> fst (compact_checklock_irqsave (machine_kernel 11 10) (Lru_lock (zone_id zone0)) True
              sync_cc interrupted_machine)
   \<and> isolate_migratepages_range (machine_kernel 11 10) zone0 sync_cc 1024 2048 interrupted_machine
       = Some (1024, sync_cc, interrupted_machine)
   \<and> isolate_migratepages (machine_kernel 11 10) zone0 (sync_cc\<lparr>migrate_pfn := 1024\<rparr>)
        interrupted_machine
       = Some (ISOLATE_SUCCESS, sync_cc\<lparr>migrate_pfn := 1024\<rparr>, interrupted_machine)"
  by (simp add: isolate_migratepages_def isolate_migratepages_range.simps
        isolate_migratepages_range_loop.simps isolate_migratepages_range_body_def
        compact_checklock_irqsave_def too_many_isolated_def acct_isolated_def
        machine_mod_zone_page_state_def ALIGN_def pageblock_nr_pages_def
        interrupted_machine_def busy_machine_def empty_machine_def sync_cc_def async_cc_def
        zero_compact_control_def zone0_def Let_def)

text \<open>
  What the scan returns, for every input: 0 when the backpressure check ends the call;
  when that check passes, a frame number at or above the \<open>low_pfn\<close> it was given, and
  that \<open>low_pfn\<close> itself when the first lock check is refused.
  \<open>isolate_migratepages\<close> maps a return of 0 to \<open>ISOLATE_ABORT\<close> and any other return
  \<open>r\<close> to \<open>ISOLATE_SUCCESS\<close> with \<open>migrate_pfn = r\<close>.
\<close>

lemma range_abort_value:
  "(too_many_isolated K z w \<and> (\<not> sync cc \<or> fatal_signal_pending K (congestion_wait K w)) \<longrightarrow>
      (\<exists>w'. isolate_migratepages_range K z cc lo hi w = Some (0, cc, w')))
   \<and> (\<not> too_many_isolated K z w \<longrightarrow>
        (\<exists>r cc' w'. isolate_migratepages_range K z cc lo hi w = Some (r, cc', w') \<and> lo \<le> r))
   \<and> (\<not> too_many_isolated K z w \<and> lo < hi
        \<and> \<not> fst (compact_checklock_irqsave K (Lru_lock (zone_id z))
                  (if (lo + 1) mod SWAP_CLUSTER_MAX K = 0 then False else True) cc
                  (if (lo + 1) mod SWAP_CLUSTER_MAX K = 0
                   then spin_unlock_irqrestore K (Lru_lock (zone_id z))
                          (spin_lock_irqsave K (Lru_lock (zone_id z)) (cond_resched K w))
                   else spin_lock_irqsave K (Lru_lock (zone_id z)) (cond_resched K w))) \<longrightarrow>
        (\<exists>cc' w'. isolate_migratepages_range K z cc lo hi w = Some (lo, cc', w')))
   \<and> (ALIGN (max (migrate_pfn cc) (zone_start_pfn z) + pageblock_nr_pages K) (pageblock_nr_pages K)
          \<le> free_pfn cc
        \<and> pfn_valid K w (max (migrate_pfn cc) (zone_start_pfn z))
        \<and> isolate_migratepages_range K z cc (max (migrate_pfn cc) (zone_start_pfn z))
             (ALIGN (max (migrate_pfn cc) (zone_start_pfn z) + pageblock_nr_pages K)
                (pageblock_nr_pages K)) w = Some (r, cc1, w1) \<longrightarrow>
        isolate_migratepages K z cc w
          = Some (if r = 0 then (ISOLATE_ABORT, cc1, w1)
                  else (ISOLATE_SUCCESS, cc1\<lparr>migrate_pfn := r\<rparr>, w1)))"
proof -
  have a: "too_many_isolated K z w \<and> (\<not> sync cc \<or> fatal_signal_pending K (congestion_wait K w)) \<longrightarrow>
      (\<exists>w'. isolate_migratepages_range K z cc lo hi w = Some (0, cc, w'))"
    by (subst isolate_migratepages_range.simps) simp
  have b: "\<not> too_many_isolated K z w \<longrightarrow>
        (\<exists>r cc' w'. isolate_migratepages_range K z cc lo hi w = Some (r, cc', w') \<and> lo \<le> r)"
    using range_scan_props [of K z w cc lo hi] by blast
  have c: "\<not> too_many_isolated K z w \<and> lo < hi
        \<and> \<not> fst (compact_checklock_irqsave K (Lru_lock (zone_id z))
                  (if (lo + 1) mod SWAP_CLUSTER_MAX K = 0 then False else True) cc
                  (if (lo + 1) mod SWAP_CLUSTER_MAX K = 0
                   then spin_unlock_irqrestore K (Lru_lock (zone_id z))
                          (spin_lock_irqsave K (Lru_lock (zone_id z)) (cond_resched K w))
                   else spin_lock_irqsave K (Lru_lock (zone_id z)) (cond_resched K w))) \<longrightarrow>
        (\<exists>cc' w'. isolate_migratepages_range K z cc lo hi w = Some (lo, cc', w'))"
  proof (intro impI, elim conjE)
    let ?w0 = "spin_lock_irqsave K (Lru_lock (zone_id z)) (cond_resched K w)"
    assume tm: "\<not> too_many_isolated K z w" and lt: "lo < hi"
      and ab: "\<not> fst (compact_checklock_irqsave K (Lru_lock (zone_id z))
                  (if (lo + 1) mod SWAP_CLUSTER_MAX K = 0 then False else True) cc
                  (if (lo + 1) mod SWAP_CLUSTER_MAX K = 0
                   then spin_unlock_irqrestore K (Lru_lock (zone_id z)) ?w0 else ?w0))"
    obtain lk2 cc2 w2 where chk: "compact_checklock_irqsave K (Lru_lock (zone_id z))
             (if (lo + 1) mod SWAP_CLUSTER_MAX K = 0 then False else True) cc
             (if (lo + 1) mod SWAP_CLUSTER_MAX K = 0
              then spin_unlock_irqrestore K (Lru_lock (zone_id z)) ?w0 else ?w0) = (lk2, cc2, w2)"
      using prod_cases3 by blast
    with ab have "\<not> lk2" by simp
    then have "isolate_migratepages_range_body K z (lo, 0, True, cc, ?w0) = Break (lo, 0, lk2, cc2, w2)"
      by (simp add: body_unfold [OF chk])
    then have "isolate_migratepages_range_loop K z hi (lo, 0, True, cc, ?w0) = (lo, 0, lk2, cc2, w2)"
      using lt by (simp add: isolate_migratepages_range_loop.simps [of K z hi "(lo, 0, True, cc, ?w0)"])
    then show "\<exists>cc' w'. isolate_migratepages_range K z cc lo hi w = Some (lo, cc', w')"
      by (simp add: range_unfold_scan [OF tm] Let_def)
  qed
  have d: "ALIGN (max (migrate_pfn cc) (zone_start_pfn z) + pageblock_nr_pages K) (pageblock_nr_pages K)
          \<le> free_pfn cc
        \<and> pfn_valid K w (max (migrate_pfn cc) (zone_start_pfn z))
        \<and> isolate_migratepages_range K z cc (max (migrate_pfn cc) (zone_start_pfn z))
             (ALIGN (max (migrate_pfn cc) (zone_start_pfn z) + pageblock_nr_pages K)
                (pageblock_nr_pages K)) w = Some (r, cc1, w1) \<longrightarrow>
        isolate_migratepages K z cc w
          = Some (if r = 0 then (ISOLATE_ABORT, cc1, w1)
                  else (ISOLATE_SUCCESS, cc1\<lparr>migrate_pfn := r\<rparr>, w1))"
    by (simp add: isolate_migratepages_def Let_def)
  from a b c d show ?thesis by blast
qed

text \<open>
  At every state of the scan loop inside the range, a refused lock ends the loop at the
  cursor of that state, with the pages isolated so far on the list.
\<close>

lemma scan_lock_abort:
  assumes "lo < hi"
    and "compact_checklock_irqsave K (Lru_lock (zone_id z))
           (if (lo + 1) mod SWAP_CLUSTER_MAX K = 0 then False else lk) cc
           (if (lo + 1) mod SWAP_CLUSTER_MAX K = 0
            then spin_unlock_irqrestore K (Lru_lock (zone_id z)) w else w)
         = (False, cc2, w2)"
  shows "isolate_migratepages_range_loop K z hi (lo, l, lk, cc, w) = (lo, l, False, cc2, w2)"
  using assms(1)
  by (simp add: isolate_migratepages_range_loop.simps [of K z hi "(lo, l, lk, cc, w)"]
        body_unfold [OF assms(2)])

text \<open>
  C3. \<open>compact_checklock_irqsave\<close> is documented to return false when "the lock is
  released and compaction should abort", and the claim has every such abort make
  \<open>isolate_migratepages_range\<close> return 0, which \<open>isolate_migratepages\<close> maps to
  \<open>ISOLATE_ABORT\<close>. The code does not do that: after a refused lock the scan loop is left
  by \<open>break\<close> and the function returns its cursor. An asynchronous scan of frames 1024 to
  2047 on a busy machine: the backpressure check passes, the first lock check refuses the
  lock, \<open>isolate_migratepages_range\<close> returns 1024 and \<open>isolate_migratepages\<close> answers
  \<open>ISOLATE_SUCCESS\<close>. A synchronous scan of the same frames with a fatal signal pending does
  the same.
\<close>

theorem lock_abort_returns_scan_cursor:
  "(\<not> sync async_cc
    \<and> \<not> too_many_isolated (machine_kernel 11 10) zone0 busy_machine
    \<and> \<not> fst (compact_checklock_irqsave (machine_kernel 11 10) (Lru_lock (zone_id zone0)) True
               async_cc busy_machine)
    \<and> isolate_migratepages_range (machine_kernel 11 10) zone0 async_cc 1024 2048 busy_machine
        = Some (1024, async_cc\<lparr>contended := Some True\<rparr>, busy_machine)
    \<and> isolate_migratepages (machine_kernel 11 10) zone0 (async_cc\<lparr>migrate_pfn := 1024\<rparr>) busy_machine
        = Some (ISOLATE_SUCCESS, async_cc\<lparr>migrate_pfn := 1024, contended := Some True\<rparr>, busy_machine))
   \<and> (sync sync_cc
    \<and> \<not> too_many_isolated (machine_kernel 11 10) zone0 interrupted_machine
    \<and> fatal_signal_pending (machine_kernel 11 10) interrupted_machine
    \<and> \<not> fst (compact_checklock_irqsave (machine_kernel 11 10) (Lru_lock (zone_id zone0)) True
               sync_cc interrupted_machine)
    \<and> isolate_migratepages_range (machine_kernel 11 10) zone0 sync_cc 1024 2048 interrupted_machine
        = Some (1024, sync_cc, interrupted_machine)
    \<and> isolate_migratepages (machine_kernel 11 10) zone0 (sync_cc\<lparr>migrate_pfn := 1024\<rparr>)
         interrupted_machine
        = Some (ISOLATE_SUCCESS, sync_cc\<lparr>migrate_pfn := 1024\<rparr>, interrupted_machine))"
  by (rule conjI [OF busy_scan interrupted_scan])

subsection \<open>The two cursors\<close>





subsection \<open>Free-page block isolator\<close>

lemma block_strict_bad:
  "blockpfn < end_pfn \<Longrightarrow>
   \<not> pfn_valid_within K w blockpfn \<or> \<not> PageBuddy K w blockpfn
     \<or> fst (split_free_page K blockpfn w) = 0 \<Longrightarrow>
   fst (isolate_freepages_block_loop K end_pfn True blockpfn tot freelist w) = 0"
  by (subst isolate_freepages_block_loop.simps) (auto simp: Let_def)

lemma block_lax_skip:
  "blockpfn < end_pfn \<Longrightarrow> \<not> pfn_valid_within K w blockpfn \<or> \<not> PageBuddy K w blockpfn \<Longrightarrow>
   isolate_freepages_block_loop K end_pfn False blockpfn tot freelist w
     = isolate_freepages_block_loop K end_pfn False (blockpfn + 1) tot freelist w"
  by (subst isolate_freepages_block_loop.simps) (auto simp: Let_def)

lemma block_lax_failed_split:
  "blockpfn < end_pfn \<Longrightarrow> pfn_valid_within K w blockpfn \<Longrightarrow> PageBuddy K w blockpfn \<Longrightarrow>
   fst (split_free_page K blockpfn w) = 0 \<Longrightarrow>
   isolate_freepages_block_loop K end_pfn False blockpfn tot freelist w
     = isolate_freepages_block_loop K end_pfn False (blockpfn + 1) tot freelist
         (snd (split_free_page K blockpfn w))"
  by (subst isolate_freepages_block_loop.simps) (simp add: Let_def)

lemma block_consume:
  "blockpfn < end_pfn \<Longrightarrow> pfn_valid_within K w blockpfn \<Longrightarrow> PageBuddy K w blockpfn \<Longrightarrow>
   fst (split_free_page K blockpfn w) \<noteq> 0 \<Longrightarrow>
   isolate_freepages_block_loop K end_pfn strict blockpfn tot freelist w
     = isolate_freepages_block_loop K end_pfn strict (blockpfn + fst (split_free_page K blockpfn w))
         (tot + fst (split_free_page K blockpfn w))
         (rev [blockpfn ..< blockpfn + fst (split_free_page K blockpfn w)] @ freelist)
         (snd (split_free_page K blockpfn w))"
  by (subst isolate_freepages_block_loop.simps) (simp add: Let_def)

lemma block_lax_total:
  "isolate_freepages_block_loop K end_pfn False blockpfn tot freelist w = (n, fl', w') \<Longrightarrow>
   length fl' + tot = length freelist + n"
proof (induction K end_pfn "False" blockpfn tot freelist w arbitrary: n fl' w'
         rule: isolate_freepages_block_loop.induct)
  case (1 K end_pfn blockpfn tot freelist w)
  show ?case
  proof (cases "blockpfn < end_pfn")
    case False
    with "1.prems" show ?thesis by (simp add: isolate_freepages_block_loop.simps)
  next
    case lt: True
    show ?thesis
    proof (cases "\<not> pfn_valid_within K w blockpfn \<or> \<not> PageBuddy K w blockpfn")
      case True
      then have "isolate_freepages_block_loop K end_pfn False (blockpfn + 1) tot freelist w = (n, fl', w')"
        using "1.prems" block_lax_skip [OF lt True] by simp
      with True lt "1.hyps"(1,2) show ?thesis by blast
    next
      case False
      then have v: "pfn_valid_within K w blockpfn" and b: "PageBuddy K w blockpfn" by auto
      let ?k = "fst (split_free_page K blockpfn w)"
      have e: "isolate_freepages_block_loop K end_pfn False
                 ((if ?k \<noteq> 0 then blockpfn + (?k - 1) else blockpfn) + 1) (tot + ?k)
                 (rev [blockpfn ..< blockpfn + ?k] @ freelist) (snd (split_free_page K blockpfn w))
               = (n, fl', w')"
        using "1.prems" lt v b
        by (simp add: isolate_freepages_block_loop.simps [of K end_pfn False blockpfn] Let_def)
      have "length fl' + (tot + ?k) = length (rev [blockpfn ..< blockpfn + ?k] @ freelist) + n"
        using "1.hyps"(3) [OF lt _ _ refl refl _ e] v b by simp
      then show ?thesis by simp
    qed
  qed
qed

lemma block_strict_cover:
  "isolate_freepages_block_loop K end_pfn True blockpfn tot freelist w = (n, fl', w') \<Longrightarrow>
   n \<noteq> 0 \<Longrightarrow>
   tot \<le> n \<and> end_pfn \<le> blockpfn + (n - tot) \<and> fl' = rev [blockpfn ..< blockpfn + (n - tot)] @ freelist"
proof (induction K end_pfn "True" blockpfn tot freelist w arbitrary: n fl' w'
         rule: isolate_freepages_block_loop.induct)
  case (1 K end_pfn blockpfn tot freelist w)
  show ?case
  proof (cases "blockpfn < end_pfn")
    case False
    with "1.prems" show ?thesis by (simp add: isolate_freepages_block_loop.simps)
  next
    case lt: True
    let ?k = "fst (split_free_page K blockpfn w)"
    have good: "pfn_valid_within K w blockpfn \<and> PageBuddy K w blockpfn \<and> ?k \<noteq> 0"
    proof (rule ccontr)
      assume "\<not> (pfn_valid_within K w blockpfn \<and> PageBuddy K w blockpfn \<and> ?k \<noteq> 0)"
      then have "\<not> pfn_valid_within K w blockpfn \<or> \<not> PageBuddy K w blockpfn \<or> ?k = 0"
        by blast
      from block_strict_bad [OF lt this, of tot freelist] "1.prems" show False by simp
    qed
    then have e: "isolate_freepages_block_loop K end_pfn True (blockpfn + ?k) (tot + ?k)
                 (rev [blockpfn ..< blockpfn + ?k] @ freelist) (snd (split_free_page K blockpfn w))
               = (n, fl', w')"
      using block_consume [OF lt, of K w True tot freelist] "1.prems" by simp
    have e': "isolate_freepages_block_loop K end_pfn True
                 ((if ?k \<noteq> 0 then blockpfn + (?k - 1) else blockpfn) + 1) (tot + ?k)
                 (rev [blockpfn ..< blockpfn + ?k] @ freelist) (snd (split_free_page K blockpfn w))
               = (n, fl', w')"
      using e good by simp
    let ?b' = "(if ?k \<noteq> 0 then blockpfn + (?k - 1) else blockpfn) + 1"
    have b': "?b' = blockpfn + ?k" using good by simp
    have ih0: "tot + ?k \<le> n \<and> end_pfn \<le> ?b' + (n - (tot + ?k))
              \<and> fl' = rev [?b' ..< ?b' + (n - (tot + ?k))]
                        @ rev [blockpfn ..< blockpfn + ?k] @ freelist"
      by (rule "1.hyps"(3) [OF lt _ _ refl refl _ e' "1.prems"(2)]) (use good in simp_all)
    have ih: "tot + ?k \<le> n \<and> end_pfn \<le> (blockpfn + ?k) + (n - (tot + ?k))
              \<and> fl' = rev [blockpfn + ?k ..< (blockpfn + ?k) + (n - (tot + ?k))]
                        @ rev [blockpfn ..< blockpfn + ?k] @ freelist"
      using ih0 unfolding b' .
    have nt: "n - tot = ?k + (n - (tot + ?k))" using ih by linarith
    have "[blockpfn ..< (blockpfn + ?k) + (n - (tot + ?k))]
            = [blockpfn ..< blockpfn + ?k] @ [blockpfn + ?k ..< (blockpfn + ?k) + (n - (tot + ?k))]"
      by (rule upt_add_eq_append) simp
    then have u: "[blockpfn ..< blockpfn + (n - tot)]
            = [blockpfn ..< blockpfn + ?k] @ [blockpfn + ?k ..< (blockpfn + ?k) + (n - (tot + ?k))]"
      unfolding nt by (simp add: add.assoc)
    have "tot \<le> n" using ih by linarith
    moreover have "end_pfn \<le> blockpfn + (n - tot)" unfolding nt using ih by linarith
    moreover have "fl' = rev [blockpfn ..< blockpfn + (n - tot)] @ freelist"
      unfolding u using ih by simp
    ultimately show ?thesis by blast
  qed
qed

text \<open>
  C6. \<open>isolate_freepages_block\<close> is its loop started with a total of 0. At every state
  of the loop inside the range: in strict mode an invalid frame, a page that is not a buddy
  page or a failed split makes the call return 0; in lax mode such a frame is skipped (the
  cursor moves on by one, the total and the list unchanged); a successful split of \<open>k\<close>
  pages puts them on the list, adds \<open>k\<close> to the total and moves the cursor past them. In
  lax mode the value returned is the number of pages put on the list; in strict mode a
  non-zero return means that splits covered the whole range.
\<close>

theorem isolate_freepages_block_strict_lax:
  "(blockpfn < end_pfn
      \<and> (\<not> pfn_valid_within K w blockpfn \<or> \<not> PageBuddy K w blockpfn
          \<or> fst (split_free_page K blockpfn w) = 0) \<longrightarrow>
      fst (isolate_freepages_block_loop K end_pfn True blockpfn tot freelist w) = 0)
   \<and> (blockpfn < end_pfn \<and> (\<not> pfn_valid_within K w blockpfn \<or> \<not> PageBuddy K w blockpfn) \<longrightarrow>
        isolate_freepages_block_loop K end_pfn False blockpfn tot freelist w
          = isolate_freepages_block_loop K end_pfn False (blockpfn + 1) tot freelist w)
   \<and> (blockpfn < end_pfn \<and> pfn_valid_within K w blockpfn \<and> PageBuddy K w blockpfn
        \<and> fst (split_free_page K blockpfn w) = 0 \<longrightarrow>
        isolate_freepages_block_loop K end_pfn False blockpfn tot freelist w
          = isolate_freepages_block_loop K end_pfn False (blockpfn + 1) tot freelist
              (snd (split_free_page K blockpfn w)))
   \<and> (blockpfn < end_pfn \<and> pfn_valid_within K w blockpfn \<and> PageBuddy K w blockpfn
        \<and> fst (split_free_page K blockpfn w) \<noteq> 0 \<longrightarrow>
        isolate_freepages_block_loop K end_pfn strict blockpfn tot freelist w
          = isolate_freepages_block_loop K end_pfn strict
              (blockpfn + fst (split_free_page K blockpfn w))
              (tot + fst (split_free_page K blockpfn w))
              (rev [blockpfn ..< blockpfn + fst (split_free_page K blockpfn w)] @ freelist)
              (snd (split_free_page K blockpfn w)))
   \<and> (isolate_freepages_block K blockpfn end_pfn freelist False w = (n, fl', w') \<longrightarrow>
        length fl' = length freelist + n)
   \<and> (isolate_freepages_block K blockpfn end_pfn freelist True w = (n, fl', w') \<and> n \<noteq> 0 \<longrightarrow>
        end_pfn \<le> blockpfn + n \<and> fl' = rev [blockpfn ..< blockpfn + n] @ freelist)
   \<and> isolate_freepages_block K blockpfn end_pfn freelist strict w
        = isolate_freepages_block_loop K end_pfn strict blockpfn 0 freelist w"
proof -
  have a: "isolate_freepages_block K blockpfn end_pfn freelist False w = (n, fl', w') \<longrightarrow>
        length fl' = length freelist + n"
    using block_lax_total [of K end_pfn blockpfn 0 freelist w n fl' w']
    by (simp add: isolate_freepages_block_def)
  have b: "isolate_freepages_block K blockpfn end_pfn freelist True w = (n, fl', w') \<and> n \<noteq> 0 \<longrightarrow>
        end_pfn \<le> blockpfn + n \<and> fl' = rev [blockpfn ..< blockpfn + n] @ freelist"
    using block_strict_cover [of K end_pfn blockpfn 0 freelist w n fl' w']
    by (simp add: isolate_freepages_block_def)
  from a b show ?thesis
    using block_strict_bad [of blockpfn end_pfn K w tot freelist]
      block_lax_skip [of blockpfn end_pfn K w tot freelist]
      block_lax_failed_split [of blockpfn end_pfn K w tot freelist]
      block_consume [of blockpfn end_pfn K w strict tot freelist]
    by (simp add: isolate_freepages_block_def)
qed

lemmas block_eval_defs =
  isolate_freepages_block_def isolate_freepages_block_loop.simps machine_split_free_page_def
  machine_free_page_def migratetype_defs Let_def empty_machine_def

theorem isolate_freepages_block_strict_lax_witness:
  "pfn_valid_within (machine_kernel 11 10) holes_machine 0
   \<and> PageBuddy (machine_kernel 11 10) holes_machine 0
   \<and> fst (split_free_page (machine_kernel 11 10) 0 holes_machine) = 2
   \<and> \<not> PageBuddy (machine_kernel 11 10) (snd (split_free_page (machine_kernel 11 10) 0 holes_machine)) 2
   \<and> fst (isolate_freepages_block (machine_kernel 11 10) 0 8 [] True holes_machine) = 0
   \<and> \<not> pfn_valid_within (machine_kernel 11 10) holes_machine 3
   \<and> fst (isolate_freepages_block (machine_kernel 11 10) 3 8 [] True holes_machine) = 0
   \<and> isolate_freepages_block_loop (machine_kernel 11 10) 8 False 3 0 [] holes_machine
       = isolate_freepages_block_loop (machine_kernel 11 10) 8 False 4 0 [] holes_machine
   \<and> pfn_valid_within refusing_kernel holes_machine 0 \<and> PageBuddy refusing_kernel holes_machine 0
   \<and> fst (split_free_page refusing_kernel 0 holes_machine) = 0
   \<and> fst (isolate_freepages_block refusing_kernel 0 8 [] True holes_machine) = 0
   \<and> isolate_freepages_block_loop refusing_kernel 8 False 0 0 [] holes_machine
       = isolate_freepages_block_loop refusing_kernel 8 False 1 0 [] holes_machine
   \<and> fst (isolate_freepages_block (machine_kernel 11 10) 0 8 [] False holes_machine) = 6
   \<and> fst (snd (isolate_freepages_block (machine_kernel 11 10) 0 8 [] False holes_machine))
       = [7, 6, 5, 4, 1, 0]
   \<and> fst (isolate_freepages_block (machine_kernel 11 10) 0 8 [] True free_machine) = 8
   \<and> fst (snd (isolate_freepages_block (machine_kernel 11 10) 0 8 [] True free_machine))
       = [7, 6, 5, 4, 3, 2, 1, 0]"
proof -
  let ?K = "machine_kernel 11 10"
  let ?R = "refusing_kernel"
  let ?w2 = "snd (split_free_page ?K 0 holes_machine)"
  have h: "pfn_valid_within ?K holes_machine 0" "PageBuddy ?K holes_machine 0"
    "fst (split_free_page ?K 0 holes_machine) = 2" "\<not> PageBuddy ?K ?w2 2"
    "\<not> pfn_valid_within ?K holes_machine 3"
    by (simp_all add: holes_machine_def block_eval_defs)
  have hr: "pfn_valid_within ?R holes_machine 0" "PageBuddy ?R holes_machine 0"
    "fst (split_free_page ?R 0 holes_machine) = 0" "snd (split_free_page ?R 0 holes_machine) = holes_machine"
    by (simp_all add: refusing_kernel_def holes_machine_def block_eval_defs)
  have step: "isolate_freepages_block ?K 0 8 [] True holes_machine
                = isolate_freepages_block_loop ?K 8 True 2 2 [1, 0] ?w2"
    using isolate_freepages_block_strict_lax [of 0 8 ?K holes_machine 0 "[]" True] h
    by (simp add: upt_rec)
  have stop: "fst (isolate_freepages_block_loop ?K 8 True 2 2 [1, 0] ?w2) = 0"
    using isolate_freepages_block_strict_lax [of 2 8 ?K ?w2 2 "[1, 0]"] h by simp
  have inv: "fst (isolate_freepages_block ?K 3 8 [] True holes_machine) = 0"
    using isolate_freepages_block_strict_lax [of 3 8 ?K holes_machine 0 "[]" True] h by simp
  have skip: "isolate_freepages_block_loop ?K 8 False 3 0 [] holes_machine
       = isolate_freepages_block_loop ?K 8 False 4 0 [] holes_machine"
    using isolate_freepages_block_strict_lax [of 3 8 ?K holes_machine 0 "[]"] h by simp
  have rs: "fst (isolate_freepages_block ?R 0 8 [] True holes_machine) = 0"
    using isolate_freepages_block_strict_lax [of 0 8 ?R holes_machine 0 "[]" True] hr by simp
  have rl: "isolate_freepages_block_loop ?R 8 False 0 0 [] holes_machine
       = isolate_freepages_block_loop ?R 8 False 1 0 [] holes_machine"
    using isolate_freepages_block_strict_lax [of 0 8 ?R holes_machine 0 "[]"] hr by simp
  obtain n fl w' where lax: "isolate_freepages_block ?K 0 8 [] False holes_machine = (n, fl, w')"
    using prod_cases3 by blast
  have n6: "fst (isolate_freepages_block ?K 0 8 [] False holes_machine) = 6"
    by (simp add: holes_machine_def block_eval_defs upt_rec)
  have fl6: "fst (snd (isolate_freepages_block ?K 0 8 [] False holes_machine)) = [7, 6, 5, 4, 1, 0]"
    by (simp add: holes_machine_def block_eval_defs upt_rec)
  have "length fl = n"
    using isolate_freepages_block_strict_lax [of 0 8 ?K holes_machine 0 "[]" True n fl w'] lax by simp
  obtain m fm wm where st: "isolate_freepages_block ?K 0 8 [] True free_machine = (m, fm, wm)"
    using prod_cases3 by blast
  have m8: "fst (isolate_freepages_block ?K 0 8 [] True free_machine) = 8"
    by (simp add: free_machine_def block_eval_defs upt_rec)
  with st have "m = 8" by simp
  then have "fm = rev [0 ..< 8]"
    using isolate_freepages_block_strict_lax [of 0 8 ?K free_machine 0 "[]" True m fm wm] st by simp
  then have fm8: "fst (snd (isolate_freepages_block ?K 0 8 [] True free_machine)) = [7, 6, 5, 4, 3, 2, 1, 0]"
    using st by (simp add: upt_rec)
  from h hr step stop inv skip rs rl n6 fl6 m8 fm8 show ?thesis by simp
qed

subsection \<open>Free-page range isolator\<close>

lemma release_freepages_eq:
  "release_freepages K fl w = (length fl, [], fold (free_page K) fl w)"
  by (induction fl arbitrary: w) simp_all

lemma range_loop_cover:
  "isolate_freepages_range_loop K z end_pfn pfn freelist w = (r, fl', w') \<Longrightarrow>
   pfn \<le> r \<and> (end_pfn \<le> r \<longrightarrow> fl' = rev [pfn ..< r] @ freelist)"
proof (induction K z end_pfn pfn freelist w arbitrary: r fl' w'
         rule: isolate_freepages_range_loop.induct)
  case (1 K z end_pfn pfn freelist w)
  show ?case
  proof (cases "pfn < end_pfn")
    case False
    with "1.prems" show ?thesis by (simp add: isolate_freepages_range_loop.simps)
  next
    case lt: True
    show ?thesis
    proof (cases "\<not> pfn_valid K w pfn \<or> z \<noteq> Some (page_zone K w pfn)")
      case True
      with "1.prems" lt show ?thesis
        by (auto simp: isolate_freepages_range_loop.simps [of K z end_pfn pfn])
    next
      case ok: False
      let ?be = "min (ALIGN (pfn + 1) (pageblock_nr_pages K)) end_pfn"
      let ?w1 = "spin_lock_irqsave K (Zone_lock (the z)) w"
      let ?r = "isolate_freepages_block K pfn ?be freelist True ?w1"
      let ?w2 = "spin_unlock_irqrestore K (Zone_lock (the z)) (snd (snd ?r))"
      show ?thesis
      proof (cases "fst ?r = 0")
        case True
        with "1.prems" lt ok show ?thesis
          by (auto simp: isolate_freepages_range_loop.simps [of K z end_pfn pfn] Let_def)
      next
        case nz: False
        have e: "isolate_freepages_range_loop K z end_pfn (pfn + fst ?r) (fst (snd ?r)) ?w2 = (r, fl', w')"
          using "1.prems" lt ok nz
          by (simp add: isolate_freepages_range_loop.simps [of K z end_pfn pfn] Let_def)
        have ih: "pfn + fst ?r \<le> r \<and> (end_pfn \<le> r \<longrightarrow> fl' = rev [pfn + fst ?r ..< r] @ fst (snd ?r))"
          using "1.IH" [OF lt _ refl refl refl refl refl nz e] ok by simp
        obtain n fl1 w1 where rr: "?r = (n, fl1, w1)" using prod_cases3 by blast
        have cov: "fl1 = rev [pfn ..< pfn + n] @ freelist"
          using block_strict_cover [of K ?be pfn 0 freelist ?w1 n fl1 w1] rr nz
          by (simp add: isolate_freepages_block_def)
        have "end_pfn \<le> r \<longrightarrow> [pfn ..< r] = [pfn ..< pfn + n] @ [pfn + n ..< r]"
          using ih rr by (metis fst_conv le_Suc_ex upt_add_eq_append le_add1)
        with ih rr cov show ?thesis by auto
      qed
    qed
  qed
qed

lemma block_strict_prefix:
  "isolate_freepages_block_loop K end_pfn True blockpfn tot freelist w = (n, fl', w') \<Longrightarrow>
   \<exists>q\<ge>blockpfn. fl' = rev [blockpfn ..< q] @ freelist"
proof (induction K end_pfn "True" blockpfn tot freelist w arbitrary: n fl' w'
         rule: isolate_freepages_block_loop.induct)
  case (1 K end_pfn blockpfn tot freelist w)
  show ?case
  proof (cases "blockpfn < end_pfn")
    case False
    with "1.prems" have "fl' = freelist" by (simp add: isolate_freepages_block_loop.simps)
    then have "fl' = rev [blockpfn ..< blockpfn] @ freelist" by simp
    then show ?thesis by blast
  next
    case lt: True
    let ?k = "fst (split_free_page K blockpfn w)"
    show ?thesis
    proof (cases "pfn_valid_within K w blockpfn \<and> PageBuddy K w blockpfn \<and> ?k \<noteq> 0")
      case False
      with "1.prems" lt have "fl' = freelist"
        by (auto simp: isolate_freepages_block_loop.simps [of K end_pfn True blockpfn] Let_def
              split: if_splits)
      then have "fl' = rev [blockpfn ..< blockpfn] @ freelist" by simp
      then show ?thesis by blast
    next
      case good: True
      then have e: "isolate_freepages_block_loop K end_pfn True (blockpfn + ?k) (tot + ?k)
                 (rev [blockpfn ..< blockpfn + ?k] @ freelist) (snd (split_free_page K blockpfn w))
               = (n, fl', w')"
        using block_consume [OF lt, of K w True tot freelist] "1.prems" by simp
      let ?b' = "(if ?k \<noteq> 0 then blockpfn + (?k - 1) else blockpfn) + 1"
      have b': "?b' = blockpfn + ?k" using good by simp
      have e': "isolate_freepages_block_loop K end_pfn True ?b' (tot + ?k)
                 (rev [blockpfn ..< blockpfn + ?k] @ freelist) (snd (split_free_page K blockpfn w))
               = (n, fl', w')"
        using e good by simp
      have ih0: "\<exists>q\<ge>?b'. fl' = rev [?b' ..< q] @ rev [blockpfn ..< blockpfn + ?k] @ freelist"
        by (rule "1.hyps"(3) [OF lt _ _ refl refl _ e']) (use good in simp_all)
      then obtain q where q: "blockpfn + ?k \<le> q"
        and f: "fl' = rev [blockpfn + ?k ..< q] @ rev [blockpfn ..< blockpfn + ?k] @ freelist"
        unfolding b' by blast
      have "[blockpfn ..< q] = [blockpfn ..< blockpfn + ?k] @ [blockpfn + ?k ..< q]"
        using q by (metis le_Suc_ex upt_add_eq_append le_add1)
      with f have "fl' = rev [blockpfn ..< q] @ freelist" by simp
      moreover have "blockpfn \<le> q" using q by simp
      ultimately show ?thesis by blast
    qed
  qed
qed

lemma range_loop_prefix:
  "isolate_freepages_range_loop K z end_pfn pfn freelist w = (r, fl', w') \<Longrightarrow>
   \<exists>q\<ge>r. fl' = rev [pfn ..< q] @ freelist"
proof (induction K z end_pfn pfn freelist w arbitrary: r fl' w'
         rule: isolate_freepages_range_loop.induct)
  case (1 K z end_pfn pfn freelist w)
  have stay: "r = pfn \<and> fl' = freelist \<Longrightarrow> ?case"
  proof -
    assume "r = pfn \<and> fl' = freelist"
    then have "r \<le> pfn \<and> fl' = rev [pfn ..< pfn] @ freelist" by simp
    then show ?thesis by blast
  qed
  show ?case
  proof (cases "pfn < end_pfn")
    case False
    with "1.prems" show ?thesis by (intro stay) (simp add: isolate_freepages_range_loop.simps)
  next
    case lt: True
    show ?thesis
    proof (cases "\<not> pfn_valid K w pfn \<or> z \<noteq> Some (page_zone K w pfn)")
      case True
      with "1.prems" lt show ?thesis
        by (intro stay) (auto simp: isolate_freepages_range_loop.simps [of K z end_pfn pfn])
    next
      case ok: False
      let ?be = "min (ALIGN (pfn + 1) (pageblock_nr_pages K)) end_pfn"
      let ?w1 = "spin_lock_irqsave K (Zone_lock (the z)) w"
      let ?r = "isolate_freepages_block K pfn ?be freelist True ?w1"
      let ?w2 = "spin_unlock_irqrestore K (Zone_lock (the z)) (snd (snd ?r))"
      obtain n fl1 w1 where rr: "?r = (n, fl1, w1)" using prod_cases3 by blast
      from block_strict_prefix [of K ?be pfn 0 freelist ?w1 n fl1 w1] rr
      obtain q1 where q1: "pfn \<le> q1" and f1: "fl1 = rev [pfn ..< q1] @ freelist"
        by (auto simp: isolate_freepages_block_def)
      show ?thesis
      proof (cases "fst ?r = 0")
        case True
        with "1.prems" lt ok have "r = pfn \<and> fl' = fst (snd ?r)"
          by (auto simp: isolate_freepages_range_loop.simps [of K z end_pfn pfn] Let_def)
        with rr q1 f1 show ?thesis by auto
      next
        case nz: False
        have e: "isolate_freepages_range_loop K z end_pfn (pfn + fst ?r) (fst (snd ?r)) ?w2 = (r, fl', w')"
          using "1.prems" lt ok nz
          by (simp add: isolate_freepages_range_loop.simps [of K z end_pfn pfn] Let_def)
        have "\<exists>q\<ge>r. fl' = rev [pfn + fst ?r ..< q] @ fst (snd ?r)"
          using "1.IH" [OF lt _ refl refl refl refl refl nz e] ok by simp
        then obtain q where q: "r \<le> q" and f: "fl' = rev [pfn + n ..< q] @ fl1"
          using rr by auto
        have c: "pfn + n \<le> r" using range_loop_cover [OF e] rr by simp
        have cov: "fl1 = rev [pfn ..< pfn + n] @ freelist"
          using block_strict_cover [of K ?be pfn 0 freelist ?w1 n fl1 w1] rr nz
          by (simp add: isolate_freepages_block_def)
        have "[pfn ..< q] = [pfn ..< pfn + n] @ [pfn + n ..< q]"
          using c q by (metis le_Suc_ex upt_add_eq_append le_add1 le_trans)
        with f cov have "fl' = rev [pfn ..< q] @ freelist" by simp
        with q show ?thesis by blast
      qed
    qed
  qed
qed


lemma range_loop_stop:
  "pfn < end_pfn \<Longrightarrow> \<not> pfn_valid K wp pfn \<or> z \<noteq> Some (page_zone K wp pfn) \<Longrightarrow>
   isolate_freepages_range_loop K z end_pfn pfn freelist wp = (pfn, freelist, wp)"
  by (subst isolate_freepages_range_loop.simps) auto

lemma range_loop_block:
  "pfn < end_pfn \<Longrightarrow> pfn_valid K wp pfn \<Longrightarrow> z = Some (page_zone K wp pfn) \<Longrightarrow>
   isolate_freepages_block K pfn (min (ALIGN (pfn + 1) (pageblock_nr_pages K)) end_pfn) freelist True
       (spin_lock_irqsave K (Zone_lock (the z)) wp) = (n, flb, wb) \<Longrightarrow>
   isolate_freepages_range_loop K z end_pfn pfn freelist wp
     = (if n = 0 then (pfn, flb, spin_unlock_irqrestore K (Zone_lock (the z)) wb)
        else isolate_freepages_range_loop K z end_pfn (pfn + n) flb
               (spin_unlock_irqrestore K (Zone_lock (the z)) wb))"
  by (subst isolate_freepages_range_loop.simps) (simp add: Let_def)

lemma range_of_loop:
  "isolate_freepages_range_loop K
     (if pfn_valid K w start_pfn then Some (page_zone K w start_pfn) else None)
     end_pfn start_pfn [] w = (pfn, L, w1) \<Longrightarrow>
   isolate_freepages_range K start_pfn end_pfn w
     = (if pfn < end_pfn then (0, [], fold (free_page K) L (map_pages K L w1))
        else (pfn, L, map_pages K L w1))"
  by (simp add: isolate_freepages_range_def Let_def release_freepages_eq)

lemmas range_eval_defs =
  isolate_freepages_range_def isolate_freepages_range_loop.simps block_eval_defs
  ALIGN_def pageblock_nr_pages_def

text \<open>
  C9, the claim as stated fails. The zone is compared only at the frame where a block step
  starts, not at every frame of the range. With pageblocks of 1024 frames, the range 0 to 7
  is one block step; frames 0 to 3 are in zone 0 and frames 4 to 7 in zone 1, all free: the
  call returns 8 with all eight frames on its list, and nothing is released.
\<close>

theorem zone_change_inside_block:
  "page_zone (machine_kernel 11 10) split_machine 0 \<noteq> page_zone (machine_kernel 11 10) split_machine 4
   \<and> fst (isolate_freepages_range (machine_kernel 11 10) 0 8 split_machine) = 8
   \<and> fst (snd (isolate_freepages_range (machine_kernel 11 10) 0 8 split_machine))
       = [7, 6, 5, 4, 3, 2, 1, 0]
   \<and> m_released (snd (snd (isolate_freepages_range (machine_kernel 11 10) 0 8 split_machine))) = []"
  by (simp add: split_machine_def free_machine_def range_eval_defs upt_rec)

text \<open>
  C9, amended. \<open>isolate_freepages_range\<close> over \<open>[start_pfn, end_pfn)\<close> runs its loop
  from \<open>start_pfn\<close> with an empty list. The list at loop exit is exactly the frames from
  \<open>start_pfn\<close> up to some frame at or above the exit cursor. When the exit cursor is at or
  above \<open>end_pfn\<close> the call returns it, with the frames from \<open>start_pfn\<close> up to it on the
  list. When it is below \<open>end_pfn\<close> the call returns 0 with an empty list, and every frame
  of the list has been handed to \<open>__free_page\<close>, in list order. The loop stops below
  \<open>end_pfn\<close>, keeping its list, at a block step that starts on an invalid frame or on a
  frame of another zone than \<open>start_pfn\<close>, and at a block step whose strict block
  isolation returns 0; otherwise it goes on behind the pages of the block. A call whose scan
  reaches such a step returns 0 and releases the list of that step.
\<close>

theorem isolate_freepages_range_all_or_nothing:
  "(isolate_freepages_range K start_pfn end_pfn w = (r, fl, w') \<longrightarrow>
      (\<exists>pfn L w1.
          isolate_freepages_range_loop K
            (if pfn_valid K w start_pfn then Some (page_zone K w start_pfn) else None)
            end_pfn start_pfn [] w = (pfn, L, w1)
          \<and> start_pfn \<le> pfn \<and> (\<exists>q\<ge>pfn. L = rev [start_pfn ..< q])
          \<and> (if pfn < end_pfn
              then r = 0 \<and> fl = [] \<and> w' = fold (free_page K) L (map_pages K L w1)
              else r = pfn \<and> fl = rev [start_pfn ..< r] \<and> w' = map_pages K fl w1)))
   \<and> (pfn < end_pfn \<and> (\<not> pfn_valid K wp pfn \<or> z \<noteq> Some (page_zone K wp pfn)) \<longrightarrow>
        isolate_freepages_range_loop K z end_pfn pfn freelist wp = (pfn, freelist, wp))
   \<and> (pfn < end_pfn \<and> pfn_valid K wp pfn \<and> z = Some (page_zone K wp pfn)
        \<and> isolate_freepages_block K pfn (min (ALIGN (pfn + 1) (pageblock_nr_pages K)) end_pfn)
             freelist True (spin_lock_irqsave K (Zone_lock (the z)) wp) = (n, flb, wb) \<longrightarrow>
        isolate_freepages_range_loop K z end_pfn pfn freelist wp
          = (if n = 0 then (pfn, flb, spin_unlock_irqrestore K (Zone_lock (the z)) wb)
             else isolate_freepages_range_loop K z end_pfn (pfn + n) flb
                    (spin_unlock_irqrestore K (Zone_lock (the z)) wb)))
   \<and> (z = (if pfn_valid K w start_pfn then Some (page_zone K w start_pfn) else None)
        \<and> isolate_freepages_range_loop K z end_pfn start_pfn [] w
            = isolate_freepages_range_loop K z end_pfn pfn freelist wp
        \<and> pfn < end_pfn \<and> (\<not> pfn_valid K wp pfn \<or> z \<noteq> Some (page_zone K wp pfn)) \<longrightarrow>
        isolate_freepages_range K start_pfn end_pfn w
          = (0, [], fold (free_page K) freelist (map_pages K freelist wp)))
   \<and> (z = (if pfn_valid K w start_pfn then Some (page_zone K w start_pfn) else None)
        \<and> isolate_freepages_range_loop K z end_pfn start_pfn [] w
            = isolate_freepages_range_loop K z end_pfn pfn freelist wp
        \<and> pfn < end_pfn \<and> pfn_valid K wp pfn \<and> z = Some (page_zone K wp pfn)
        \<and> isolate_freepages_block K pfn (min (ALIGN (pfn + 1) (pageblock_nr_pages K)) end_pfn)
             freelist True (spin_lock_irqsave K (Zone_lock (the z)) wp) = (0, flb, wb) \<longrightarrow>
        isolate_freepages_range K start_pfn end_pfn w
          = (0, [], fold (free_page K) flb
                      (map_pages K flb (spin_unlock_irqrestore K (Zone_lock (the z)) wb))))"
proof -
  let ?z = "if pfn_valid K w start_pfn then Some (page_zone K w start_pfn) else None"
  have a: "isolate_freepages_range K start_pfn end_pfn w = (r, fl, w') \<longrightarrow>
      (\<exists>pfn L w1.
          isolate_freepages_range_loop K ?z end_pfn start_pfn [] w = (pfn, L, w1)
          \<and> start_pfn \<le> pfn \<and> (\<exists>q\<ge>pfn. L = rev [start_pfn ..< q])
          \<and> (if pfn < end_pfn
              then r = 0 \<and> fl = [] \<and> w' = fold (free_page K) L (map_pages K L w1)
              else r = pfn \<and> fl = rev [start_pfn ..< r] \<and> w' = map_pages K fl w1))"
  proof
    assume res: "isolate_freepages_range K start_pfn end_pfn w = (r, fl, w')"
    obtain p L w1 where l: "isolate_freepages_range_loop K ?z end_pfn start_pfn [] w = (p, L, w1)"
      using prod_cases3 by blast
    have c: "start_pfn \<le> p" "end_pfn \<le> p \<longrightarrow> L = rev [start_pfn ..< p]"
      using range_loop_cover [OF l] by simp_all
    have q: "\<exists>q\<ge>p. L = rev [start_pfn ..< q]"
      using range_loop_prefix [OF l] by simp
    have "if p < end_pfn
          then r = 0 \<and> fl = [] \<and> w' = fold (free_page K) L (map_pages K L w1)
          else r = p \<and> fl = rev [start_pfn ..< r] \<and> w' = map_pages K fl w1"
      using res c(2) unfolding range_of_loop [OF l] by (auto split: if_splits)
    with l c(1) q show "\<exists>pfn L w1.
          isolate_freepages_range_loop K ?z end_pfn start_pfn [] w = (pfn, L, w1)
          \<and> start_pfn \<le> pfn \<and> (\<exists>q\<ge>pfn. L = rev [start_pfn ..< q])
          \<and> (if pfn < end_pfn
              then r = 0 \<and> fl = [] \<and> w' = fold (free_page K) L (map_pages K L w1)
              else r = pfn \<and> fl = rev [start_pfn ..< r] \<and> w' = map_pages K fl w1)"
      by blast
  qed
  have b: "pfn < end_pfn \<and> (\<not> pfn_valid K wp pfn \<or> z \<noteq> Some (page_zone K wp pfn)) \<longrightarrow>
        isolate_freepages_range_loop K z end_pfn pfn freelist wp = (pfn, freelist, wp)"
    using range_loop_stop [of pfn end_pfn K wp z freelist] by blast
  have c: "pfn < end_pfn \<and> pfn_valid K wp pfn \<and> z = Some (page_zone K wp pfn)
        \<and> isolate_freepages_block K pfn (min (ALIGN (pfn + 1) (pageblock_nr_pages K)) end_pfn)
             freelist True (spin_lock_irqsave K (Zone_lock (the z)) wp) = (n, flb, wb) \<longrightarrow>
        isolate_freepages_range_loop K z end_pfn pfn freelist wp
          = (if n = 0 then (pfn, flb, spin_unlock_irqrestore K (Zone_lock (the z)) wb)
             else isolate_freepages_range_loop K z end_pfn (pfn + n) flb
                    (spin_unlock_irqrestore K (Zone_lock (the z)) wb))"
    using range_loop_block [of pfn end_pfn K wp z freelist n flb wb] by blast
  have d: "z = ?z
        \<and> isolate_freepages_range_loop K z end_pfn start_pfn [] w
            = isolate_freepages_range_loop K z end_pfn pfn freelist wp
        \<and> pfn < end_pfn \<and> (\<not> pfn_valid K wp pfn \<or> z \<noteq> Some (page_zone K wp pfn)) \<longrightarrow>
        isolate_freepages_range K start_pfn end_pfn w
          = (0, [], fold (free_page K) freelist (map_pages K freelist wp))"
  proof (intro impI, elim conjE)
    assume z: "z = ?z"
      and re: "isolate_freepages_range_loop K z end_pfn start_pfn [] w
                 = isolate_freepages_range_loop K z end_pfn pfn freelist wp"
      and lt: "pfn < end_pfn"
      and tr: "\<not> pfn_valid K wp pfn \<or> z \<noteq> Some (page_zone K wp pfn)"
    have "isolate_freepages_range_loop K ?z end_pfn start_pfn [] w = (pfn, freelist, wp)"
      using re range_loop_stop [OF lt tr, of freelist] unfolding z by simp
    from range_of_loop [OF this] lt
    show "isolate_freepages_range K start_pfn end_pfn w
          = (0, [], fold (free_page K) freelist (map_pages K freelist wp))"
      by simp
  qed
  have e: "z = ?z
        \<and> isolate_freepages_range_loop K z end_pfn start_pfn [] w
            = isolate_freepages_range_loop K z end_pfn pfn freelist wp
        \<and> pfn < end_pfn \<and> pfn_valid K wp pfn \<and> z = Some (page_zone K wp pfn)
        \<and> isolate_freepages_block K pfn (min (ALIGN (pfn + 1) (pageblock_nr_pages K)) end_pfn)
             freelist True (spin_lock_irqsave K (Zone_lock (the z)) wp) = (0, flb, wb) \<longrightarrow>
        isolate_freepages_range K start_pfn end_pfn w
          = (0, [], fold (free_page K) flb
                      (map_pages K flb (spin_unlock_irqrestore K (Zone_lock (the z)) wb)))"
  proof (intro impI, elim conjE)
    assume z: "z = ?z"
      and re: "isolate_freepages_range_loop K z end_pfn start_pfn [] w
                 = isolate_freepages_range_loop K z end_pfn pfn freelist wp"
      and lt: "pfn < end_pfn" and v: "pfn_valid K wp pfn" and zz: "z = Some (page_zone K wp pfn)"
      and bl: "isolate_freepages_block K pfn (min (ALIGN (pfn + 1) (pageblock_nr_pages K)) end_pfn)
             freelist True (spin_lock_irqsave K (Zone_lock (the z)) wp) = (0, flb, wb)"
    have "isolate_freepages_range_loop K ?z end_pfn start_pfn [] w
            = (pfn, flb, spin_unlock_irqrestore K (Zone_lock (the z)) wb)"
      using re range_loop_block [OF lt v zz bl] unfolding z by simp
    from range_of_loop [OF this] lt
    show "isolate_freepages_range K start_pfn end_pfn w
          = (0, [], fold (free_page K) flb
                      (map_pages K flb (spin_unlock_irqrestore K (Zone_lock (the z)) wb)))"
      by simp
  qed
  from a b c d e show ?thesis by blast
qed

theorem isolate_freepages_range_all_or_nothing_witness:
  "fst (isolate_freepages_range (machine_kernel 3 2) 0 8 free_machine) = 8
   \<and> fst (snd (isolate_freepages_range (machine_kernel 3 2) 0 8 free_machine))
       = [7, 6, 5, 4, 3, 2, 1, 0]
   \<and> pfn_valid (machine_kernel 3 2) split_machine 0
   \<and> fst (isolate_freepages_block (machine_kernel 3 2) 0 4 [] True split_machine) = 4
   \<and> fst (snd (isolate_freepages_block (machine_kernel 3 2) 0 4 [] True split_machine))
       = [3, 2, 1, 0]
   \<and> pfn_valid (machine_kernel 3 2)
        (snd (snd (isolate_freepages_block (machine_kernel 3 2) 0 4 [] True split_machine))) 4
   \<and> page_zone (machine_kernel 3 2)
        (snd (snd (isolate_freepages_block (machine_kernel 3 2) 0 4 [] True split_machine))) 4
       \<noteq> page_zone (machine_kernel 3 2) split_machine 0
   \<and> fst (isolate_freepages_range (machine_kernel 3 2) 0 8 split_machine) = 0
   \<and> fst (snd (isolate_freepages_range (machine_kernel 3 2) 0 8 split_machine)) = []
   \<and> m_released (snd (snd (isolate_freepages_range (machine_kernel 3 2) 0 8 split_machine)))
       = [0, 1, 2, 3]
   \<and> fst (isolate_freepages_range_loop (machine_kernel 3 2) (Some 0) 8 0 [] free_machine) = 8
   \<and> fst (isolate_freepages_block (machine_kernel 3 2) 8 12 [7, 6, 5, 4, 3, 2, 1, 0] True
             (snd (snd (isolate_freepages_range_loop (machine_kernel 3 2) (Some 0) 8 0 [] free_machine))))
       = 0
   \<and> fst (isolate_freepages_range (machine_kernel 3 2) 0 12 free_machine) = 0
   \<and> fst (snd (isolate_freepages_range (machine_kernel 3 2) 0 12 free_machine)) = []
   \<and> m_released (snd (snd (isolate_freepages_range (machine_kernel 3 2) 0 12 free_machine)))
       = [0, 1, 2, 3, 4, 5, 6, 7]
   \<and> \<not> pfn_valid (machine_kernel 3 2) free_machine 3000
   \<and> isolate_freepages_range (machine_kernel 3 2) 3000 3008 free_machine = (0, [], free_machine)
   \<and> isolate_freepages_range_loop (machine_kernel 3 2) (Some 0) 8 4 [3, 2, 1, 0]
         (snd (snd (isolate_freepages_block (machine_kernel 3 2) 0 4 [] True split_machine)))
       = (4, [3, 2, 1, 0],
          snd (snd (isolate_freepages_block (machine_kernel 3 2) 0 4 [] True split_machine)))"
proof -
  let ?K = "machine_kernel 3 2"
  let ?b = "isolate_freepages_block ?K 0 4 [] True split_machine"
  let ?l8 = "isolate_freepages_range_loop ?K (Some 0) 8 0 [] free_machine"
  let ?d = "isolate_freepages_block ?K 8 12 [7, 6, 5, 4, 3, 2, 1, 0] True (snd (snd ?l8))"
  obtain r fl w' where ok: "isolate_freepages_range ?K 0 8 free_machine = (r, fl, w')"
    using prod_cases3 by blast
  have r: "fst (isolate_freepages_range ?K 0 8 free_machine) = 8"
    by (simp add: free_machine_def range_eval_defs upt_rec)
  with ok have r8: "r = 8" by simp
  have "fl = rev [0 ..< 8]"
    using isolate_freepages_range_all_or_nothing
            [where K = ?K and start_pfn = 0 and end_pfn = 8 and w = free_machine
               and r = r and fl = fl and w' = w', THEN conjunct1, THEN mp, OF ok] r8
    by (auto split: if_splits)
  then have good: "fst (snd (isolate_freepages_range ?K 0 8 free_machine)) = [7, 6, 5, 4, 3, 2, 1, 0]"
    using ok by (simp add: upt_rec)
  have b: "fst ?b = 4" "fst (snd ?b) = [3, 2, 1, 0]"
    by (simp_all add: split_machine_def free_machine_def block_eval_defs upt_rec)
  have v0: "pfn_valid ?K split_machine 0"
    by (simp add: split_machine_def free_machine_def empty_machine_def)
  have v4: "pfn_valid ?K (snd (snd ?b)) 4" "page_zone ?K (snd (snd ?b)) 4 \<noteq> page_zone ?K split_machine 0"
    by (simp_all add: split_machine_def free_machine_def block_eval_defs upt_rec)
  have h1: "(0::nat) < 8 \<and> pfn_valid ?K split_machine 0
        \<and> Some 0 = Some (page_zone ?K split_machine 0)
        \<and> isolate_freepages_block ?K 0 (min (ALIGN (0 + 1) (pageblock_nr_pages ?K)) 8) [] True
             (spin_lock_irqsave ?K (Zone_lock (the (Some 0))) split_machine)
            = (4, [3, 2, 1, 0], snd (snd ?b))"
    by (simp add: prod_eq_iff split_machine_def free_machine_def block_eval_defs upt_rec
          ALIGN_def pageblock_nr_pages_def)
  have step: "isolate_freepages_range_loop ?K (Some 0) 8 0 [] split_machine
                = isolate_freepages_range_loop ?K (Some 0) 8 4 [3, 2, 1, 0] (snd (snd ?b))"
    using isolate_freepages_range_all_or_nothing
            [where K = ?K and pfn = 0 and end_pfn = 8 and wp = split_machine and z = "Some 0"
               and freelist = "[]" and n = 4 and flb = "[3, 2, 1, 0]" and wb = "snd (snd ?b)",
             THEN conjunct2, THEN conjunct2, THEN conjunct1, THEN mp, OF h1]
    by simp
  have h2: "Some 0 = (if pfn_valid ?K split_machine 0 then Some (page_zone ?K split_machine 0) else None)
        \<and> isolate_freepages_range_loop ?K (Some 0) 8 0 [] split_machine
            = isolate_freepages_range_loop ?K (Some 0) 8 4 [3, 2, 1, 0] (snd (snd ?b))
        \<and> (4::nat) < 8
        \<and> (\<not> pfn_valid ?K (snd (snd ?b)) 4 \<or> Some 0 \<noteq> Some (page_zone ?K (snd (snd ?b)) 4))"
    using step v4 by (simp add: split_machine_def free_machine_def empty_machine_def)
  have bad: "isolate_freepages_range ?K 0 8 split_machine
               = (0, [], fold (free_page ?K) [3, 2, 1, 0] (map_pages ?K [3, 2, 1, 0] (snd (snd ?b))))"
    by (rule isolate_freepages_range_all_or_nothing
            [where K = ?K and start_pfn = 0 and end_pfn = 8 and w = split_machine and z = "Some 0"
               and pfn = 4 and freelist = "[3, 2, 1, 0]" and wp = "snd (snd ?b)",
             THEN conjunct2, THEN conjunct2, THEN conjunct2, THEN conjunct1, THEN mp, OF h2])
  have rel: "m_released (snd (snd (isolate_freepages_range ?K 0 8 split_machine))) = [0, 1, 2, 3]"
    unfolding bad
    by (simp add: split_machine_def free_machine_def block_eval_defs upt_rec)
  have l8: "fst ?l8 = 8" "fst (snd ?l8) = [7, 6, 5, 4, 3, 2, 1, 0]"
    by (simp_all add: free_machine_def range_eval_defs upt_rec)
  have d: "fst ?d = 0" "fst (snd ?d) = [7, 6, 5, 4, 3, 2, 1, 0]" "snd (snd ?d) = snd (snd ?l8)"
    by (simp_all add: free_machine_def range_eval_defs upt_rec)
  have h3: "Some 0 = (if pfn_valid ?K free_machine 0 then Some (page_zone ?K free_machine 0) else None)
        \<and> isolate_freepages_range_loop ?K (Some 0) 12 0 [] free_machine
            = isolate_freepages_range_loop ?K (Some 0) 12 8 [7, 6, 5, 4, 3, 2, 1, 0] (snd (snd ?l8))
        \<and> (8::nat) < 12 \<and> pfn_valid ?K (snd (snd ?l8)) 8
        \<and> Some 0 = Some (page_zone ?K (snd (snd ?l8)) 8)
        \<and> isolate_freepages_block ?K 8 (min (ALIGN (8 + 1) (pageblock_nr_pages ?K)) 12)
             [7, 6, 5, 4, 3, 2, 1, 0] True
             (spin_lock_irqsave ?K (Zone_lock (the (Some 0))) (snd (snd ?l8)))
            = (0, [7, 6, 5, 4, 3, 2, 1, 0], snd (snd ?l8))"
    by (simp add: prod_eq_iff free_machine_def range_eval_defs upt_rec)
  have fail: "isolate_freepages_range ?K 0 12 free_machine
               = (0, [], fold (free_page ?K) [7, 6, 5, 4, 3, 2, 1, 0]
                           (map_pages ?K [7, 6, 5, 4, 3, 2, 1, 0]
                              (spin_unlock_irqrestore ?K (Zone_lock (the (Some 0))) (snd (snd ?l8)))))"
    by (rule isolate_freepages_range_all_or_nothing
            [where K = ?K and start_pfn = 0 and end_pfn = 12 and w = free_machine and z = "Some 0"
               and pfn = 8 and freelist = "[7, 6, 5, 4, 3, 2, 1, 0]" and wp = "snd (snd ?l8)"
               and flb = "[7, 6, 5, 4, 3, 2, 1, 0]" and wb = "snd (snd ?l8)",
             THEN conjunct2, THEN conjunct2, THEN conjunct2, THEN conjunct2, THEN mp, OF h3])
  have rel2: "m_released (snd (snd (isolate_freepages_range ?K 0 12 free_machine)))
                = [0, 1, 2, 3, 4, 5, 6, 7]"
    unfolding fail
    by (simp add: free_machine_def range_eval_defs upt_rec)
  have nv: "\<not> pfn_valid ?K free_machine 3000"
    by (simp add: free_machine_def empty_machine_def)
  have h4: "None = (if pfn_valid ?K free_machine 3000 then Some (page_zone ?K free_machine 3000) else None)
        \<and> isolate_freepages_range_loop ?K None 3008 3000 [] free_machine
            = isolate_freepages_range_loop ?K None 3008 3000 [] free_machine
        \<and> (3000::nat) < 3008
        \<and> (\<not> pfn_valid ?K free_machine 3000 \<or> None \<noteq> Some (page_zone ?K free_machine 3000))"
    using nv by simp
  have inv: "isolate_freepages_range ?K 3000 3008 free_machine = (0, [], free_machine)"
    using isolate_freepages_range_all_or_nothing
            [where K = ?K and start_pfn = 3000 and end_pfn = 3008 and w = free_machine and z = None
               and pfn = 3000 and freelist = "[]" and wp = free_machine,
             THEN conjunct2, THEN conjunct2, THEN conjunct2, THEN conjunct1, THEN mp, OF h4]
    by simp
  have h5: "(4::nat) < 8
        \<and> (\<not> pfn_valid ?K (snd (snd ?b)) 4 \<or> Some 0 \<noteq> Some (page_zone ?K (snd (snd ?b)) 4))"
    using h2 by blast
  have stop: "isolate_freepages_range_loop ?K (Some 0) 8 4 [3, 2, 1, 0] (snd (snd ?b))
                = (4, [3, 2, 1, 0], snd (snd ?b))"
    by (rule isolate_freepages_range_all_or_nothing
            [where K = ?K and pfn = 4 and end_pfn = 8 and wp = "snd (snd ?b)" and z = "Some 0"
               and freelist = "[3, 2, 1, 0]",
             THEN conjunct2, THEN conjunct1, THEN mp, OF h5])
  from r good v0 b v4 bad rel l8(1) d(1) fail rel2 nv inv stop show ?thesis by simp
qed

subsection \<open>What the sweeps and the capture path leave alone\<close>

lemma same_request_refl [simp]: "same_request cc cc"
  by (simp add: same_request_def)

lemma same_lists_refl [simp]: "same_lists cc cc"
  by (simp add: same_lists_def)

lemma same_request_trans: "same_request a b \<Longrightarrow> same_request b c \<Longrightarrow> same_request a c"
  by (simp add: same_request_def)

lemma same_lists_trans: "same_lists a b \<Longrightarrow> same_lists b c \<Longrightarrow> same_lists a c"
  by (simp add: same_lists_def)

lemma trylock_same [simp]:
  "same_request cc (fst (snd (compact_trylock_irqsave K l cc w)))"
  "same_lists cc (fst (snd (compact_trylock_irqsave K l cc w)))"
  by (simp_all add: same_request_def same_lists_def compact_trylock_irqsave_def)

lemma page_update_same [simp]:
  "same_request cc (cc\<lparr>page := x\<rparr>)" "same_lists cc (cc\<lparr>page := x\<rparr>)"
  by (simp_all add: same_request_def same_lists_def)

lemma capture_orders_same:
  "same_request cc (fst (snd (compact_capture_orders K mtype ord cc w)))
   \<and> same_lists cc (fst (snd (compact_capture_orders K mtype ord cc w)))"
proof (induction K mtype ord cc w rule: compact_capture_orders.induct)
  case (1 K mtype ord cc w)
  let ?chk = "compact_trylock_irqsave K (Zone_lock (zone_id (zone cc))) cc w"
  let ?cc1 = "fst (snd ?chk)"
  let ?w1 = "snd (snd ?chk)"
  let ?ul = "spin_unlock_irqrestore K (Zone_lock (zone_id (zone cc)))"
  note tl = trylock_same [of cc K "Zone_lock (zone_id (zone cc))" w]
  show ?case
  proof (cases "ord < int (MAX_ORDER K)")
    case False
    then show ?thesis by (simp add: compact_capture_orders.simps [of K mtype ord])
  next
    case lt: True
    show ?thesis
    proof (cases "free_list K w (zone cc) (nat ord) mtype = []")
      case True
      then have "compact_capture_orders K mtype ord cc w = compact_capture_orders K mtype (ord + 1) cc w"
        using lt by (simp add: compact_capture_orders.simps [of K mtype ord])
      with "1.IH"(1) [OF lt True] show ?thesis by simp
    next
      case ne: False
      show ?thesis
      proof (cases "fst ?chk")
        case False
        then have "compact_capture_orders K mtype ord cc w = (True, ?cc1, ?w1)"
          using lt ne by (simp add: compact_capture_orders.simps [of K mtype ord] Let_def)
        with tl show ?thesis by simp
      next
        case lk: True
        show ?thesis
        proof (cases "free_list K ?w1 (zone ?cc1) (nat ord) mtype")
          case Nil
          then have e: "compact_capture_orders K mtype ord cc w
                     = compact_capture_orders K mtype (ord + 1) ?cc1 (?ul ?w1)"
            using lt ne lk by (simp add: compact_capture_orders.simps [of K mtype ord] Let_def)
          have "same_request ?cc1 (fst (snd (compact_capture_orders K mtype (ord + 1) ?cc1 (?ul ?w1))))
                \<and> same_lists ?cc1 (fst (snd (compact_capture_orders K mtype (ord + 1) ?cc1 (?ul ?w1))))"
            using "1.IH"(2) [OF lt ne refl refl refl _ Nil] lk by simp
          with tl show ?thesis unfolding e using same_request_trans same_lists_trans by blast
        next
          case (Cons p rest)
          let ?cap = "capture_free_page K p (order ?cc1) mtype ?w1"
          show ?thesis
          proof (cases "fst ?cap")
            case True
            then have "compact_capture_orders K mtype ord cc w
                         = (True, ?cc1\<lparr>page := Some (Some p)\<rparr>, ?ul (snd ?cap))"
              using lt ne lk Cons by (simp add: compact_capture_orders.simps [of K mtype ord] Let_def)
            moreover have "same_request cc (?cc1\<lparr>page := Some (Some p)\<rparr>)"
              using tl(1) by (simp add: same_request_def)
            moreover have "same_lists cc (?cc1\<lparr>page := Some (Some p)\<rparr>)"
              using tl(2) by (simp add: same_lists_def)
            ultimately show ?thesis by simp
          next
            case False
            then have e: "compact_capture_orders K mtype ord cc w
                     = compact_capture_orders K mtype (ord + 1) ?cc1 (?ul (snd ?cap))"
              using lt ne lk Cons by (simp add: compact_capture_orders.simps [of K mtype ord] Let_def)
            have "same_request ?cc1 (fst (snd (compact_capture_orders K mtype (ord + 1) ?cc1 (?ul (snd ?cap)))))
                \<and> same_lists ?cc1 (fst (snd (compact_capture_orders K mtype (ord + 1) ?cc1 (?ul (snd ?cap)))))"
              using "1.IH"(3) [OF lt ne refl refl refl _ Cons refl] lk False by simp
            with tl show ?thesis unfolding e using same_request_trans same_lists_trans by blast
          qed
        qed
      qed
    qed
  qed
qed

lemma capture_mtypes_same:
  "same_request cc (fst (compact_capture_mtypes K mtype mtype_high cc w))
   \<and> same_lists cc (fst (compact_capture_mtypes K mtype mtype_high cc w))"
proof (induction K mtype mtype_high cc w rule: compact_capture_mtypes.induct)
  case (1 K mtype mtype_high cc w)
  let ?r = "compact_capture_orders K mtype (order cc) cc w"
  note o = capture_orders_same [of cc K mtype "order cc" w]
  show ?case
  proof (cases "mtype < mtype_high")
    case False
    then show ?thesis by (simp add: compact_capture_mtypes.simps [of K mtype])
  next
    case lt: True
    show ?thesis
    proof (cases "fst ?r")
      case True
      then have "compact_capture_mtypes K mtype mtype_high cc w = snd ?r"
        using lt by (simp add: compact_capture_mtypes.simps [of K mtype] Let_def)
      with o show ?thesis by simp
    next
      case False
      then have e: "compact_capture_mtypes K mtype mtype_high cc w
                  = compact_capture_mtypes K (mtype + 1) mtype_high (fst (snd ?r)) (snd (snd ?r))"
        using lt by (simp add: compact_capture_mtypes.simps [of K mtype] Let_def)
      from "1.IH" [OF lt refl False] o show ?thesis
        unfolding e using same_request_trans same_lists_trans by blast
    qed
  qed
qed

lemma capture_page_same:
  "same_request cc (fst (compact_capture_page K cc w))
   \<and> same_lists cc (fst (compact_capture_page K cc w))"
  using capture_mtypes_same [of cc K] by (simp add: compact_capture_page_def)

lemma freepages_update_same_request [simp]:
  "same_request cc (cc\<lparr>freepages := x\<rparr>)"
  "same_request cc (cc\<lparr>free_pfn := y, nr_freepages := n\<rparr>)"
  "same_request cc (cc\<lparr>freepages := x, nr_freepages := n\<rparr>)"
  by (simp_all add: same_request_def)

lemma isolate_freepages_loop_same:
  "same_request cc (fst (snd (snd (isolate_freepages_loop K z low_pfn zone_end_pfn pfn high_pfn nr cc w))))"
proof (induction K z low_pfn zone_end_pfn pfn high_pfn nr cc w rule: isolate_freepages_loop.induct)
  case (1 K z low_pfn zone_end_pfn pfn high_pfn nr cc w)
  let ?chk = "compact_trylock_irqsave K (Zone_lock (zone_id z)) cc w"
  let ?cc1 = "fst (snd ?chk)"
  let ?w1 = "snd (snd ?chk)"
  note tl = trylock_same(1) [of cc K "Zone_lock (zone_id z)" w]
  show ?case
  proof (cases "pfn > low_pfn \<and> nr_migratepages cc > nr")
    case False
    show ?thesis
      by (subst isolate_freepages_loop.simps) (simp only: False if_False, simp)
  next
    case go: True
    show ?thesis
    proof (cases "\<not> pfn_valid K w pfn \<or> page_zone K w pfn \<noteq> zone_id z
                  \<or> \<not> suitable_migration_target K w pfn")
      case True
      then have e: "isolate_freepages_loop K z low_pfn zone_end_pfn pfn high_pfn nr cc w
             = isolate_freepages_loop K z low_pfn zone_end_pfn (pfn - pageblock_nr_pages K) high_pfn nr cc w"
        using go by (auto simp: isolate_freepages_loop.simps [of K z low_pfn zone_end_pfn pfn])
      from True consider "\<not> pfn_valid K w pfn"
        | "pfn_valid K w pfn" "page_zone K w pfn \<noteq> zone_id z"
        | "pfn_valid K w pfn" "page_zone K w pfn = zone_id z" "\<not> suitable_migration_target K w pfn"
        by blast
      then show ?thesis
      proof cases
        case 1
        then show ?thesis unfolding e using "1.IH"(1) [OF go] by simp
      next
        case 2
        then show ?thesis unfolding e using "1.IH"(2) [OF go] by simp
      next
        case 3
        then show ?thesis unfolding e using "1.IH"(3) [OF go] by simp
      qed
    next
      case ok: False
      show ?thesis
      proof (cases "fst ?chk")
        case False
        then have "isolate_freepages_loop K z low_pfn zone_end_pfn pfn high_pfn nr cc w
                     = (high_pfn, nr, ?cc1, ?w1)"
          using go ok by (simp add: isolate_freepages_loop.simps [of K z low_pfn zone_end_pfn pfn] Let_def)
        with tl show ?thesis by simp
      next
        case lk: True
        let ?r = "(if suitable_migration_target K ?w1 pfn then
                             isolate_freepages_block K pfn
                               (min (pfn + pageblock_nr_pages K) zone_end_pfn) (freepages ?cc1) False ?w1
                           else (0, freepages ?cc1, ?w1))"
        let ?w2 = "spin_unlock_irqrestore K (Zone_lock (zone_id z)) (snd (snd ?r))"
        let ?cc2 = "?cc1\<lparr>freepages := fst (snd ?r)\<rparr>"
        have e: "isolate_freepages_loop K z low_pfn zone_end_pfn pfn high_pfn nr cc w
             = isolate_freepages_loop K z low_pfn zone_end_pfn (pfn - pageblock_nr_pages K)
                       (if fst ?r \<noteq> 0 then max high_pfn pfn else high_pfn)
                       (nr + of_nat (fst ?r)) ?cc2 ?w2"
          using go ok lk by (simp add: isolate_freepages_loop.simps [of K z low_pfn zone_end_pfn pfn] Let_def)
        have "same_request ?cc2 (fst (snd (snd (isolate_freepages_loop K z low_pfn zone_end_pfn
                       (pfn - pageblock_nr_pages K)
                       (if fst ?r \<noteq> 0 then max high_pfn pfn else high_pfn)
                       (nr + of_nat (fst ?r)) ?cc2 ?w2))))"
          using "1.IH"(4) [OF go _ _ _ refl refl refl _ refl refl refl] ok lk by simp
        moreover have "same_request cc ?cc2" using tl by (simp add: same_request_def)
        ultimately show ?thesis unfolding e using same_request_trans by blast
      qed
    qed
  qed
qed

lemma isolate_freepages_same:
  "same_request cc (fst (isolate_freepages K z cc w))"
proof -
  let ?l = "isolate_freepages_loop K z (migrate_pfn cc + pageblock_nr_pages K)
              (zone_start_pfn z + spanned_pages z) (free_pfn cc)
              (min (migrate_pfn cc + pageblock_nr_pages K) (free_pfn cc)) (nr_freepages cc) cc w"
  obtain h n cc1 w1 where l: "?l = (h, n, cc1, w1)" using prod_cases4 by blast
  have "same_request cc cc1"
    using isolate_freepages_loop_same [of cc K z "migrate_pfn cc + pageblock_nr_pages K"
            "zone_start_pfn z + spanned_pages z" "free_pfn cc"
            "min (migrate_pfn cc + pageblock_nr_pages K) (free_pfn cc)" "nr_freepages cc" w] l
    by simp
  then show ?thesis
    by (simp add: isolate_freepages_def Let_def l same_request_def)
qed

lemma compaction_alloc_same:
  "same_request (fst s) (fst (snd (compaction_alloc K s)))"
proof -
  let ?r = "(if freepages (fst s) = [] then isolate_freepages K (zone (fst s)) (fst s) (snd s) else s)"
  have r: "same_request (fst s) (fst ?r)"
    using isolate_freepages_same [of "fst s" K "zone (fst s)" "snd s"] by simp
  show ?thesis
  proof (cases "freepages (fst ?r)")
    case Nil
    then show ?thesis using r by (simp add: compaction_alloc_def Let_def)
  next
    case (Cons a list)
    then have "fst (snd (compaction_alloc K s))
                 = (fst ?r)\<lparr>freepages := list, nr_freepages := nr_freepages (fst ?r) - 1\<rparr>"
      by (simp add: compaction_alloc_def Let_def)
    then show ?thesis using r by (simp add: same_request_def)
  qed
qed

lemma isolate_migratepages_frame:
  assumes "isolate_migratepages K z cc w = Some (res, cc', w')"
  shows "same_request cc cc'"
    and "freepages cc' = freepages cc \<and> nr_freepages cc' = nr_freepages cc
         \<and> free_pfn cc' = free_pfn cc \<and> page cc' = page cc"
    and "res \<noteq> ISOLATE_SUCCESS \<Longrightarrow>
           migratepages cc' = migratepages cc \<and> nr_migratepages cc' = nr_migratepages cc"
proof -
  let ?low = "max (migrate_pfn cc) (zone_start_pfn z)"
  let ?end = "ALIGN (?low + pageblock_nr_pages K) (pageblock_nr_pages K)"
  have "same_request cc cc'
        \<and> (freepages cc' = freepages cc \<and> nr_freepages cc' = nr_freepages cc
            \<and> free_pfn cc' = free_pfn cc \<and> page cc' = page cc)
        \<and> (res \<noteq> ISOLATE_SUCCESS \<longrightarrow>
           migratepages cc' = migratepages cc \<and> nr_migratepages cc' = nr_migratepages cc)"
  proof (cases "?end > free_pfn cc \<or> \<not> pfn_valid K w ?low")
    case True
    with assms have "res = ISOLATE_NONE \<and> cc' = cc\<lparr>migrate_pfn := ?end\<rparr>"
      by (auto simp: isolate_migratepages_def Let_def)
    then show ?thesis by (simp add: same_request_def)
  next
    case False
    with assms obtain r cc1 w1 where
      rg: "isolate_migratepages_range K z cc ?low ?end w = Some (r, cc1, w1)"
      and res: "(res, cc', w') = (if r = 0 then (ISOLATE_ABORT, cc1, w1)
                  else (ISOLATE_SUCCESS, cc1\<lparr>migrate_pfn := r\<rparr>, w1))"
      by (auto simp: isolate_migratepages_def Let_def split: option.splits if_splits)
    from range_frame [OF rg]
    have f: "scan_frame cc cc1"
      and l: "r = 0 \<longrightarrow> migratepages cc1 = migratepages cc \<and> nr_migratepages cc1 = nr_migratepages cc"
      by simp_all
    from res f l show ?thesis
      by (auto simp: scan_frame_def same_request_def split: if_splits)
  qed
  then show "same_request cc cc'"
    and "freepages cc' = freepages cc \<and> nr_freepages cc' = nr_freepages cc
         \<and> free_pfn cc' = free_pfn cc \<and> page cc' = page cc"
    and "res \<noteq> ISOLATE_SUCCESS \<Longrightarrow>
           migratepages cc' = migratepages cc \<and> nr_migratepages cc' = nr_migratepages cc"
    by blast+
qed

subsection \<open>The main loop of the zone driver\<close>

lemma update_nr_listpages_inv:
  "nr_freepages (update_nr_listpages cc) = of_nat (length (freepages (update_nr_listpages cc)))"
  "nr_migratepages (update_nr_listpages cc) = of_nat (length (migratepages cc))"
  "migratepages (update_nr_listpages cc) = migratepages cc"
  "freepages (update_nr_listpages cc) = freepages cc"
  "order (update_nr_listpages cc) = order cc"
  by (simp_all add: update_nr_listpages_def)

lemma loop_inv_same_lists: "same_lists a b \<Longrightarrow> loop_inv a \<Longrightarrow> loop_inv b"
  by (simp add: same_lists_def loop_inv_def)

lemma zone_loop_props:
  assumes "compact_zone_loop K z cc w = Some y"
    and "migrate_pages_contract K" and "loop_inv cc"
  shows "loop_inv (fst (snd y)) \<and> order (fst (snd y)) = order cc
         \<and> (order cc = - 1 \<longrightarrow>
              (fst y = COMPACT_COMPLETE \<and> free_pfn (fst (snd y)) \<le> migrate_pfn (fst (snd y)))
              \<or> fst y = COMPACT_PARTIAL)"
  using assms
proof (induction K z cc w y rule: compact_zone_loop.raw_induct [rotated 1, consumes 1])
  case (1 f K z cc w y)
  note con = "1.prems"(1) and inv = "1.prems"(2) and eq = "1.hyps"
  show ?case
  proof (cases "compact_finished K z cc w \<noteq> COMPACT_CONTINUE")
    case True
    with eq have y: "y = (compact_finished K z cc w, cc, w)" by simp
    have "order cc = - 1 \<longrightarrow>
            (compact_finished K z cc w = COMPACT_COMPLETE \<and> free_pfn cc \<le> migrate_pfn cc)
            \<or> compact_finished K z cc w = COMPACT_PARTIAL"
      using True by (auto simp: compact_finished_def split: if_splits)
    with inv show ?thesis by (simp add: y)
  next
    case nf: False
    show ?thesis
    proof (cases "isolate_migratepages K z cc w")
      case None
      with eq nf show ?thesis by simp
    next
      case (Some t)
      obtain res cc1 w1 where t: "t = (res, cc1, w1)" using prod_cases3 by blast
      note im = Some [unfolded t]
      note fr = isolate_migratepages_frame [OF im]
      have o1: "order cc1 = order cc" using fr(1) by (simp add: same_request_def)
      show ?thesis
      proof (cases res)
        case ISOLATE_ABORT
        with eq nf im have y: "y = (COMPACT_PARTIAL, cc1, w1)" by simp
        have "loop_inv cc1" using fr(2) fr(3) ISOLATE_ABORT inv by (simp add: loop_inv_def)
        with o1 show ?thesis by (simp add: y)
      next
        case ISOLATE_NONE
        with eq nf im have r: "f K z cc1 w1 = Some y" by simp
        have i1: "loop_inv cc1" using fr(2) fr(3) ISOLATE_NONE inv by (simp add: loop_inv_def)
        from "1.IH" [OF r con i1] o1 show ?thesis by simp
      next
        case ISOLATE_SUCCESS
        let ?m = "migrate_pages K (compaction_alloc K) False
                        (if sync cc1 then MIGRATE_SYNC_LIGHT else MIGRATE_ASYNC) (cc1, w1)"
        let ?err = "fst ?m"
        let ?cc2 = "update_nr_listpages (fst (snd ?m))"
        let ?cc3 = "(if ?err \<noteq> 0 then ?cc2\<lparr>migratepages := [], nr_migratepages := 0\<rparr> else ?cc2)"
        from eq nf im ISOLATE_SUCCESS
        obtain w6 where br:
          "(if ?err \<noteq> 0 \<and> ?err = - ENOMEM then Some (COMPACT_PARTIAL, ?cc3, w6)
            else f K z (fst (compact_capture_page K ?cc3 w6)) (snd (compact_capture_page K ?cc3 w6)))
           = Some y"
          by (simp add: Let_def)
        from con have c1: "?err = 0 \<longrightarrow> migratepages (fst (snd ?m)) = []"
          and c2: "order (fst (snd ?m)) = order cc1"
          unfolding migrate_pages_contract_def by blast+
        have i3: "loop_inv ?cc3"
          using c1 by (simp add: loop_inv_def update_nr_listpages_def)
        have o3: "order ?cc3 = order cc"
          using c2 o1 by (simp add: update_nr_listpages_def)
        show ?thesis
        proof (cases "?err \<noteq> 0 \<and> ?err = - ENOMEM")
          case True
          with br have y: "y = (COMPACT_PARTIAL, ?cc3, w6)" by simp
          show ?thesis unfolding y using i3 o3 by simp
        next
          case False
          let ?cap = "compact_capture_page K ?cc3 w6"
          from br False have r: "f K z (fst ?cap) (snd ?cap) = Some y" by simp
          note cp = capture_page_same [of ?cc3 K w6]
          have i4: "loop_inv (fst ?cap)" using cp i3 loop_inv_same_lists by blast
          have o4: "order (fst ?cap) = order cc" using cp o3 by (simp add: same_request_def)
          from "1.IH" [OF r con i4] o4 show ?thesis by simp
        qed
      qed
    qed
  qed
qed

lemma compact_zone_props:
  assumes "migrate_pages_contract K"
    and "freepages cc = [] \<and> migratepages cc = [] \<and> nr_freepages cc = 0 \<and> nr_migratepages cc = 0"
    and "compact_zone K z cc w = Some (ret, cc', w')"
  shows "freepages cc' = [] \<and> nr_freepages cc' = 0 \<and> migratepages cc' = [] \<and> nr_migratepages cc' = 0"
    and "order cc' = order cc"
proof -
  let ?cc3 = "cc\<lparr>migrate_pfn := zone_start_pfn z,
                  free_pfn := zone_start_pfn z + spanned_pages z
                     - (zone_start_pfn z + spanned_pages z) mod pageblock_nr_pages K\<rparr>"
  have "(freepages cc' = [] \<and> nr_freepages cc' = 0 \<and> migratepages cc' = [] \<and> nr_migratepages cc' = 0)
        \<and> order cc' = order cc"
  proof (cases "compaction_suitable K z (order cc) w = COMPACT_PARTIAL
                \<or> compaction_suitable K z (order cc) w = COMPACT_SKIPPED")
    case True
    with assms(3) have "cc' = cc" by (auto simp: compact_zone_def Let_def)
    with assms(2) show ?thesis by simp
  next
    case False
    with assms(3) obtain cc4 w1 where
      l: "compact_zone_loop K z ?cc3 (migrate_prep_local K w) = Some (ret, cc4, w1)"
      and c: "cc' = cc4\<lparr>freepages := [], nr_freepages := nr_freepages cc4 - of_nat (length (freepages cc4))\<rparr>"
      by (auto simp: compact_zone_def Let_def release_freepages_eq split: option.splits)
    have "loop_inv ?cc3" using assms(2) by (simp add: loop_inv_def)
    from zone_loop_props [OF l assms(1) this]
    have "loop_inv cc4" and "order cc4 = order cc" by simp_all
    then show ?thesis unfolding c by (simp add: loop_inv_def)
  qed
  then show "freepages cc' = [] \<and> nr_freepages cc' = 0 \<and> migratepages cc' = [] \<and> nr_migratepages cc' = 0"
    and "order cc' = order cc" by blast+
qed

subsection \<open>Runs on the reference machine\<close>

lemma machine_migrate_props:
  "machine_migrate (compaction_alloc K) ps s = (err, cc', w') \<Longrightarrow>
     (err = 0 \<longrightarrow> migratepages cc' = []) \<and> order cc' = order (fst s)"
proof (induction ps arbitrary: s err cc' w')
  case Nil
  then show ?case by auto
next
  case (Cons p ps)
  obtain d cc w where cb: "compaction_alloc K s = (d, cc, w)" using prod_cases3 by blast
  have o: "order cc = order (fst s)"
    using compaction_alloc_same [of s K] cb by (simp add: same_request_def)
  show ?case
  proof (cases d)
    case None
    with Cons.prems cb o show ?thesis by (auto simp: ENOMEM_def)
  next
    case (Some dest)
    with Cons.prems cb obtain w2 where "machine_migrate (compaction_alloc K) ps (cc, w2) = (err, cc', w')"
      by auto
    from Cons.IH [OF this] o show ?thesis by simp
  qed
qed

lemma machine_contract: "migrate_pages_contract (machine_kernel mo pbo)"
proof -
  have "\<And>cc w. (fst (machine_migrate (compaction_alloc (machine_kernel mo pbo)) (migratepages cc) (cc, w)) = 0
           \<longrightarrow> migratepages (fst (snd (machine_migrate (compaction_alloc (machine_kernel mo pbo)) (migratepages cc) (cc, w)))) = [])
        \<and> order (fst (snd (machine_migrate (compaction_alloc (machine_kernel mo pbo)) (migratepages cc) (cc, w)))) = order cc"
  proof -
    fix cc w
    obtain err cc' w' where e: "machine_migrate (compaction_alloc (machine_kernel mo pbo)) (migratepages cc) (cc, w) = (err, cc', w')"
      using prod_cases3 by blast
    from machine_migrate_props [OF e] show "(fst (machine_migrate (compaction_alloc (machine_kernel mo pbo)) (migratepages cc) (cc, w)) = 0
           \<longrightarrow> migratepages (fst (snd (machine_migrate (compaction_alloc (machine_kernel mo pbo)) (migratepages cc) (cc, w)))) = [])
        \<and> order (fst (snd (machine_migrate (compaction_alloc (machine_kernel mo pbo)) (migratepages cc) (cc, w)))) = order cc"
      by (simp add: e)
  qed
  then show ?thesis by (simp add: migrate_pages_contract_def)
qed

lemmas eval_defs =
  compact_zone_def compact_zone_loop.simps compaction_suitable_def compact_finished_def
  isolate_migratepages_def isolate_migratepages_range.simps isolate_migratepages_range_loop.simps
  isolate_migratepages_range_body_def compact_checklock_irqsave_def compact_trylock_irqsave_def
  too_many_isolated_def acct_isolated_def machine_mod_zone_page_state_def
  machine_split_free_page_def machine_free_page_def machine_capture_free_page_def
  compaction_alloc_def isolate_freepages_def isolate_freepages_loop.simps
  suitable_migration_target_def migrate_async_suitable_def is_migrate_cma_def
  isolate_freepages_block_def isolate_freepages_block_loop.simps
  update_nr_listpages_def compact_capture_page_def
  ALIGN_def pageblock_nr_pages_def MAX_ORDER_NR_PAGES_def COMPACT_CLUSTER_MAX_def
  migratetype_defs compact_status_defs ENOMEM_def Let_def
  zero_compact_control_def empty_machine_def run_summary_def

lemma run_summary_Some:
  "run_summary r = Some (a, b, c, d, e, f, g) \<Longrightarrow>
   \<exists>cc w. r = Some (a, cc, w) \<and> migrate_pfn cc = b \<and> free_pfn cc = c \<and> freepages cc = d
          \<and> migratepages cc = e \<and> nr_freepages cc = f \<and> nr_migratepages cc = g"
  by (auto simp: run_summary_def)

lemma tiny_run:
  "run_summary (compact_zone (machine_kernel 3 2) tiny_zone tiny_cc tiny_machine)
      = Some (COMPACT_PARTIAL, 4, 8, [], [], 0, 0)"
  by (simp add: eval_defs tiny_zone_def tiny_machine_def tiny_cc_def)



subsection \<open>Exit of a zone run\<close>



subsection \<open>Greedy mode\<close>













subsection \<open>Multi-node driver\<close>

text \<open>
  The backpressure wait of a synchronous caller ends only when the zone is no longer over
  its isolation limit or a fatal signal is pending after a wait. When neither ever happens
  the call of \<open>isolate_migratepages_range\<close> does not return.
\<close>

lemma wait_returns:
  assumes "isolate_migratepages_range K z cc lo hi w = Some y" and "sync cc"
  shows "\<exists>n. \<not> too_many_isolated K z ((congestion_wait K ^^ n) w)
             \<or> fatal_signal_pending K ((congestion_wait K ^^ Suc n) w)"
  using assms
proof (induction K z cc lo hi w y rule: isolate_migratepages_range.raw_induct [rotated 1, consumes 1])
  case (1 f K z cc lo hi w y)
  show ?case
  proof (cases "too_many_isolated K z w")
    case False
    then have "\<not> too_many_isolated K z ((congestion_wait K ^^ 0) w)" by simp
    then show ?thesis by blast
  next
    case tm: True
    show ?thesis
    proof (cases "fatal_signal_pending K (congestion_wait K w)")
      case True
      then have "fatal_signal_pending K ((congestion_wait K ^^ Suc 0) w)" by simp
      then show ?thesis by blast
    next
      case False
      with "1.hyps" tm "1.prems" have "f K z cc lo hi (congestion_wait K w) = Some y" by simp
      from "1.IH" [OF this "1.prems"] obtain n where
        "\<not> too_many_isolated K z ((congestion_wait K ^^ n) (congestion_wait K w))
         \<or> fatal_signal_pending K ((congestion_wait K ^^ Suc n) (congestion_wait K w))"
        by blast
      then have "\<not> too_many_isolated K z ((congestion_wait K ^^ Suc n) w)
         \<or> fatal_signal_pending K ((congestion_wait K ^^ Suc (Suc n)) w)"
        by (simp add: funpow_swap1)
      then show ?thesis by blast
    qed
  qed
qed

lemma wait_forever:
  "sync cc \<Longrightarrow>
   \<forall>n. too_many_isolated K z ((congestion_wait K ^^ n) w)
       \<and> \<not> fatal_signal_pending K ((congestion_wait K ^^ Suc n) w) \<Longrightarrow>
   isolate_migratepages_range K z cc lo hi w = None"
  using wait_returns [of K z cc lo hi w] by (cases "isolate_migratepages_range K z cc lo hi w") auto

lemma stuck_funpow: "(congestion_wait stuck_kernel ^^ n) w = w"
  by (induction n) (simp_all add: stuck_kernel_def)

lemma jammed_range:
  "sync cc \<Longrightarrow> isolate_migratepages_range stuck_kernel z cc lo hi jammed_machine = None"
  by (rule wait_forever)
     (simp_all add: stuck_funpow del: funpow.simps,
      simp add: stuck_kernel_def too_many_isolated_def jammed_machine_def tiny_machine_def
        empty_machine_def)

lemma jammed_facts:
  "pfn_valid stuck_kernel jammed_machine 0"
  "\<not> fatal_signal_pending stuck_kernel jammed_machine"
  "pageblock_nr_pages stuck_kernel = 4"
  "zone_start_pfn tiny_zone = 0" "spanned_pages tiny_zone = 8"
  "migrate_prep_local stuck_kernel jammed_machine = jammed_machine"
  "lru_add_drain_all stuck_kernel jammed_machine = jammed_machine"
  "online_nodes stuck_kernel jammed_machine = [0]"
  "populated_zone stuck_kernel tiny_zone"
  by (simp_all add: stuck_kernel_def jammed_machine_def tiny_machine_def tiny_zone_def
        empty_machine_def pageblock_nr_pages_def)

lemma jammed_loop:
  "sync cc \<Longrightarrow> order cc = - 1 \<Longrightarrow> migrate_pfn cc = 0 \<Longrightarrow> free_pfn cc = 8 \<Longrightarrow>
   compact_zone_loop stuck_kernel tiny_zone cc jammed_machine = None"
  by (subst compact_zone_loop.simps)
     (simp add: compact_finished_def isolate_migratepages_def jammed_range compact_status_defs
        jammed_facts ALIGN_def)

lemma jammed_zone:
  "sync cc \<Longrightarrow> order cc = - 1 \<Longrightarrow> compact_zone stuck_kernel tiny_zone cc jammed_machine = None"
proof -
  assume s: "sync cc" and o: "order cc = - 1"
  have "compact_zone_loop stuck_kernel tiny_zone
          (cc\<lparr>migrate_pfn := 0, free_pfn := 8\<rparr>) jammed_machine = None"
    using s o by (intro jammed_loop) simp_all
  then show ?thesis
    using o by (simp add: compact_zone_def compaction_suitable_def compact_status_defs jammed_facts)
qed

lemma jammed_node:
  "compact_node stuck_kernel 0 True tiny_nodes jammed_machine = None"
proof -
  have "compact_pgdat_zones stuck_kernel [tiny_zone]
          (zero_compact_control\<lparr>order := - 1, sync := True, page := None\<rparr>) jammed_machine = None"
    by (simp add: jammed_zone jammed_facts zero_compact_control_def Let_def)
  then show ?thesis
    by (simp add: compact_node_def compact_pgdat_cc_def tiny_nodes_def)
qed

lemma jammed_nodes:
  "compact_nodes stuck_kernel True tiny_nodes jammed_machine = None"
  using jammed_node by (simp add: compact_nodes_def jammed_facts)

text \<open>
  C10, the claim as stated fails. A machine with 5 pages isolated and nothing on the LRU, no
  fatal signal pending, and a congestion wait that changes nothing: the synchronous run on
  the first zone waits forever, so \<open>compact_nodes\<close> and the sysctl write handler do not
  return.
\<close>

theorem compact_nodes_need_not_return:
  "sync (zero_compact_control\<lparr>order := - 1, sync := True, page := None\<rparr>)
   \<and> too_many_isolated stuck_kernel tiny_zone jammed_machine
   \<and> congestion_wait stuck_kernel jammed_machine = jammed_machine
   \<and> \<not> fatal_signal_pending stuck_kernel jammed_machine
   \<and> compact_nodes stuck_kernel True tiny_nodes jammed_machine = None
   \<and> sysctl_compaction_handler stuck_kernel 1 tiny_nodes jammed_machine = None"
  using jammed_nodes
  by (simp add: sysctl_compaction_handler_def)
     (simp add: stuck_kernel_def too_many_isolated_def jammed_machine_def tiny_machine_def
        empty_machine_def)

text \<open>
  C10, amended. A call of \<open>compact_nodes\<close> that returns returns \<open>COMPACT_COMPLETE\<close>,
  whatever the runs on the nodes and zones did, and the sysctl handler called for a write
  reports that value. The call returns exactly when the runs on the online nodes all
  return, one node after the other, each from the state the one before left; the value a
  node run returns is dropped. A run need not return: the migrate scan of a synchronous
  caller does not return when no wait brings the zone under its isolation limit and no
  fatal signal is pending after any wait.
\<close>

theorem compact_nodes_returns_complete:
  "(compact_nodes K is_sync NODE_DATA w = Some (r, NODE_DATA', w') \<longrightarrow> r = COMPACT_COMPLETE)
   \<and> (compact_nodes K is_sync NODE_DATA w \<noteq> None \<longleftrightarrow>
        compact_nodes_loop K is_sync (online_nodes K (lru_add_drain_all K w)) NODE_DATA
          (lru_add_drain_all K w) \<noteq> None)
   \<and> (wr \<noteq> 0 \<and> sysctl_compaction_handler K wr NODE_DATA w = Some (r, NODE_DATA', w')
        \<longrightarrow> r = COMPACT_COMPLETE)
   \<and> (compact_nodes_loop K is_sync (online_nodes K (lru_add_drain_all K w)) NODE_DATA
          (lru_add_drain_all K w) = Some (nds, wl) \<longrightarrow>
        compact_nodes K is_sync NODE_DATA w = Some (COMPACT_COMPLETE, nds, wl)
        \<and> (wr \<noteq> 0 \<longrightarrow> is_sync \<longrightarrow>
             sysctl_compaction_handler K wr NODE_DATA w = Some (COMPACT_COMPLETE, nds, wl)))
   \<and> (compact_node K nid is_sync NODE_DATA w = Some (rn, ndn, wn) \<longrightarrow>
        compact_nodes_loop K is_sync (nid # nids) NODE_DATA w
          = compact_nodes_loop K is_sync nids ndn wn)
   \<and> (compact_node K nid is_sync NODE_DATA w = None \<longrightarrow>
        compact_nodes_loop K is_sync (nid # nids) NODE_DATA w = None)
   \<and> (sync cc
        \<and> (\<forall>n. too_many_isolated K z ((congestion_wait K ^^ n) w)
                 \<and> \<not> fatal_signal_pending K ((congestion_wait K ^^ Suc n) w)) \<longrightarrow>
        isolate_migratepages_range K z cc lo hi w = None)"
proof -
  have a: "(compact_nodes K is_sync NODE_DATA w = Some (r, NODE_DATA', w') \<longrightarrow> r = COMPACT_COMPLETE)
   \<and> (compact_nodes K is_sync NODE_DATA w \<noteq> None \<longleftrightarrow>
        compact_nodes_loop K is_sync (online_nodes K (lru_add_drain_all K w)) NODE_DATA
          (lru_add_drain_all K w) \<noteq> None)
   \<and> (wr \<noteq> 0 \<and> sysctl_compaction_handler K wr NODE_DATA w = Some (r, NODE_DATA', w')
        \<longrightarrow> r = COMPACT_COMPLETE)
   \<and> (compact_nodes_loop K is_sync (online_nodes K (lru_add_drain_all K w)) NODE_DATA
          (lru_add_drain_all K w) = Some (nds, wl) \<longrightarrow>
        compact_nodes K is_sync NODE_DATA w = Some (COMPACT_COMPLETE, nds, wl)
        \<and> (wr \<noteq> 0 \<longrightarrow> is_sync \<longrightarrow>
             sysctl_compaction_handler K wr NODE_DATA w = Some (COMPACT_COMPLETE, nds, wl)))
   \<and> (compact_node K nid is_sync NODE_DATA w = Some (rn, ndn, wn) \<longrightarrow>
        compact_nodes_loop K is_sync (nid # nids) NODE_DATA w
          = compact_nodes_loop K is_sync nids ndn wn)
   \<and> (compact_node K nid is_sync NODE_DATA w = None \<longrightarrow>
        compact_nodes_loop K is_sync (nid # nids) NODE_DATA w = None)"
    by (auto simp: compact_nodes_def sysctl_compaction_handler_def split: option.splits)
  have b: "sync cc
        \<and> (\<forall>n. too_many_isolated K z ((congestion_wait K ^^ n) w)
                 \<and> \<not> fatal_signal_pending K ((congestion_wait K ^^ Suc n) w)) \<longrightarrow>
        isolate_migratepages_range K z cc lo hi w = None"
    using wait_forever [of cc K z w lo hi] by blast
  from a b show ?thesis by (elim conjE) (intro conjI; assumption)
qed

theorem compact_nodes_returns_complete_witness:
  "(\<exists>cc' w'. compact_zone (machine_kernel 3 2) tiny_zone tiny_cc tiny_machine
                = Some (COMPACT_PARTIAL, cc', w'))
   \<and> (\<exists>nd' w'. compact_node (machine_kernel 3 2) 0 True tiny_nodes tiny_machine = Some (0, nd', w')
                \<and> compact_nodes_loop (machine_kernel 3 2) True [0] tiny_nodes tiny_machine
                    = Some (nd', w')
                \<and> compact_nodes (machine_kernel 3 2) True tiny_nodes tiny_machine
                    = Some (COMPACT_COMPLETE, nd', w')
                \<and> sysctl_compaction_handler (machine_kernel 3 2) 1 tiny_nodes tiny_machine
                    = Some (COMPACT_COMPLETE, nd', w'))
   \<and> compact_node stuck_kernel 0 True tiny_nodes jammed_machine = None
   \<and> compact_nodes_loop stuck_kernel True [0] tiny_nodes jammed_machine = None
   \<and> sync tiny_cc \<and> too_many_isolated stuck_kernel tiny_zone jammed_machine
   \<and> congestion_wait stuck_kernel jammed_machine = jammed_machine
   \<and> \<not> fatal_signal_pending stuck_kernel jammed_machine
   \<and> isolate_migratepages_range stuck_kernel tiny_zone tiny_cc 0 4 jammed_machine = None"
proof -
  let ?K = "machine_kernel 3 2"
  let ?nd = "tiny_nodes(0 := \<lparr>node_zones = [tiny_zone]\<rparr>)"
  obtain cc' w' where run: "compact_zone ?K tiny_zone tiny_cc tiny_machine = Some (COMPACT_PARTIAL, cc', w')"
    using run_summary_Some [OF tiny_run] by blast
  have o: "order cc' = order tiny_cc"
    by (rule compact_zone_props(2) [OF machine_contract _ run])
       (simp add: tiny_cc_def zero_compact_control_def)
  have cceq: "zero_compact_control\<lparr>order := - 1, sync := True, page := None,
                nr_freepages := 0, nr_migratepages := 0, zone := tiny_zone,
                freepages := [], migratepages := []\<rparr> = tiny_cc"
    by (simp add: tiny_cc_def zero_compact_control_def)
  have pop: "populated_zone ?K tiny_zone" by (simp add: tiny_zone_def)
  have "compact_pgdat_zones ?K [tiny_zone] (zero_compact_control\<lparr>order := - 1, sync := True, page := None\<rparr>)
          tiny_machine = Some ([tiny_zone], cc', w')"
    using pop run o by (simp add: cceq tiny_cc_def zero_compact_control_def)
  then have node: "compact_node ?K 0 True tiny_nodes tiny_machine = Some (0, ?nd, w')"
    by (simp add: compact_node_def compact_pgdat_cc_def tiny_nodes_def)
  have "compact_nodes_loop ?K True [0] tiny_nodes tiny_machine
          = compact_nodes_loop ?K True [] ?nd w'"
    by (rule compact_nodes_returns_complete
          [where K = ?K and nid = 0 and is_sync = True and NODE_DATA = tiny_nodes
             and w = tiny_machine and rn = 0 and ndn = ?nd and wn = w' and nids = "[]",
           THEN conjunct2, THEN conjunct2, THEN conjunct2, THEN conjunct2, THEN conjunct1,
           THEN mp, OF node])
  then have lp: "compact_nodes_loop ?K True (online_nodes ?K (lru_add_drain_all ?K tiny_machine))
                   tiny_nodes (lru_add_drain_all ?K tiny_machine) = Some (?nd, w')"
    by simp
  have res: "compact_nodes ?K True tiny_nodes tiny_machine = Some (COMPACT_COMPLETE, ?nd, w')
        \<and> ((1::int) \<noteq> 0 \<longrightarrow> True \<longrightarrow>
             sysctl_compaction_handler ?K 1 tiny_nodes tiny_machine = Some (COMPACT_COMPLETE, ?nd, w'))"
    by (rule compact_nodes_returns_complete
          [where K = ?K and is_sync = True and NODE_DATA = tiny_nodes and w = tiny_machine
             and nds = ?nd and wl = w' and wr = 1,
           THEN conjunct2, THEN conjunct2, THEN conjunct2, THEN conjunct1, THEN mp, OF lp])
  have cn: "compact_nodes ?K True tiny_nodes tiny_machine = Some (COMPACT_COMPLETE, ?nd, w')"
    using res by blast
  have sy: "sysctl_compaction_handler ?K 1 tiny_nodes tiny_machine = Some (COMPACT_COMPLETE, ?nd, w')"
    using res by simp
  have lp': "compact_nodes_loop ?K True [0] tiny_nodes tiny_machine = Some (?nd, w')"
    using lp by simp
  have v1: "COMPACT_COMPLETE = COMPACT_COMPLETE"
    by (rule compact_nodes_returns_complete
          [where K = ?K and is_sync = True and NODE_DATA = tiny_nodes and w = tiny_machine
             and r = COMPACT_COMPLETE and NODE_DATA' = ?nd and w' = w',
           THEN conjunct1, THEN mp, OF cn])
  have one: "(1::int) \<noteq> 0" by simp
  have v3: "COMPACT_COMPLETE = COMPACT_COMPLETE"
    by (rule compact_nodes_returns_complete
          [where K = ?K and wr = 1 and NODE_DATA = tiny_nodes and w = tiny_machine
             and r = COMPACT_COMPLETE and NODE_DATA' = ?nd and w' = w',
           THEN conjunct2, THEN conjunct2, THEN conjunct1, THEN mp, OF conjI [OF one sy]])
  have jl: "compact_nodes_loop stuck_kernel True [0] tiny_nodes jammed_machine = None"
    by (rule compact_nodes_returns_complete
          [where K = stuck_kernel and nid = 0 and is_sync = True and NODE_DATA = tiny_nodes
             and w = jammed_machine and nids = "[]",
           THEN conjunct2, THEN conjunct2, THEN conjunct2, THEN conjunct2, THEN conjunct2,
           THEN conjunct1, THEN mp, OF jammed_node])
  have jf: "sync tiny_cc" "too_many_isolated stuck_kernel tiny_zone jammed_machine"
    "congestion_wait stuck_kernel jammed_machine = jammed_machine"
    "\<not> fatal_signal_pending stuck_kernel jammed_machine"
    by (simp_all add: tiny_cc_def zero_compact_control_def stuck_kernel_def too_many_isolated_def
          jammed_machine_def tiny_machine_def empty_machine_def)
  have ever: "sync tiny_cc
        \<and> (\<forall>n. too_many_isolated stuck_kernel tiny_zone
                   ((congestion_wait stuck_kernel ^^ n) jammed_machine)
                 \<and> \<not> fatal_signal_pending stuck_kernel
                       ((congestion_wait stuck_kernel ^^ Suc n) jammed_machine))"
    using jf by (simp add: stuck_funpow del: funpow.simps)
  have jr: "isolate_migratepages_range stuck_kernel tiny_zone tiny_cc 0 4 jammed_machine = None"
    by (rule compact_nodes_returns_complete
          [where K = stuck_kernel and z = tiny_zone and cc = tiny_cc and w = jammed_machine
             and lo = 0 and hi = 4,
           THEN conjunct2, THEN conjunct2, THEN conjunct2, THEN conjunct2, THEN conjunct2,
           THEN conjunct2, THEN mp, OF ever])
  from run node lp' cn sy have ret: "(\<exists>cc' w'. compact_zone ?K tiny_zone tiny_cc tiny_machine
                = Some (COMPACT_PARTIAL, cc', w'))
   \<and> (\<exists>nd' w'. compact_node ?K 0 True tiny_nodes tiny_machine = Some (0, nd', w')
                \<and> compact_nodes_loop ?K True [0] tiny_nodes tiny_machine = Some (nd', w')
                \<and> compact_nodes ?K True tiny_nodes tiny_machine = Some (COMPACT_COMPLETE, nd', w')
                \<and> sysctl_compaction_handler ?K 1 tiny_nodes tiny_machine
                    = Some (COMPACT_COMPLETE, nd', w'))"
    by blast
  from ret jammed_node jl jf jr show ?thesis by (elim conjE) (intro conjI; assumption)
qed

subsection \<open>Zone-list entry point\<close>

lemma try_zones_max:
  "try_to_compact_zones K zs ord gfp_mask is_sync rc c p w = Some (r, c', p', w') \<Longrightarrow>
   \<exists>sts. per_zone_statuses K zs ord gfp_mask is_sync c p w = Some sts
         \<and> r = Max (insert rc (set sts)) \<and> length sts \<le> length zs"
proof (induction zs arbitrary: rc c p w)
  case Nil
  then show ?case by simp
next
  case (Cons z zs)
  from Cons.prems obtain status c1 p1 w1 where
    czo: "compact_zone_order K z ord gfp_mask is_sync c p w = Some (status, c1, p1, w1)"
    by (auto split: option.splits)
  show ?case
  proof (cases "zone_watermark_ok K w1 z ord (low_wmark_pages K w1 z) 0 0")
    case True
    with Cons.prems czo have "r = max status rc" by simp
    with True czo show ?thesis by (simp add: max.commute)
  next
    case False
    with Cons.prems czo have
      "try_to_compact_zones K zs ord gfp_mask is_sync (max status rc) c1 p1 w1 = Some (r, c', p', w')"
      by simp
    from Cons.IH [OF this] obtain sts where
      s: "per_zone_statuses K zs ord gfp_mask is_sync c1 p1 w1 = Some sts"
      and r: "r = Max (insert (max status rc) (set sts))" and l: "length sts \<le> length zs"
      by blast
    have "Max (insert (max status rc) (set sts)) = Max (insert rc (set (status # sts)))"
    proof -
      have "insert rc (set (status # sts)) = insert rc (insert status (set sts))" by simp
      moreover have "Max (insert rc (insert status (set sts))) = max rc (Max (insert status (set sts)))"
        by (rule Max_insert) simp_all
      moreover have "Max (insert (max status rc) (set sts)) = max rc (Max (insert status (set sts)))"
      proof (cases "set sts = {}")
        case True
        then show ?thesis by (simp add: max.commute)
      next
        case False
        then show ?thesis by (simp add: max.assoc max.commute max.left_commute)
      qed
      ultimately show ?thesis by simp
    qed
    with s r l False czo show ?thesis by simp
  qed
qed

lemma compact_finished_range:
  "compact_finished K z cc w = COMPACT_CONTINUE \<or> compact_finished K z cc w = COMPACT_PARTIAL
   \<or> compact_finished K z cc w = COMPACT_COMPLETE"
  by (simp add: compact_finished_def compact_finished_scan_eq Let_def split: option.splits)

lemma zone_loop_status:
  assumes "compact_zone_loop K z cc w = Some y"
  shows "fst y = COMPACT_PARTIAL \<or> fst y = COMPACT_COMPLETE"
  using assms
proof (induction K z cc w y rule: compact_zone_loop.raw_induct [rotated 1, consumes 1])
  case (1 f K z cc w y)
  note eq = "1.hyps"
  show ?case
  proof (cases "compact_finished K z cc w \<noteq> COMPACT_CONTINUE")
    case True
    with eq have "fst y = compact_finished K z cc w" by auto
    with True compact_finished_range [of K z cc w] show ?thesis by simp
  next
    case nf: False
    show ?thesis
    proof (cases "isolate_migratepages K z cc w")
      case None
      with eq nf show ?thesis by simp
    next
      case (Some t)
      obtain res c1 w1 where t: "t = (res, c1, w1)" using prod_cases3 by blast
      note im = Some [unfolded t]
      show ?thesis
      proof (cases res)
        case ISOLATE_ABORT
        with eq nf im show ?thesis by auto
      next
        case ISOLATE_NONE
        with eq nf im have "f K z c1 w1 = Some y" by simp
        then show ?thesis by (rule "1.IH")
      next
        case ISOLATE_SUCCESS
        let ?m = "migrate_pages K (compaction_alloc K) False
                        (if sync c1 then MIGRATE_SYNC_LIGHT else MIGRATE_ASYNC) (c1, w1)"
        let ?err = "fst ?m"
        let ?cc2 = "update_nr_listpages (fst (snd ?m))"
        let ?cc3 = "(if ?err \<noteq> 0 then ?cc2\<lparr>migratepages := [], nr_migratepages := 0\<rparr> else ?cc2)"
        from eq nf im ISOLATE_SUCCESS
        obtain w6 where br:
          "(if ?err \<noteq> 0 \<and> ?err = - ENOMEM then Some (COMPACT_PARTIAL, ?cc3, w6)
            else f K z (fst (compact_capture_page K ?cc3 w6)) (snd (compact_capture_page K ?cc3 w6)))
           = Some y"
          by (simp add: Let_def)
        show ?thesis
        proof (cases "?err \<noteq> 0 \<and> ?err = - ENOMEM")
          case True
          with br show ?thesis by auto
        next
          case False
          with br have "f K z (fst (compact_capture_page K ?cc3 w6))
                          (snd (compact_capture_page K ?cc3 w6)) = Some y" by simp
          then show ?thesis by (rule "1.IH")
        qed
      qed
    qed
  qed
qed

lemma zone_order_status:
  assumes "compact_zone_order K z ord gfp_mask is_sync c p w = Some (status, c', p', w')"
  shows "COMPACT_SKIPPED \<le> status"
proof -
  from assms obtain cc cc' where
    cz: "compact_zone K z cc w = Some (status, cc', w')"
    by (auto simp: compact_zone_order_def split: option.splits)
  show ?thesis
  proof (cases "compaction_suitable K z (order cc) w = COMPACT_PARTIAL
                \<or> compaction_suitable K z (order cc) w = COMPACT_SKIPPED")
    case True
    with cz show ?thesis by (auto simp: compact_zone_def Let_def compact_status_defs)
  next
    case False
    with cz obtain cl wl cini wini where "compact_zone_loop K z cini wini = Some (status, cl, wl)"
      by (auto simp: compact_zone_def Let_def split: option.splits prod.splits)
    from zone_loop_status [OF this] show ?thesis by (auto simp: compact_status_defs)
  qed
qed

lemma per_zone_statuses_lower:
  "per_zone_statuses K zs ord gfp_mask is_sync c p w = Some sts \<Longrightarrow>
   \<forall>s\<in>set sts. COMPACT_SKIPPED \<le> s"
proof (induction zs arbitrary: c p w sts)
  case Nil
  then show ?case by simp
next
  case (Cons z zs)
  from Cons.prems obtain status cz pz wz where
    czo: "compact_zone_order K z ord gfp_mask is_sync c p w = Some (status, cz, pz, wz)"
    by (auto split: option.splits)
  note lo = zone_order_status [OF czo]
  show ?case
  proof (cases "zone_watermark_ok K wz z ord (low_wmark_pages K wz z) 0 0")
    case True
    with Cons.prems czo lo show ?thesis by auto
  next
    case False
    with Cons.prems czo obtain rest where
      r: "per_zone_statuses K zs ord gfp_mask is_sync cz pz wz = Some rest" and s: "sts = status # rest"
      by auto
    from Cons.IH [OF r] lo s show ?thesis by simp
  qed
qed

lemma max_statuses:
  assumes "per_zone_statuses K zs ord gfp_mask is_sync c p w = Some sts" and "sts \<noteq> []"
  shows "Max (insert COMPACT_SKIPPED (set sts)) = Max (set sts)"
proof -
  from assms(2) obtain s where s: "s \<in> set sts" by (cases sts) auto
  with per_zone_statuses_lower [OF assms(1)] have "COMPACT_SKIPPED \<le> s" by blast
  also have "s \<le> Max (set sts)" using s by simp
  finally have "max COMPACT_SKIPPED (Max (set sts)) = Max (set sts)" by simp
  moreover have "Max (insert COMPACT_SKIPPED (set sts)) = max COMPACT_SKIPPED (Max (set sts))"
    using assms(2) by (intro Max_insert) simp_all
  ultimately show ?thesis by simp
qed

lemma try_zones_None:
  "try_to_compact_zones K zs ord gfp_mask is_sync rc c p w = None
     \<longleftrightarrow> per_zone_statuses K zs ord gfp_mask is_sync c p w = None"
  by (induction zs arbitrary: rc c p w) (auto split: option.splits)

lemma try_zones_produced:
  assumes "per_zone_statuses K zs ord gfp_mask is_sync c p w = Some sts"
  shows "\<exists>c' p' w'. try_to_compact_zones K zs ord gfp_mask is_sync rc c p w
                       = Some (Max (insert rc (set sts)), c', p', w')"
proof -
  from assms have "try_to_compact_zones K zs ord gfp_mask is_sync rc c p w \<noteq> None"
    by (simp add: try_zones_None)
  then obtain r c' p' w' where
    t: "try_to_compact_zones K zs ord gfp_mask is_sync rc c p w = Some (r, c', p', w')"
    by (metis not_None_eq prod_cases4)
  from try_zones_max [OF t] assms have "r = Max (insert rc (set sts))" by auto
  with t show ?thesis by blast
qed

lemma picky_order_skipped:
  "compact_zone_order picky_kernel zone0 3 0xC0 True None None satisfied_machine
     = Some (COMPACT_SKIPPED, None, None, satisfied_machine)"
  by (simp add: compact_zone_order_def compact_zone_def compaction_suitable_def picky_kernel_def
        zone0_def satisfied_machine_def empty_machine_def compact_status_defs Let_def)

lemma picky_order_partial:
  "compact_zone_order picky_kernel zone1 3 0xC0 True None None satisfied_machine
     = Some (COMPACT_PARTIAL, None, None, satisfied_machine)"
  by (simp add: compact_zone_order_def compact_zone_def compaction_suitable_def picky_kernel_def
        zone0_def zone1_def satisfied_machine_def empty_machine_def compact_status_defs Let_def)

lemma starved_facts:
  "pfn_valid stuck_kernel starved_machine 0"
  "\<not> fatal_signal_pending stuck_kernel starved_machine"
  "too_many_isolated stuck_kernel tiny_zone starved_machine"
  "pageblock_nr_pages stuck_kernel = 4"
  "migrate_prep_local stuck_kernel starved_machine = starved_machine"
  "allocflags_to_migratetype stuck_kernel g = MIGRATE_MOVABLE"
  "low_wmark_pages stuck_kernel starved_machine tiny_zone = 0"
  "zone_watermark_ok stuck_kernel starved_machine tiny_zone ord mark ci af = (ord = 0)"
  "fragmentation_index stuck_kernel starved_machine tiny_zone ord = 600"
  "sysctl_extfrag_threshold stuck_kernel starved_machine = 500"
  "zone_start_pfn tiny_zone = 0" "spanned_pages tiny_zone = 8"
  by (simp_all add: stuck_kernel_def starved_machine_def jammed_machine_def tiny_machine_def
        tiny_zone_def empty_machine_def pageblock_nr_pages_def too_many_isolated_def)

lemma starved_range:
  "sync cc \<Longrightarrow> isolate_migratepages_range stuck_kernel tiny_zone cc lo hi starved_machine = None"
  by (rule wait_forever) (simp_all add: stuck_funpow starved_facts del: funpow.simps)

lemma starved_order:
  "compact_zone_order stuck_kernel tiny_zone 1 0xC0 True None None starved_machine = None"
proof -
  let ?cc = "\<lparr>freepages = [], migratepages = [], nr_freepages = 0, nr_migratepages = 0,
              free_pfn = 8, migrate_pfn = 0, sync = True, order = 1,
              migratetype = MIGRATE_MOVABLE, zone = tiny_zone,
              contended = None, page = None\<rparr>"
  have "compact_zone_loop stuck_kernel tiny_zone ?cc starved_machine = None"
    by (subst compact_zone_loop.simps)
       (simp add: compact_finished_def isolate_migratepages_def starved_range starved_facts
          compact_status_defs ALIGN_def Let_def)
  then show ?thesis
    by (simp add: compact_zone_order_def compact_zone_def compaction_suitable_def starved_facts
          compact_status_defs Let_def)
qed

text \<open>
  C8. \<open>try_to_compact_pages\<close> returns SKIPPED with nothing changed when the order is 0
  or the GFP mask lacks \<open>__GFP_FS\<close> or \<open>__GFP_IO\<close>. Otherwise it counts a stall and
  walks the filtered zonelist. The walk runs the zone driver on a zone; it stops there when
  the low watermark of that zone is satisfied for the order after the run, goes on with the
  next zone otherwise, and does not return when the run does not. The walk returns exactly
  when the per-zone runs return, and the value it returns is the maximum of SKIPPED and the
  per-zone statuses; no status is below SKIPPED, so with at least one zone walked it is the
  maximum of the per-zone statuses.
\<close>

theorem try_to_compact_pages_result:
  "(ord = 0 \<or> gfp_mask AND GFP_FS K = 0 \<or> gfp_mask AND GFP_IO K = 0 \<longrightarrow>
      try_to_compact_pages K zonelist ord gfp_mask nodemask is_sync c p w
        = Some (COMPACT_SKIPPED, c, p, w))
   \<and> (\<not> (ord = 0 \<or> gfp_mask AND GFP_FS K = 0 \<or> gfp_mask AND GFP_IO K = 0) \<longrightarrow>
        try_to_compact_pages K zonelist ord gfp_mask nodemask is_sync c p w
          = try_to_compact_zones K (zonelist_zones K zonelist (gfp_zone K gfp_mask) nodemask)
              ord gfp_mask is_sync COMPACT_SKIPPED c p (count_vm_events K COMPACTSTALL 1 w))
   \<and> (try_to_compact_zones K zs ord gfp_mask is_sync rc c p w = Some (r, c', p', w') \<longrightarrow>
        (\<exists>sts. per_zone_statuses K zs ord gfp_mask is_sync c p w = Some sts
               \<and> r = Max (insert rc (set sts)) \<and> length sts \<le> length zs))
   \<and> (compact_zone_order K z ord gfp_mask is_sync c p w = Some (status, cz, pz, wz)
        \<and> zone_watermark_ok K wz z ord (low_wmark_pages K wz z) 0 0 \<longrightarrow>
        try_to_compact_zones K (z # zs) ord gfp_mask is_sync rc c p w
          = Some (max status rc, cz, pz, wz))
   \<and> (compact_zone_order K z ord gfp_mask is_sync c p w = Some (status, cz, pz, wz)
        \<and> \<not> zone_watermark_ok K wz z ord (low_wmark_pages K wz z) 0 0 \<longrightarrow>
        try_to_compact_zones K (z # zs) ord gfp_mask is_sync rc c p w
          = try_to_compact_zones K zs ord gfp_mask is_sync (max status rc) cz pz wz)
   \<and> (compact_zone_order K z ord gfp_mask is_sync c p w = None \<longrightarrow>
        try_to_compact_zones K (z # zs) ord gfp_mask is_sync rc c p w = None)
   \<and> (per_zone_statuses K zs ord gfp_mask is_sync c p w = Some sts \<longrightarrow>
        (\<exists>c' p' w'. try_to_compact_zones K zs ord gfp_mask is_sync rc c p w
                       = Some (Max (insert rc (set sts)), c', p', w')))
   \<and> (try_to_compact_zones K zs ord gfp_mask is_sync rc c p w = None
        \<longleftrightarrow> per_zone_statuses K zs ord gfp_mask is_sync c p w = None)
   \<and> (\<not> (ord = 0 \<or> gfp_mask AND GFP_FS K = 0 \<or> gfp_mask AND GFP_IO K = 0)
        \<and> per_zone_statuses K (zonelist_zones K zonelist (gfp_zone K gfp_mask) nodemask)
             ord gfp_mask is_sync c p (count_vm_events K COMPACTSTALL 1 w) = Some sts \<longrightarrow>
        (\<exists>c' p' w'. try_to_compact_pages K zonelist ord gfp_mask nodemask is_sync c p w
                       = Some (Max (insert COMPACT_SKIPPED (set sts)), c', p', w')))
   \<and> (\<not> (ord = 0 \<or> gfp_mask AND GFP_FS K = 0 \<or> gfp_mask AND GFP_IO K = 0)
        \<and> per_zone_statuses K (zonelist_zones K zonelist (gfp_zone K gfp_mask) nodemask)
             ord gfp_mask is_sync c p (count_vm_events K COMPACTSTALL 1 w) = Some sts
        \<and> sts \<noteq> [] \<longrightarrow>
        (\<exists>c' p' w'. try_to_compact_pages K zonelist ord gfp_mask nodemask is_sync c p w
                       = Some (Max (set sts), c', p', w')))"
proof -
  have a: "(ord = 0 \<or> gfp_mask AND GFP_FS K = 0 \<or> gfp_mask AND GFP_IO K = 0 \<longrightarrow>
      try_to_compact_pages K zonelist ord gfp_mask nodemask is_sync c p w
        = Some (COMPACT_SKIPPED, c, p, w))
   \<and> (\<not> (ord = 0 \<or> gfp_mask AND GFP_FS K = 0 \<or> gfp_mask AND GFP_IO K = 0) \<longrightarrow>
        try_to_compact_pages K zonelist ord gfp_mask nodemask is_sync c p w
          = try_to_compact_zones K (zonelist_zones K zonelist (gfp_zone K gfp_mask) nodemask)
              ord gfp_mask is_sync COMPACT_SKIPPED c p (count_vm_events K COMPACTSTALL 1 w))"
    by (simp add: try_to_compact_pages_def Let_def)
  have b: "try_to_compact_zones K zs ord gfp_mask is_sync rc c p w = Some (r, c', p', w') \<longrightarrow>
        (\<exists>sts. per_zone_statuses K zs ord gfp_mask is_sync c p w = Some sts
               \<and> r = Max (insert rc (set sts)) \<and> length sts \<le> length zs)"
    using try_zones_max [of K zs ord gfp_mask is_sync rc c p w r c' p' w'] by blast
  have c: "(compact_zone_order K z ord gfp_mask is_sync c p w = Some (status, cz, pz, wz)
        \<and> zone_watermark_ok K wz z ord (low_wmark_pages K wz z) 0 0 \<longrightarrow>
        try_to_compact_zones K (z # zs) ord gfp_mask is_sync rc c p w
          = Some (max status rc, cz, pz, wz))
   \<and> (compact_zone_order K z ord gfp_mask is_sync c p w = Some (status, cz, pz, wz)
        \<and> \<not> zone_watermark_ok K wz z ord (low_wmark_pages K wz z) 0 0 \<longrightarrow>
        try_to_compact_zones K (z # zs) ord gfp_mask is_sync rc c p w
          = try_to_compact_zones K zs ord gfp_mask is_sync (max status rc) cz pz wz)
   \<and> (compact_zone_order K z ord gfp_mask is_sync c p w = None \<longrightarrow>
        try_to_compact_zones K (z # zs) ord gfp_mask is_sync rc c p w = None)"
    by simp
  have d: "per_zone_statuses K zs ord gfp_mask is_sync c p w = Some sts \<longrightarrow>
        (\<exists>c' p' w'. try_to_compact_zones K zs ord gfp_mask is_sync rc c p w
                       = Some (Max (insert rc (set sts)), c', p', w'))"
    using try_zones_produced [of K zs ord gfp_mask is_sync c p w sts rc] by blast
  have e: "try_to_compact_zones K zs ord gfp_mask is_sync rc c p w = None
        \<longleftrightarrow> per_zone_statuses K zs ord gfp_mask is_sync c p w = None"
    by (rule try_zones_None)
  have f: "\<not> (ord = 0 \<or> gfp_mask AND GFP_FS K = 0 \<or> gfp_mask AND GFP_IO K = 0)
        \<and> per_zone_statuses K (zonelist_zones K zonelist (gfp_zone K gfp_mask) nodemask)
             ord gfp_mask is_sync c p (count_vm_events K COMPACTSTALL 1 w) = Some sts \<longrightarrow>
        (\<exists>c' p' w'. try_to_compact_pages K zonelist ord gfp_mask nodemask is_sync c p w
                       = Some (Max (insert COMPACT_SKIPPED (set sts)), c', p', w'))"
    using try_zones_produced [of K "zonelist_zones K zonelist (gfp_zone K gfp_mask) nodemask"
            ord gfp_mask is_sync c p "count_vm_events K COMPACTSTALL 1 w" sts COMPACT_SKIPPED]
    by (simp add: try_to_compact_pages_def Let_def)
  have g: "\<not> (ord = 0 \<or> gfp_mask AND GFP_FS K = 0 \<or> gfp_mask AND GFP_IO K = 0)
        \<and> per_zone_statuses K (zonelist_zones K zonelist (gfp_zone K gfp_mask) nodemask)
             ord gfp_mask is_sync c p (count_vm_events K COMPACTSTALL 1 w) = Some sts
        \<and> sts \<noteq> [] \<longrightarrow>
        (\<exists>c' p' w'. try_to_compact_pages K zonelist ord gfp_mask nodemask is_sync c p w
                       = Some (Max (set sts), c', p', w'))"
  proof (intro impI, elim conjE)
    assume n: "\<not> (ord = 0 \<or> gfp_mask AND GFP_FS K = 0 \<or> gfp_mask AND GFP_IO K = 0)"
      and ps: "per_zone_statuses K (zonelist_zones K zonelist (gfp_zone K gfp_mask) nodemask)
             ord gfp_mask is_sync c p (count_vm_events K COMPACTSTALL 1 w) = Some sts"
      and ne: "sts \<noteq> []"
    from f n ps show "\<exists>c' p' w'. try_to_compact_pages K zonelist ord gfp_mask nodemask is_sync c p w
                       = Some (Max (set sts), c', p', w')"
      unfolding max_statuses [OF ps ne] by blast
  qed
  from a b c d e f g show ?thesis by (elim conjE) (intro conjI; assumption)
qed

theorem try_to_compact_pages_result_witness:
  "try_to_compact_pages picky_kernel [zone0, zone1, zone1] 0 0xC0 None True None None
      satisfied_machine = Some (COMPACT_SKIPPED, None, None, satisfied_machine)
   \<and> try_to_compact_pages picky_kernel [zone0, zone1, zone1] 3 0x40 None True None None
      satisfied_machine = Some (COMPACT_SKIPPED, None, None, satisfied_machine)
   \<and> try_to_compact_pages picky_kernel [zone0, zone1, zone1] 3 0x80 None True None None
      satisfied_machine = Some (COMPACT_SKIPPED, None, None, satisfied_machine)
   \<and> compact_zone_order picky_kernel zone0 3 0xC0 True None None satisfied_machine
       = Some (COMPACT_SKIPPED, None, None, satisfied_machine)
   \<and> \<not> zone_watermark_ok picky_kernel satisfied_machine zone0 3
          (low_wmark_pages picky_kernel satisfied_machine zone0) 0 0
   \<and> compact_zone_order picky_kernel zone1 3 0xC0 True None None satisfied_machine
       = Some (COMPACT_PARTIAL, None, None, satisfied_machine)
   \<and> zone_watermark_ok picky_kernel satisfied_machine zone1 3
        (low_wmark_pages picky_kernel satisfied_machine zone1) 0 0
   \<and> per_zone_statuses picky_kernel [zone0, zone1, zone1] 3 0xC0 True None None satisfied_machine
       = Some [COMPACT_SKIPPED, COMPACT_PARTIAL]
   \<and> try_to_compact_zones picky_kernel [zone0, zone1, zone1] 3 0xC0 True COMPACT_SKIPPED None None
        satisfied_machine = Some (COMPACT_PARTIAL, None, None, satisfied_machine)
   \<and> try_to_compact_pages picky_kernel [zone0, zone1, zone1] 3 0xC0 None True None None
      satisfied_machine = Some (COMPACT_PARTIAL, None, None, satisfied_machine)
   \<and> Max (insert COMPACT_SKIPPED (set [COMPACT_SKIPPED, COMPACT_PARTIAL])) = COMPACT_PARTIAL
   \<and> Max (set [COMPACT_SKIPPED, COMPACT_PARTIAL]) = COMPACT_PARTIAL
   \<and> (\<exists>c' p' w'. try_to_compact_zones picky_kernel [zone0, zone1, zone1] 3 0xC0 True COMPACT_COMPLETE
                      None None satisfied_machine
                    = Some (Max (insert COMPACT_COMPLETE (set [COMPACT_SKIPPED, COMPACT_PARTIAL])),
                            c', p', w'))
   \<and> (\<exists>sts. per_zone_statuses picky_kernel [zone0, zone1, zone1] 3 0xC0 True None None
                 satisfied_machine = Some sts
               \<and> COMPACT_PARTIAL = Max (insert COMPACT_SKIPPED (set sts))
               \<and> length sts \<le> length [zone0, zone1, zone1])
   \<and> compact_zone_order stuck_kernel tiny_zone 1 0xC0 True None None starved_machine = None
   \<and> try_to_compact_zones stuck_kernel [tiny_zone, tiny_zone] 1 0xC0 True COMPACT_SKIPPED None None
        starved_machine = None"
proof -
  let ?K = "picky_kernel"
  let ?zl = "[zone0, zone1, zone1]"
  note inst = try_to_compact_pages_result [where K = ?K and zonelist = ?zl and nodemask = None and is_sync = True
                    and c = None and p = None and w = satisfied_machine]
  have gf: "GFP_FS ?K = 0x80" "GFP_IO ?K = 0x40"
    "zonelist_zones ?K ?zl (gfp_zone ?K 0xC0) None = ?zl"
    "count_vm_events ?K COMPACTSTALL 1 satisfied_machine = satisfied_machine"
    by (simp_all add: picky_kernel_def)
  have wm0: "\<not> zone_watermark_ok ?K satisfied_machine zone0 3
                 (low_wmark_pages ?K satisfied_machine zone0) 0 0"
    and wm1: "zone_watermark_ok ?K satisfied_machine zone1 3
                 (low_wmark_pages ?K satisfied_machine zone1) 0 0"
    by (simp_all add: picky_kernel_def zone0_def zone1_def)
  have s1: "try_to_compact_pages ?K ?zl 0 0xC0 None True None None satisfied_machine
              = Some (COMPACT_SKIPPED, None, None, satisfied_machine)"
    by (rule inst [where ord = 0 and gfp_mask = "0xC0", THEN conjunct1, THEN mp]) simp
  have s2: "try_to_compact_pages ?K ?zl 3 0x40 None True None None satisfied_machine
              = Some (COMPACT_SKIPPED, None, None, satisfied_machine)"
    by (rule inst [where ord = 3 and gfp_mask = "0x40", THEN conjunct1, THEN mp]) (simp add: gf)
  have s3: "try_to_compact_pages ?K ?zl 3 0x80 None True None None satisfied_machine
              = Some (COMPACT_SKIPPED, None, None, satisfied_machine)"
    by (rule inst [where ord = 3 and gfp_mask = "0x80", THEN conjunct1, THEN mp]) (simp add: gf)
  have long: "\<not> ((3::int) = 0 \<or> (0xC0::gfp_t) AND GFP_FS ?K = 0 \<or> (0xC0::gfp_t) AND GFP_IO ?K = 0)"
    by (simp add: gf)
  have pz: "per_zone_statuses ?K ?zl 3 0xC0 True None None satisfied_machine
              = Some [COMPACT_SKIPPED, COMPACT_PARTIAL]"
    using picky_order_skipped picky_order_partial wm0 wm1 by simp
  have st1: "try_to_compact_zones ?K ?zl 3 0xC0 True COMPACT_SKIPPED None None satisfied_machine
               = try_to_compact_zones ?K [zone1, zone1] 3 0xC0 True
                   (max COMPACT_SKIPPED COMPACT_SKIPPED) None None satisfied_machine"
    by (rule inst [where ord = 3 and gfp_mask = "0xC0" and z = zone0 and zs = "[zone1, zone1]"
                 and rc = COMPACT_SKIPPED and status = COMPACT_SKIPPED and cz = None and pz = None
                 and wz = satisfied_machine,
               THEN conjunct2, THEN conjunct2, THEN conjunct2, THEN conjunct2, THEN conjunct1,
               THEN mp, OF conjI [OF picky_order_skipped wm0]])
  have st2: "try_to_compact_zones ?K [zone1, zone1] 3 0xC0 True
                   (max COMPACT_SKIPPED COMPACT_SKIPPED) None None satisfied_machine
               = Some (max COMPACT_PARTIAL (max COMPACT_SKIPPED COMPACT_SKIPPED), None, None,
                       satisfied_machine)"
    by (rule inst [where ord = 3 and gfp_mask = "0xC0" and z = zone1 and zs = "[zone1]"
                 and rc = "max COMPACT_SKIPPED COMPACT_SKIPPED" and status = COMPACT_PARTIAL
                 and cz = None and pz = None and wz = satisfied_machine,
               THEN conjunct2, THEN conjunct2, THEN conjunct2, THEN conjunct1,
               THEN mp, OF conjI [OF picky_order_partial wm1]])
  have tz: "try_to_compact_zones ?K ?zl 3 0xC0 True COMPACT_SKIPPED None None satisfied_machine
              = Some (COMPACT_PARTIAL, None, None, satisfied_machine)"
    unfolding st1 st2 by (simp add: compact_status_defs)
  have pz': "per_zone_statuses ?K (zonelist_zones ?K ?zl (gfp_zone ?K 0xC0) None) 3 0xC0 True
               None None (count_vm_events ?K COMPACTSTALL 1 satisfied_machine)
              = Some [COMPACT_SKIPPED, COMPACT_PARTIAL]"
    unfolding gf by (rule pz)
  have ex: "\<exists>c' p' w'. try_to_compact_pages ?K ?zl 3 0xC0 None True None None satisfied_machine
                      = Some (Max (insert COMPACT_SKIPPED (set [COMPACT_SKIPPED, COMPACT_PARTIAL])),
                              c', p', w')"
    by (rule inst [where ord = 3 and gfp_mask = "0xC0" and sts = "[COMPACT_SKIPPED, COMPACT_PARTIAL]",
               THEN conjunct2, THEN conjunct2, THEN conjunct2, THEN conjunct2, THEN conjunct2,
               THEN conjunct2, THEN conjunct2, THEN conjunct2, THEN conjunct1,
               THEN mp, OF conjI [OF long pz']])
  have ne: "[COMPACT_SKIPPED, COMPACT_PARTIAL] \<noteq> []" by simp
  have ex2: "\<exists>c' p' w'. try_to_compact_pages ?K ?zl 3 0xC0 None True None None satisfied_machine
                      = Some (Max (set [COMPACT_SKIPPED, COMPACT_PARTIAL]), c', p', w')"
    by (rule inst [where ord = 3 and gfp_mask = "0xC0" and sts = "[COMPACT_SKIPPED, COMPACT_PARTIAL]",
               THEN conjunct2, THEN conjunct2, THEN conjunct2, THEN conjunct2, THEN conjunct2,
               THEN conjunct2, THEN conjunct2, THEN conjunct2, THEN conjunct2,
               THEN mp, OF conjI [OF long conjI [OF pz' ne]]])
  have tp: "try_to_compact_pages ?K ?zl 3 0xC0 None True None None satisfied_machine
              = try_to_compact_zones ?K (zonelist_zones ?K ?zl (gfp_zone ?K 0xC0) None) 3 0xC0 True
                  COMPACT_SKIPPED None None (count_vm_events ?K COMPACTSTALL 1 satisfied_machine)"
    by (rule inst [where ord = 3 and gfp_mask = "0xC0", THEN conjunct2, THEN conjunct1, THEN mp,
               OF long])
  have run: "try_to_compact_pages ?K ?zl 3 0xC0 None True None None satisfied_machine
              = Some (COMPACT_PARTIAL, None, None, satisfied_machine)"
    unfolding tp gf by (rule tz)
  from ex obtain c' p' w' where
    "Some (COMPACT_PARTIAL, None, None, satisfied_machine)
       = Some (Max (insert COMPACT_SKIPPED (set [COMPACT_SKIPPED, COMPACT_PARTIAL])), c', p', w')"
    unfolding run by blast
  then have "COMPACT_PARTIAL = Max (insert COMPACT_SKIPPED (set [COMPACT_SKIPPED, COMPACT_PARTIAL]))"
    by (simp only: option.inject prod.inject)
  then have mx: "Max (insert COMPACT_SKIPPED (set [COMPACT_SKIPPED, COMPACT_PARTIAL]))
                         = COMPACT_PARTIAL"
    by (rule sym)
  from ex2 obtain c2 p2 w2 where
    "Some (COMPACT_PARTIAL, None, None, satisfied_machine)
       = Some (Max (set [COMPACT_SKIPPED, COMPACT_PARTIAL]), c2, p2, w2)"
    unfolding run by blast
  then have "COMPACT_PARTIAL = Max (set [COMPACT_SKIPPED, COMPACT_PARTIAL])"
    by (simp only: option.inject prod.inject)
  then have mx2: "Max (set [COMPACT_SKIPPED, COMPACT_PARTIAL]) = COMPACT_PARTIAL"
    by (rule sym)
  have pr: "\<exists>c' p' w'. try_to_compact_zones ?K ?zl 3 0xC0 True COMPACT_COMPLETE
                      None None satisfied_machine
                    = Some (Max (insert COMPACT_COMPLETE (set [COMPACT_SKIPPED, COMPACT_PARTIAL])),
                            c', p', w')"
    by (rule inst [where ord = 3 and gfp_mask = "0xC0" and zs = ?zl and rc = COMPACT_COMPLETE
                     and sts = "[COMPACT_SKIPPED, COMPACT_PARTIAL]",
               THEN conjunct2, THEN conjunct2, THEN conjunct2, THEN conjunct2, THEN conjunct2,
               THEN conjunct2, THEN conjunct1, THEN mp, OF pz])
  have bk: "\<exists>sts. per_zone_statuses ?K ?zl 3 0xC0 True None None satisfied_machine = Some sts
               \<and> COMPACT_PARTIAL = Max (insert COMPACT_SKIPPED (set sts))
               \<and> length sts \<le> length ?zl"
    by (rule inst [where ord = 3 and gfp_mask = "0xC0" and zs = ?zl and rc = COMPACT_SKIPPED
                     and r = COMPACT_PARTIAL and c' = None and p' = None and w' = satisfied_machine,
               THEN conjunct2, THEN conjunct2, THEN conjunct1, THEN mp, OF tz])
  have nr: "try_to_compact_zones stuck_kernel [tiny_zone, tiny_zone] 1 0xC0 True COMPACT_SKIPPED
              None None starved_machine = None"
    by (rule try_to_compact_pages_result
               [where K = stuck_kernel and z = tiny_zone and zs = "[tiny_zone]" and ord = 1
                  and gfp_mask = "0xC0" and is_sync = True and c = None and p = None
                  and w = starved_machine and rc = COMPACT_SKIPPED,
                THEN conjunct2, THEN conjunct2, THEN conjunct2, THEN conjunct2, THEN conjunct2,
                THEN conjunct1, THEN mp, OF starved_order])
  from s1 s2 s3 picky_order_skipped wm0 picky_order_partial wm1 pz tz run mx mx2 pr bk
       starved_order nr
  show ?thesis by (intro conjI)
qed

end
